(* ===== verification/Chathub_Prelude.thy ===== *)
theory Chathub_Prelude
  imports Main "HOL-Library.Word" "HOL-Library.Char_ord"
begin

text \<open>
  Shared vocabulary of the development.

  \<^item> Types: \<open>byte\<close> is \<^verbatim>\<open>std::uint8_t\<close>; \<open>string\<close> (a list of 8-bit characters) is
    \<^verbatim>\<open>std::string\<close> and \<^verbatim>\<open>std::string_view\<close>; \<open>bytes\<close> is \<^verbatim>\<open>std::vector<std::uint8_t>\<close>.
  \<^item> Characters: the character classes the sources test with \<^verbatim>\<open>c >= 'a' && c <= 'z'\<close> and the
    casts between \<^verbatim>\<open>char\<close> and \<^verbatim>\<open>unsigned char\<close>.
  \<^item> Decimal numerals: the parts of the standard library the sources use, \<^verbatim>\<open>std::to_string\<close>
    and \<^verbatim>\<open>std::from_chars\<close>, with the round-trip lemmas the components share.
  \<^item> Interfaces: the locales for value types that only a parser can build.
\<close>

unbundle bit_operations_syntax

named_theorems char_class \<open>definitions of the character classes\<close>

type_synonym byte = "8 word"
type_synonym bytes = "8 word list"

section \<open>Characters and bytes\<close>

text \<open>\<^verbatim>\<open>reinterpret_cast<const unsigned char*>\<close> and back: the same eight bits.\<close>

definition byte_of_char :: "char \<Rightarrow> byte" where
  "byte_of_char c = of_nat (of_char c)"

definition char_of_byte :: "byte \<Rightarrow> char" where
  "char_of_byte b = char_of (unat b)"

definition bytes_of_string :: "string \<Rightarrow> bytes" where
  "bytes_of_string s = map byte_of_char s"

definition string_of_bytes :: "bytes \<Rightarrow> string" where
  "string_of_bytes bs = map char_of_byte bs"

lemma unat_byte_of_char [simp]: "unat (byte_of_char c) = of_char c"
  by (simp add: byte_of_char_def unat_of_nat)

lemma char_of_byte_of_char [simp]: "char_of_byte (byte_of_char c) = c"
  by (simp add: char_of_byte_def)

lemma byte_of_char_of_byte [simp]: "byte_of_char (char_of_byte b) = b"
proof -
  have "unat b < 256" using unsigned_less [of b, where 'a = nat] by simp
  then show ?thesis by (simp add: byte_of_char_def char_of_byte_def)
qed

lemma string_of_bytes_inverse [simp]: "string_of_bytes (bytes_of_string s) = s"
  by (simp add: string_of_bytes_def bytes_of_string_def o_def)

lemma bytes_of_string_inverse [simp]: "bytes_of_string (string_of_bytes bs) = bs"
  by (simp add: string_of_bytes_def bytes_of_string_def o_def)

lemma length_bytes_of_string [simp]: "length (bytes_of_string s) = length s"
  by (simp add: bytes_of_string_def)

lemma length_string_of_bytes [simp]: "length (string_of_bytes bs) = length bs"
  by (simp add: string_of_bytes_def)

lemma bytes_of_string_inj [simp]: "bytes_of_string s = bytes_of_string t \<longleftrightarrow> s = t"
  by (metis string_of_bytes_inverse)

text \<open>A statement about all bytes is a finite conjunction.\<close>

lemma all_bytes: "(\<forall>b :: byte. P b) \<longleftrightarrow> list_all (\<lambda>n. P (of_nat n)) [0..<256]"
proof
  assume all: "list_all (\<lambda>n. P (of_nat n)) [0..<256]"
  show "\<forall>b :: byte. P b"
  proof
    fix b :: byte
    have "unat b \<in> set [0..<256]" using unsigned_less [of b, where 'a = nat] by simp
    with all have "P (of_nat (unat b))" unfolding list_all_iff by blast
    then show "P b" by simp
  qed
qed (simp add: list_all_iff)

section \<open>Character classes\<close>

text \<open>
  The sources compare characters with literals. \<open>\<le>\<close> on \<^typ>\<open>char\<close> compares the unsigned
  codes; \<^verbatim>\<open>char\<close> may be signed in C++, which gives the same answer for a range of ASCII
  literals: \<open>signed_char_range\<close> below.
\<close>

definition is_upper :: "char \<Rightarrow> bool" where
  [char_class]: "is_upper c \<longleftrightarrow> CHR ''A'' \<le> c \<and> c \<le> CHR ''Z''"

definition is_lower :: "char \<Rightarrow> bool" where
  [char_class]: "is_lower c \<longleftrightarrow> CHR ''a'' \<le> c \<and> c \<le> CHR ''z''"

definition is_digit :: "char \<Rightarrow> bool" where
  [char_class]: "is_digit c \<longleftrightarrow> CHR ''0'' \<le> c \<and> c \<le> CHR ''9''"

definition is_lower_hex :: "char \<Rightarrow> bool" where
  [char_class]: "is_lower_hex c \<longleftrightarrow>
     is_digit c \<or> (CHR ''a'' \<le> c \<and> c \<le> CHR ''f'')"

text \<open>\<^verbatim>\<open>static_cast<char>(c - 'A' + 'a')\<close>, computed in \<^verbatim>\<open>int\<close> after promotion.\<close>

definition lower_ascii_char :: "char \<Rightarrow> char" where
  "lower_ascii_char c =
     (if is_upper c
      then char_of (of_char c - of_char CHR ''A'' + of_char CHR ''a'' :: int)
      else c)"

lemma signed_char_range:
  assumes "0 \<le> lo" and "hi < 128"
  shows "lo \<le> sint (byte_of_char c) \<and> sint (byte_of_char c) \<le> hi \<longleftrightarrow>
    lo \<le> int (of_char c) \<and> int (of_char c) \<le> hi"
proof -
  define u where "u = uint (byte_of_char c)"
  have code: "u = int (of_char c)"
    unfolding u_def by (metis uint_nat unat_byte_of_char)
  have range: "0 \<le> u" "u < 256"
    using unsigned_less [of "byte_of_char c", where 'a = int] by (simp_all add: u_def)
  have "sint (byte_of_char c) = (u + 128) mod 256 - 128"
    by (simp add: sint_uint signed_take_bit_eq_take_bit_shift take_bit_eq_mod u_def)
  moreover have "(u + 128) mod 256 = (if u < 128 then u + 128 else u - 128)"
    using range mod_pos_pos_trivial [of "u + 128" 256] mod_pos_pos_trivial [of "u - 128" 256]
      mod_add_self2 [of "u - 128" 256] by (cases "u < 128") (simp_all add: add.commute)
  ultimately have "sint (byte_of_char c) = (if u < 128 then u else u - 256)"
    by simp
  then show ?thesis using assms range unfolding code [symmetric] by auto
qed

lemma lower_ascii_char_lower: "is_lower (lower_ascii_char c) \<longleftrightarrow> is_upper c \<or> is_lower c"
proof -
  have "\<forall>c. is_lower (lower_ascii_char c) \<longleftrightarrow> is_upper c \<or> is_lower c"
    by code_simp
  then show ?thesis ..
qed


lemma lower_ascii_char_id [simp]: "\<not> is_upper c \<Longrightarrow> lower_ascii_char c = c"
  by (simp add: lower_ascii_char_def)

lemma lower_ascii_char_idem [simp]: "lower_ascii_char (lower_ascii_char c) = lower_ascii_char c"
proof -
  have "\<forall>c. \<not> is_upper (lower_ascii_char c)"
    by code_simp
  then show ?thesis by simp
qed

lemma is_lower_hex_not_upper: "is_lower_hex c \<Longrightarrow> \<not> is_upper c"
  by (auto simp: char_class less_eq_char_def)

section \<open>Decimal numerals of the standard library\<close>

text \<open>\<^verbatim>\<open>c - '0'\<close> for a digit, and the value of a digit sequence.\<close>

definition digit_value :: "char \<Rightarrow> nat" where
  "digit_value c = of_char c - of_char CHR ''0''"

definition digit_char :: "nat \<Rightarrow> char" where
  "digit_char n = char_of (of_char CHR ''0'' + n)"

definition digits_value :: "string \<Rightarrow> nat" where
  "digits_value ds = foldl (\<lambda>n c. n * 10 + digit_value c) 0 ds"

text \<open>\<^verbatim>\<open>std::to_string\<close> of an unsigned value: no sign, no leading zero.\<close>

fun to_string :: "nat \<Rightarrow> string" where
  "to_string n =
     (if n < 10 then [digit_char n] else to_string (n div 10) @ [digit_char (n mod 10)])"

declare to_string.simps [simp del]

text \<open>
  \<^verbatim>\<open>std::from_chars(first, last, uint64_t&, 10)\<close>: the longest prefix of digits is the
  pattern. No digit: \<open>invalid_argument\<close>, nothing consumed. A value that does not fit:
  \<open>result_out_of_range\<close>, the pattern consumed. In both cases the target keeps its value.
  The result is the error code, the number of characters consumed and the target.
\<close>

datatype errc = errc_ok | invalid_argument | result_out_of_range

definition from_chars :: "string \<Rightarrow> 64 word \<Rightarrow> errc \<times> nat \<times> 64 word" where
  "from_chars s initial =
     (let ds = takeWhile is_digit s
      in if ds = [] then (invalid_argument, 0, initial)
         else if 2 ^ 64 \<le> digits_value ds then (result_out_of_range, length ds, initial)
         else (errc_ok, length ds, of_nat (digits_value ds)))"

text \<open>A numeral is canonical when it is the one \<^const>\<open>to_string\<close> prints.\<close>

definition canonical_decimal :: "string \<Rightarrow> bool" where
  "canonical_decimal s \<longleftrightarrow>
     s \<noteq> [] \<and> list_all is_digit s \<and> (1 < length s \<longrightarrow> hd s \<noteq> CHR ''0'')"

lemma digits_value_Nil [simp]: "digits_value [] = 0"
  by (simp add: digits_value_def)

lemma digits_value_snoc [simp]: "digits_value (ds @ [d]) = digits_value ds * 10 + digit_value d"
  by (simp add: digits_value_def)

lemma is_digit_code: "is_digit c \<longleftrightarrow> 48 \<le> (of_char c :: nat) \<and> (of_char c :: nat) \<le> 57"
  by (simp add: is_digit_def less_eq_char_def)

lemma digit_value_less: "is_digit c \<Longrightarrow> digit_value c < 10"
  by (auto simp: is_digit_code digit_value_def)

lemma digit_char_value: "is_digit c \<Longrightarrow> digit_char (digit_value c) = c"
  by (simp add: is_digit_code digit_value_def digit_char_def)

lemma of_char_digit_char: "n < 10 \<Longrightarrow> (of_char (digit_char n) :: nat) = 48 + n"
  by (simp add: digit_char_def)

lemma is_digit_digit_char: "n < 10 \<Longrightarrow> is_digit (digit_char n)"
  by (simp add: is_digit_code of_char_digit_char)

lemma digit_value_char: "n < 10 \<Longrightarrow> digit_value (digit_char n) = n"
  by (simp add: digit_value_def of_char_digit_char)

lemma digit_char_zero_iff: "n < 10 \<Longrightarrow> digit_char n = CHR ''0'' \<longleftrightarrow> n = 0"
proof -
  assume n: "n < 10"
  have "digit_char n = CHR ''0'' \<longleftrightarrow> (of_char (digit_char n) :: nat) = of_char CHR ''0''"
    by (rule of_char_eq_iff [symmetric])
  with n show ?thesis by (simp add: of_char_digit_char)
qed

lemma to_string_nonempty [simp]: "to_string n \<noteq> []"
  by (subst to_string.simps) simp

lemma to_string_digits: "list_all is_digit (to_string n)"
proof (induction n rule: to_string.induct)
  case (1 n)
  then show ?case
    by (subst to_string.simps) (simp add: is_digit_digit_char)
qed

lemma digits_value_to_string [simp]: "digits_value (to_string n) = n"
proof (induction n rule: to_string.induct)
  case (1 n)
  show ?case
  proof (cases "n < 10")
    case True
    then show ?thesis
      by (subst to_string.simps) (simp add: digits_value_def digit_value_char)
  next
    case False
    with "1.IH" show ?thesis
      by (subst to_string.simps) (simp add: digit_value_char)
  qed
qed

lemma hd_to_string: "0 < n \<Longrightarrow> hd (to_string n) \<noteq> CHR ''0''"
proof (induction n rule: to_string.induct)
  case (1 n)
  show ?case
  proof (cases "n < 10")
    case True
    with "1.prems" show ?thesis
      by (subst to_string.simps) (simp add: digit_char_zero_iff)
  next
    case False
    with "1.IH" show ?thesis
      by (subst to_string.simps) simp
  qed
qed

lemma canonical_to_string: "canonical_decimal (to_string n)"
proof (cases "n = 0")
  case True
  then show ?thesis
    by (simp add: canonical_decimal_def to_string_digits) (simp add: to_string.simps)
next
  case False
  then show ?thesis
    by (simp add: canonical_decimal_def to_string_digits hd_to_string)
qed

lemma to_string_digits_value:
  "canonical_decimal s \<Longrightarrow> to_string (digits_value s) = s"
proof (induction s rule: rev_induct)
  case Nil
  then show ?case by (simp add: canonical_decimal_def)
next
  case (snoc d ds)
  from snoc.prems have d: "is_digit d" by (simp add: canonical_decimal_def)
  show ?case
  proof (cases ds)
    case Nil
    with d show ?thesis
      by (subst to_string.simps) (simp add: digits_value_def digit_value_less digit_char_value)
  next
    case (Cons c cs)
    with snoc.prems have can: "canonical_decimal ds" and c: "is_digit c" "c \<noteq> CHR ''0''"
      by (auto simp: canonical_decimal_def)
    have pos: "0 < digits_value ds"
    proof (rule ccontr)
      assume "\<not> 0 < digits_value ds"
      then have "ds = [digit_char 0]" using snoc.IH [OF can]
        by (simp add: to_string.simps)
      then have "ds = [CHR ''0'']"
        by (simp add: digit_char_zero_iff)
      with Cons c show False by simp
    qed
    then show ?thesis
      using digit_value_less [OF d] digit_char_value [OF d] snoc.IH [OF can]
      by (subst to_string.simps) simp
  qed
qed

lemma takeWhile_digits: "takeWhile is_digit s = s \<longleftrightarrow> list_all is_digit s"
  by (simp add: takeWhile_eq_all_conv list_all_iff)

text \<open>
  The whole input is consumed without an error exactly when it is a non-empty digit
  sequence whose value fits in 64 bits.
\<close>

lemma from_chars_complete_iff:
  "from_chars s initial = (errc_ok, length s, v) \<longleftrightarrow>
     s \<noteq> [] \<and> list_all is_digit s \<and> digits_value s < 2 ^ 64 \<and> v = of_nat (digits_value s)"
proof (cases "list_all is_digit s")
  case True
  then have all: "takeWhile is_digit s = s" by (simp only: takeWhile_digits)
  show ?thesis unfolding from_chars_def Let_def all using True by auto
next
  case False
  then have "takeWhile is_digit s \<noteq> s" using takeWhile_digits by blast
  then have "length (takeWhile is_digit s) \<noteq> length s"
    by (metis takeWhile_eq_take take_all order_refl)
  with False show ?thesis by (auto simp: from_chars_def Let_def)
qed

section \<open>Interfaces of the parsed value types\<close>

text \<open>
  A value type with a private constructor is built by its parser only and read by its
  printer. \<open>parsed_value\<close> is the contract every one of them keeps: printing a parsed value
  and parsing it again gives that value. \<open>exact_value\<close> adds that the printer returns the
  very text that was parsed.
\<close>

locale parsed_value =
  fixes parse :: "string \<Rightarrow> 'v option"
    and print :: "'v \<Rightarrow> string"
  assumes reparse: "parse s = Some v \<Longrightarrow> parse (print v) = Some v"
begin

lemma print_injective:
  assumes "parse s = Some v" and "parse t = Some w" and "print v = print w"
  shows "v = w"
  using reparse [OF assms(1)] reparse [OF assms(2)] assms(3)
  by (metis option.inject)

end

locale exact_value = parsed_value +
  assumes exact: "parse s = Some v \<Longrightarrow> print v = s"
begin

lemma parse_injective: "parse s = Some v \<Longrightarrow> parse t = Some v \<Longrightarrow> s = t"
  using exact by blast

lemma accepted_is_printed: "parse s = Some v \<longleftrightarrow> parse (print v) = Some v \<and> s = print v"
  using exact reparse by metis

end

end
