(* ===== verification/Outcomes.thy ===== *)
theory Outcomes
  imports Chathub_Prelude
begin

text \<open>
  \<^verbatim>\<open>shared/include/chathub/contracts/outcome.hpp\<close>: expected failures as values.
  \<^verbatim>\<open>Outcome<T>\<close> is \<^verbatim>\<open>std::variant<T, Error>\<close>; the accessors \<open>value\<close> and \<open>error\<close> throw
  \<^verbatim>\<open>std::bad_variant_access\<close> on the other alternative, which is \<open>None\<close> here.
\<close>

record Error =
  code :: string
  detail :: string

datatype 'a Outcome = Ok 'a | Err Error

definition isOk :: "'a Outcome \<Rightarrow> bool" where
  "isOk result = (case result of Ok _ \<Rightarrow> True | Err _ \<Rightarrow> False)"

definition outcome_value :: "'a Outcome \<Rightarrow> 'a option" where
  "outcome_value result = (case result of Ok v \<Rightarrow> Some v | Err _ \<Rightarrow> None)"

definition outcome_error :: "'a Outcome \<Rightarrow> Error option" where
  "outcome_error result = (case result of Ok _ \<Rightarrow> None | Err e \<Rightarrow> Some e)"

text \<open>\<^verbatim>\<open>isSnakeCaseCode\<close>: the shape of an error code, not its membership in a registry.\<close>

definition snake_case_char :: "char \<Rightarrow> bool" where
  [char_class]: "snake_case_char c \<longleftrightarrow> c = CHR ''_'' \<or> is_digit c \<or> is_lower c"

definition isSnakeCaseCode :: "string \<Rightarrow> bool" where
  "isSnakeCaseCode c =
     (if c = [] \<or> hd c = CHR ''_'' \<or> last c = CHR ''_'' then False
      else list_all snake_case_char c)"

lemma isOk_simps [simp]: "isOk (Ok v)" "\<not> isOk (Err e)"
  by (simp_all add: isOk_def)

lemma outcome_accessors [simp]:
  "outcome_value (Ok v) = Some v" "outcome_value (Err e) = None"
  "outcome_error (Ok v) = None" "outcome_error (Err e) = Some e"
  by (simp_all add: outcome_value_def outcome_error_def)

lemma isOk_iff: "isOk r \<longleftrightarrow> (\<exists>v. r = Ok v)"
  by (cases r) simp_all

text \<open>The accessors are total on the alternative \<^const>\<open>isOk\<close> selects, and only there.\<close>

lemma accessor_defined:
  "outcome_value r \<noteq> None \<longleftrightarrow> isOk r" "outcome_error r \<noteq> None \<longleftrightarrow> \<not> isOk r"
  by (cases r; simp)+

end
