(* ===== verification/Ids.thy ===== *)
theory Ids
  imports Chathub_Prelude
begin

text \<open>
  \<^verbatim>\<open>shared/include/chathub/contracts/ids.hpp\<close>: strongly typed identities and sequence
  numbers. The classes have private constructors, so every value comes from \<^verbatim>\<open>parse\<close>
  (or, for sequence numbers, from \<^verbatim>\<open>of\<close>); the tag of a template is a phantom type
  parameter, so that two identities are different types with the same representation.
\<close>

section \<open>The checks of namespace detail\<close>

definition letter :: "char \<Rightarrow> bool" where
  [char_class]: "letter c \<longleftrightarrow> is_upper c \<or> is_lower c"

definition alnum :: "char \<Rightarrow> bool" where
  [char_class]: "alnum c \<longleftrightarrow> letter c \<or> is_digit c"

definition isAccountName :: "string \<Rightarrow> bool" where
  "isAccountName name =
     (if length name < 4 \<or> length name > 32 then False
      else if \<not> letter (hd name) then False
      else list_all alnum (drop 1 name))"

definition uuid_dash :: "nat \<Rightarrow> bool" where
  "uuid_dash i \<longleftrightarrow> i = 8 \<or> i = 13 \<or> i = 18 \<or> i = 23"

definition isUuid :: "string \<Rightarrow> bool" where
  "isUuid uuid =
     (if length uuid \<noteq> 36 then False
      else if \<not> list_all (\<lambda>i. if uuid_dash i then uuid ! i = CHR ''-''
                              else is_lower_hex (uuid ! i)) [0..<36] then False
      else if uuid ! 14 \<noteq> CHR ''4'' then False
      else if uuid ! 19 \<noteq> CHR ''8'' \<and> uuid ! 19 \<noteq> CHR ''9'' \<and>
              uuid ! 19 \<noteq> CHR ''a'' \<and> uuid ! 19 \<noteq> CHR ''b'' then False
      else True)"

definition toLowerAscii :: "string \<Rightarrow> string" where
  "toLowerAscii text = map lower_ascii_char text"

section \<open>Account names\<close>

datatype AccountName = AccountName (account_value: string)

definition AccountName_parse :: "string \<Rightarrow> AccountName option" where
  "AccountName_parse name =
     (if \<not> isAccountName name then None else Some (AccountName (toLowerAscii name)))"

lemma toLowerAscii_idem [simp]: "toLowerAscii (toLowerAscii s) = toLowerAscii s"
  by (simp add: toLowerAscii_def o_def)

lemma length_toLowerAscii [simp]: "length (toLowerAscii s) = length s"
  by (simp add: toLowerAscii_def)

lemma letter_lower [simp]: "letter (lower_ascii_char c) \<longleftrightarrow> letter c"
proof -
  have "\<forall>c. letter (lower_ascii_char c) \<longleftrightarrow> letter c" by code_simp
  then show ?thesis ..
qed

lemma alnum_lower [simp]: "alnum (lower_ascii_char c) \<longleftrightarrow> alnum c"
proof -
  have "\<forall>c. alnum (lower_ascii_char c) \<longleftrightarrow> alnum c" by code_simp
  then show ?thesis ..
qed

lemma isAccountName_toLower [simp]: "isAccountName (toLowerAscii s) \<longleftrightarrow> isAccountName s"
  by (cases s)
    (auto simp: isAccountName_def toLowerAscii_def list_all_iff)

interpretation account: parsed_value AccountName_parse account_value
  by unfold_locales (auto simp: AccountName_parse_def split: if_splits)

section \<open>UUID identities\<close>

datatype 'tag UuidId = UuidId (uuid_value: string)

datatype MessageIdTag = MessageIdTag
datatype LocalMessageIdTag = LocalMessageIdTag
datatype RequestIdTag = RequestIdTag

type_synonym MessageId = "MessageIdTag UuidId"
type_synonym LocalMessageId = "LocalMessageIdTag UuidId"
type_synonym RequestId = "RequestIdTag UuidId"

definition UuidId_parse :: "string \<Rightarrow> 'tag UuidId option" where
  "UuidId_parse uuid =
     (if \<not> isUuid uuid then None else Some (UuidId (toLowerAscii uuid)))"

text \<open>The default constructor leaves the value empty.\<close>

definition UuidId_default :: "'tag UuidId" where
  "UuidId_default = UuidId []"


text \<open>
  The documented form of an identity: 8-4-4-4-12 lower-case hexadecimal digits, the version
  digit \<open>4\<close> in front of the third group, a variant digit \<open>8\<close>, \<open>9\<close>, \<open>a\<close> or \<open>b\<close> in front
  of the fourth.
\<close>

definition hex_group :: "nat \<Rightarrow> string \<Rightarrow> bool" where
  "hex_group n g \<longleftrightarrow> length g = n \<and> list_all is_lower_hex g"

definition uuid_v4_form :: "string \<Rightarrow> bool" where
  "uuid_v4_form s \<longleftrightarrow> (\<exists>a b c d e.
     s = a @ ''-'' @ b @ ''-'' @ c @ ''-'' @ d @ ''-'' @ e \<and>
     hex_group 8 a \<and> hex_group 4 b \<and> hex_group 4 c \<and> hex_group 4 d \<and> hex_group 12 e \<and>
     hd c = CHR ''4'' \<and> hd d \<in> set ''89ab'')"

lemma is_lower_hex_dash [simp]: "\<not> is_lower_hex CHR ''-''"
  by code_simp

lemma isUuid_chars: "isUuid s \<Longrightarrow> c \<in> set s \<Longrightarrow> c = CHR ''-'' \<or> is_lower_hex c"
  by (auto simp: isUuid_def in_set_conv_nth list_all_iff split: if_splits)

lemma isUuid_toLower: "isUuid s \<Longrightarrow> toLowerAscii s = s"
proof -
  assume u: "isUuid s"
  have "lower_ascii_char c = c" if "c \<in> set s" for c
    using isUuid_chars [OF u that] is_lower_hex_not_upper [of c]
    by (auto simp: lower_ascii_char_def is_upper_def)
  then show ?thesis by (simp add: toLowerAscii_def map_idI)
qed

lemma list_split_at: "i < length s \<Longrightarrow> s = take i s @ [s ! i] @ drop (Suc i) s"
  by (simp add: id_take_nth_drop)

lemma nth_take_drop_group:
  "k < m \<Longrightarrow> n + m \<le> length s \<Longrightarrow> take m (drop n s) ! k = s ! (n + k)"
  by simp

lemma hex_group_slice:
  assumes "length s = 36"
    and "\<forall>i < 36. if uuid_dash i then s ! i = CHR ''-'' else is_lower_hex (s ! i)"
    and "n + m \<le> 36" and "\<forall>k < m. \<not> uuid_dash (n + k)"
  shows "hex_group m (take m (drop n s))"
  using assms by (auto simp: hex_group_def list_all_length)

lemma isUuid_imp_form: "isUuid s \<Longrightarrow> uuid_v4_form s"
proof -
  assume u: "isUuid s"
  then have len: "length s = 36"
    and chars: "\<forall>i < 36. if uuid_dash i then s ! i = CHR ''-'' else is_lower_hex (s ! i)"
    and v: "s ! 14 = CHR ''4''" and w: "s ! 19 \<in> set ''89ab''"
    by (auto simp: isUuid_def list_all_iff split: if_splits)
  have groups: "hex_group 8 (take 8 (drop 0 s))" "hex_group 4 (take 4 (drop 9 s))"
    "hex_group 4 (take 4 (drop 14 s))" "hex_group 4 (take 4 (drop 19 s))"
    "hex_group 12 (take 12 (drop 24 s))"
    by (rule hex_group_slice [OF len chars]; simp add: uuid_dash_def)+
  have dash: "s ! 8 = CHR ''-''" "s ! 13 = CHR ''-''" "s ! 18 = CHR ''-''" "s ! 23 = CHR ''-''"
    using chars by (auto simp: uuid_dash_def)
  have hds: "hd (take 4 (drop 14 s)) = s ! 14" "hd (take 4 (drop 19 s)) = s ! 19"
    using len by (simp_all add: hd_drop_conv_nth)
  have step: "drop n s = take m (drop n s) @ [s ! (n + m)] @ drop (n + m + 1) s"
    if "n + m < 36" for n m
    using list_split_at [of m "drop n s"] that len by (simp add: add.commute)
  have "s = take 8 (drop 0 s) @ ''-'' @ take 4 (drop 9 s) @ ''-'' @ take 4 (drop 14 s) @ ''-'' @
      take 4 (drop 19 s) @ ''-'' @ take 12 (drop 24 s)"
    using step [of 0 8] step [of 9 4] step [of 14 4] step [of 19 4] dash len by simp
  with groups v w hds show ?thesis
    unfolding uuid_v4_form_def by metis
qed


definition uuid_char_at :: "nat \<Rightarrow> char \<Rightarrow> bool" where
  "uuid_char_at i c \<longleftrightarrow> (if uuid_dash i then c = CHR ''-'' else is_lower_hex c)"

lemma hex_group_at:
  assumes "hex_group m g" and "\<forall>k < m. \<not> uuid_dash (n + k)"
  shows "list_all2 uuid_char_at [n..<n + m] g"
  using assms by (intro list_all2_all_nthI)
    (auto simp: hex_group_def uuid_char_at_def list_all_length)

lemma form_chars:
  assumes "hex_group 8 a" "hex_group 4 b" "hex_group 4 c" "hex_group 4 d" "hex_group 12 e"
  shows "list_all2 uuid_char_at [0..<36]
    (a @ ''-'' @ b @ ''-'' @ c @ ''-'' @ d @ ''-'' @ e)"
proof -
  have split: "[0..<36] = [0..<0 + 8] @ [8] @ [9..<9 + 4] @ [13] @ [14..<14 + 4] @ [18] @
      [19..<19 + 4] @ [23] @ [24..<24 + 12]"
    by code_simp
  have dash: "list_all2 uuid_char_at [i] ''-''" if "uuid_dash i" for i
    using that by (simp add: uuid_char_at_def)
  show ?thesis
    unfolding split
    by (intro list_all2_appendI hex_group_at dash assms) (auto simp: uuid_dash_def)
qed

lemma form_imp_isUuid: "uuid_v4_form s \<Longrightarrow> isUuid s"
proof -
  assume "uuid_v4_form s"
  then obtain a b c d e where s: "s = a @ ''-'' @ b @ ''-'' @ c @ ''-'' @ d @ ''-'' @ e"
    and g: "hex_group 8 a" "hex_group 4 b" "hex_group 4 c" "hex_group 4 d" "hex_group 12 e"
    and v: "hd c = CHR ''4''" and w: "hd d \<in> set ''89ab''"
    unfolding uuid_v4_form_def by blast
  have len: "length a = 8" "length b = 4" "length c = 4" "length d = 4" "length e = 12"
    using g by (simp_all add: hex_group_def)
  have "list_all2 uuid_char_at [0..<36] s"
    unfolding s by (rule form_chars [OF g])
  then have "uuid_char_at i (s ! i)" if "i < 36" for i
    using that list_all2_nthD by fastforce
  moreover have "s ! 14 = hd c" "s ! 19 = hd d"
    using len by (cases c; cases d; simp add: s nth_append)+
  moreover have "length s = 36" using len by (simp add: s)
  ultimately show ?thesis
    using v w by (auto simp: isUuid_def list_all_iff uuid_char_at_def)
qed

lemma UuidId_parse_Some:
  "UuidId_parse s = Some v \<longleftrightarrow> isUuid s \<and> v = UuidId s"
  by (auto simp: UuidId_parse_def isUuid_toLower)

interpretation uuid: exact_value UuidId_parse uuid_value
  by unfold_locales (auto simp: UuidId_parse_Some)

section \<open>Sequence numbers\<close>

datatype 'tag DecimalSeq = DecimalSeq (seq_value: "64 word")

datatype DeliverySeqTag = DeliverySeqTag
datatype ConversationSeqTag = ConversationSeqTag

type_synonym DeliverySeq = "DeliverySeqTag DecimalSeq"
type_synonym ConversationSeq = "ConversationSeqTag DecimalSeq"

definition DecimalSeq_parse :: "string \<Rightarrow> 'tag DecimalSeq option" where
  "DecimalSeq_parse text =
     (if text = [] \<or> (1 < length text \<and> hd text = CHR ''0'') then None
      else case from_chars text 0 of (ec, consumed, parsed) \<Rightarrow>
        if ec \<noteq> errc_ok \<or> consumed \<noteq> length text then None
        else Some (DecimalSeq parsed))"

definition DecimalSeq_of :: "64 word \<Rightarrow> 'tag DecimalSeq" where
  "DecimalSeq_of v = DecimalSeq v"

definition toDecimalString :: "'tag DecimalSeq \<Rightarrow> string" where
  "toDecimalString q = to_string (unat (seq_value q))"

lemma DecimalSeq_parse_Some:
  "DecimalSeq_parse s = Some q \<longleftrightarrow>
     canonical_decimal s \<and> digits_value s < 2 ^ 64 \<and> q = DecimalSeq (of_nat (digits_value s))"
proof (cases "from_chars s 0")
  case (fields ec n v)
  show ?thesis
  proof (cases "ec = errc_ok \<and> n = length s")
    case True
    with fields from_chars_complete_iff [of s 0 v] show ?thesis
      by (auto simp: DecimalSeq_parse_def canonical_decimal_def)
  next
    case False
    have "\<not> (list_all is_digit s \<and> s \<noteq> [] \<and> digits_value s < 2 ^ 64)"
      using False fields from_chars_complete_iff [of s 0 "of_nat (digits_value s)"] by auto
    with False fields show ?thesis
      by (auto simp: DecimalSeq_parse_def canonical_decimal_def)
  qed
qed

lemma toDecimalString_canonical: "canonical_decimal (toDecimalString q)"
  by (simp add: toDecimalString_def canonical_to_string)

lemma digits_value_toDecimalString: "digits_value (toDecimalString q) = unat (seq_value q)"
  by (simp add: toDecimalString_def)

lemma unat_less_2_64: "unat (w :: 64 word) < 2 ^ 64"
  using unsigned_less [of w, where 'a = nat] by simp

lemma parse_toDecimalString: "DecimalSeq_parse (toDecimalString q) = Some q"
  using unat_less_2_64 [of "seq_value q"]
  by (cases q) (simp add: DecimalSeq_parse_Some toDecimalString_canonical
    digits_value_toDecimalString)

lemma toDecimalString_parse: "DecimalSeq_parse s = Some q \<Longrightarrow> toDecimalString q = s"
  by (auto simp: DecimalSeq_parse_Some toDecimalString_def unat_of_nat to_string_digits_value)

interpretation seq: exact_value DecimalSeq_parse toDecimalString
  by unfold_locales (auto simp: parse_toDecimalString toDecimalString_parse)

lemma isAccountName_iff:
  "isAccountName s \<longleftrightarrow> 4 \<le> length s \<and> length s \<le> 32 \<and> letter (hd s) \<and> list_all alnum s"
  by (cases s) (auto simp: isAccountName_def alnum_def)

lemma letter_to_lower: "letter c \<Longrightarrow> is_lower (lower_ascii_char c)"
  by (simp add: lower_ascii_char_lower letter_def)

lemma alnum_to_lower: "alnum c \<Longrightarrow> is_lower (lower_ascii_char c) \<or> is_digit (lower_ascii_char c)"
proof -
  have "\<forall>c. alnum c \<longrightarrow> is_lower (lower_ascii_char c) \<or> is_digit (lower_ascii_char c)"
    by code_simp
  then show "alnum c \<Longrightarrow> ?thesis" by blast
qed

lemma upper_to_lower_code:
  "is_upper c \<Longrightarrow> (of_char (lower_ascii_char c) :: int) = of_char c + 32"
proof -
  have "\<forall>c. is_upper c \<longrightarrow> (of_char (lower_ascii_char c) :: int) = of_char c + 32"
    by code_simp
  then show "is_upper c \<Longrightarrow> ?thesis" by blast
qed

text \<open>The same character, or the two cases of a letter.\<close>

definition same_letter :: "char \<Rightarrow> char \<Rightarrow> bool" where
  "same_letter c d \<longleftrightarrow> c = d \<or> is_upper c \<and> lower_ascii_char c = d \<or>
     is_upper d \<and> lower_ascii_char d = c"

lemma same_letter_lower: "lower_ascii_char c = lower_ascii_char d \<longleftrightarrow> same_letter c d"
proof (cases "is_upper c \<and> is_upper d")
  case True
  then have "lower_ascii_char c = lower_ascii_char d \<Longrightarrow> c = d"
    using upper_to_lower_code [of c] upper_to_lower_code [of d]
    by (metis add_right_cancel of_char_eq_iff)
  then show ?thesis by (auto simp: same_letter_def)
next
  case False
  then show ?thesis
    unfolding same_letter_def by (metis lower_ascii_char_id lower_ascii_char_idem)
qed

section \<open>Properties\<close>

text \<open>
  C27 (account names). A name is accepted exactly when it has 4 to 32 characters, all letters
  or digits, and starts with a letter; the value stored is the name in lower case, which is
  again an accepted name and parses to the same value.
\<close>

theorem account_name_normal_form:
  "(AccountName_parse s \<noteq> None \<longleftrightarrow>
      4 \<le> length s \<and> length s \<le> 32 \<and> letter (hd s) \<and> list_all alnum s) \<and>
   (\<forall>v. AccountName_parse s = Some v \<longrightarrow>
      length (account_value v) = length s \<and> is_lower (hd (account_value v)) \<and>
      list_all (\<lambda>c. is_lower c \<or> is_digit c) (account_value v) \<and>
      AccountName_parse (account_value v) = Some v)"
proof (cases "isAccountName s")
  case False
  then show ?thesis unfolding isAccountName_iff [symmetric] by (simp add: AccountName_parse_def)
next
  case True
  then have parse: "AccountName_parse s = Some (AccountName (toLowerAscii s))"
    by (simp add: AccountName_parse_def)
  have shape: "s \<noteq> []" "letter (hd s)" "list_all alnum s"
    using True unfolding isAccountName_iff by auto
  then have "is_lower (hd (toLowerAscii s))"
    "list_all (\<lambda>c. is_lower c \<or> is_digit c) (toLowerAscii s)"
    by (auto simp: toLowerAscii_def hd_map letter_to_lower list_all_iff alnum_to_lower)
  with True account.reparse [OF parse] parse show ?thesis
    unfolding isAccountName_iff [symmetric] by simp
qed

theorem account_name_normal_form_witness:
  "AccountName_parse ''Alice01'' = Some (AccountName ''alice01'') \<and>
   AccountName_parse ''alice01'' = Some (AccountName ''alice01'')"
proof -
  have "AccountName_parse ''Alice01'' = Some (AccountName ''alice01'')" by code_simp
  then show ?thesis using account_name_normal_form [of "''Alice01''"] by auto
qed

text \<open>
  Two accepted spellings denote the same account exactly when
  they differ in the case of letters only.
\<close>

lemma account_name_ignores_case:
  assumes "AccountName_parse s = Some v" and "AccountName_parse t = Some w"
  shows "v = w \<longleftrightarrow> list_all2 same_letter s t"
proof -
  have "v = w \<longleftrightarrow> map lower_ascii_char s = map lower_ascii_char t"
    using assms by (auto simp: AccountName_parse_def toLowerAscii_def split: if_splits)
  then show ?thesis
    by (simp add: list.rel_eq [symmetric] list_all2_map1 list_all2_map2 same_letter_lower)
qed

lemma account_name_ignores_case_example:
  "AccountName_parse ''AbCd'' = AccountName_parse ''aBcD'' \<and>
   AccountName_parse ''AbCd'' = Some (AccountName ''abcd'')"
proof -
  have a: "AccountName_parse ''AbCd'' = Some (AccountName ''abcd'')" by code_simp
  have b: "AccountName_parse ''aBcD'' = Some (AccountName ''abcd'')" by code_simp
  show ?thesis using account_name_ignores_case [OF a b] a b by simp
qed

text \<open>
  C26 (identities are lower-case UUID v4). A text is accepted exactly when it has the 8-4-4-4-12
  form of a lower-case version 4 UUID, and the value stored is the text itself.
\<close>

theorem uuid_parse_exact:
  "UuidId_parse s = Some v \<longleftrightarrow> uuid_v4_form s \<and> uuid_value v = s"
  using isUuid_imp_form form_imp_isUuid by (cases v) (auto simp: UuidId_parse_Some)

text \<open>
  C24 (sequence numbers round-trip). Parsing is the exact inverse of printing: a text parses to
  a sequence number if and only if it is the number's decimal string. In particular every
  64-bit value round-trips, and leading zeros, signs, spaces, the empty text and values of
  2^64 or more are rejected.
\<close>

theorem decimal_seq_roundtrip:
  "DecimalSeq_parse s = Some q \<longleftrightarrow> s = toDecimalString q"
  using parse_toDecimalString toDecimalString_parse by blast

text \<open>
  C25 (what sequence numbers accept). The accepted texts are the non-empty digit strings without
  a leading zero (but "0") whose value is below 2^64, and the value parsed is that value.
\<close>

theorem decimal_seq_accepts:
  "(DecimalSeq_parse s :: 'tag DecimalSeq option) =
     (if s \<noteq> [] \<and> list_all is_digit s \<and> \<not> (1 < length s \<and> hd s = CHR ''0'') \<and>
         digits_value s < 2 ^ 64
      then Some (DecimalSeq (of_nat (digits_value s))) else None)"
proof (cases "DecimalSeq_parse s :: 'tag DecimalSeq option")
  case None
  then have "\<not> (canonical_decimal s \<and> digits_value s < 2 ^ 64)"
    by (metis DecimalSeq_parse_Some option.distinct(1))
  with None show ?thesis by (auto simp: canonical_decimal_def)
next
  case (Some q)
  then show ?thesis using DecimalSeq_parse_Some [of s q] by (auto simp: canonical_decimal_def)
qed

end
