(* ===== verification/Protocol.thy ===== *)
theory Protocol
  imports Chathub_Prelude
begin

text \<open>
  \<^verbatim>\<open>shared/include/chathub/contracts/protocol_descriptor.hpp\<close>: the frame types of the wire
  protocol and the read-only registry that describes each of them.

  \<^verbatim>\<open>enum class ProtocolType : std::uint8_t\<close> has a fixed underlying type, so every byte is a
  value of it (\<^verbatim>\<open>static_cast<ProtocolType>(byte)\<close> in the frame decoder). The type is
  therefore a byte; \<open>ProtocolName\<close> lists the enumerators and \<open>enum_value\<close> their codes.
\<close>

section \<open>Types\<close>

datatype (plugins only: code size) ProtocolName =
    protocol_error
  | heartbeat
  | hello_request
  | hello_response
  | register_prepare_request
  | register_prepare_response
  | register_finalize_request
  | register_finalize_response
  | login_request
  | login_response
  | session_resume_request
  | session_resume_response
  | password_reset_request
  | password_reset_response
  | logout_request
  | logout_response
  | profile_update_request
  | profile_update_response
  | user_lookup_request
  | user_lookup_response
  | friend_request_create_request
  | friend_request_create_response
  | friend_request_list_request
  | friend_request_list_response
  | friend_request_accept_request
  | friend_request_accept_response
  | friend_request_reject_request
  | friend_request_reject_response
  | friend_request_withdraw_request
  | friend_request_withdraw_response
  | friend_delete_request
  | friend_delete_response
  | contact_list_request
  | contact_list_response
  | message_send_request
  | message_send_response
  | delivery_progress_request
  | delivery_progress_response
  | conversation_list_request
  | conversation_list_response
  | conversation_history_request
  | conversation_history_response
  | conversation_read_request
  | conversation_read_response
  | conversation_clear_request
  | conversation_clear_response
  | session_terminated_push
  | profile_updated_push
  | friend_request_received_push
  | friendship_changed_push
  | friend_request_changed_push
  | conversation_event_push
  | message_received_push
  | delivery_sync_complete_push

primrec enum_value :: "ProtocolName \<Rightarrow> byte" where
    "enum_value protocol_error = 0x01"
  | "enum_value heartbeat = 0x02"
  | "enum_value hello_request = 0x04"
  | "enum_value hello_response = 0x05"
  | "enum_value register_prepare_request = 0x10"
  | "enum_value register_prepare_response = 0x11"
  | "enum_value register_finalize_request = 0x12"
  | "enum_value register_finalize_response = 0x13"
  | "enum_value login_request = 0x14"
  | "enum_value login_response = 0x15"
  | "enum_value session_resume_request = 0x16"
  | "enum_value session_resume_response = 0x17"
  | "enum_value password_reset_request = 0x18"
  | "enum_value password_reset_response = 0x19"
  | "enum_value logout_request = 0x1A"
  | "enum_value logout_response = 0x1B"
  | "enum_value profile_update_request = 0x1C"
  | "enum_value profile_update_response = 0x1D"
  | "enum_value user_lookup_request = 0x30"
  | "enum_value user_lookup_response = 0x31"
  | "enum_value friend_request_create_request = 0x32"
  | "enum_value friend_request_create_response = 0x33"
  | "enum_value friend_request_list_request = 0x34"
  | "enum_value friend_request_list_response = 0x35"
  | "enum_value friend_request_accept_request = 0x36"
  | "enum_value friend_request_accept_response = 0x37"
  | "enum_value friend_request_reject_request = 0x38"
  | "enum_value friend_request_reject_response = 0x39"
  | "enum_value friend_request_withdraw_request = 0x3A"
  | "enum_value friend_request_withdraw_response = 0x3B"
  | "enum_value friend_delete_request = 0x3C"
  | "enum_value friend_delete_response = 0x3D"
  | "enum_value contact_list_request = 0x3E"
  | "enum_value contact_list_response = 0x3F"
  | "enum_value message_send_request = 0x50"
  | "enum_value message_send_response = 0x51"
  | "enum_value delivery_progress_request = 0x52"
  | "enum_value delivery_progress_response = 0x53"
  | "enum_value conversation_list_request = 0x54"
  | "enum_value conversation_list_response = 0x55"
  | "enum_value conversation_history_request = 0x56"
  | "enum_value conversation_history_response = 0x57"
  | "enum_value conversation_read_request = 0x58"
  | "enum_value conversation_read_response = 0x59"
  | "enum_value conversation_clear_request = 0x5A"
  | "enum_value conversation_clear_response = 0x5B"
  | "enum_value session_terminated_push = 0x80"
  | "enum_value profile_updated_push = 0x81"
  | "enum_value friend_request_received_push = 0x82"
  | "enum_value friendship_changed_push = 0x83"
  | "enum_value friend_request_changed_push = 0x84"
  | "enum_value conversation_event_push = 0x85"
  | "enum_value message_received_push = 0x86"
  | "enum_value delivery_sync_complete_push = 0x87"

datatype ProtocolType = ProtocolType (type_code: byte)

definition enumerator :: "ProtocolName \<Rightarrow> ProtocolType" where
  "enumerator n = ProtocolType (enum_value n)"

datatype Direction = dir_request | dir_response | dir_push | dir_bidirectional

datatype ConnectionState = awaiting_hello | unauthenticated | authenticated

text \<open>The underlying value of a state is its ordinal.\<close>

primrec state_ordinal :: "ConnectionState \<Rightarrow> nat" where
    "state_ordinal awaiting_hello = 0"
  | "state_ordinal unauthenticated = 1"
  | "state_ordinal authenticated = 2"

text \<open>\<^verbatim>\<open>ConnectionStates\<close>: a set of states as a bit mask.\<close>

datatype ConnectionStates = ConnectionStates (states_bits: byte)

definition states_none :: ConnectionStates where
  "states_none = ConnectionStates 0"

definition states_awaiting_hello :: ConnectionStates where
  "states_awaiting_hello = ConnectionStates (push_bit 0 1)"

definition states_unauthenticated :: ConnectionStates where
  "states_unauthenticated = ConnectionStates (push_bit 1 1)"

definition states_authenticated :: ConnectionStates where
  "states_authenticated = ConnectionStates (push_bit 2 1)"

definition states_or :: "ConnectionStates \<Rightarrow> ConnectionStates \<Rightarrow> ConnectionStates" where
  "states_or a b = ConnectionStates (states_bits a OR states_bits b)"

definition states_all :: ConnectionStates where
  "states_all = ConnectionStates
     (states_bits states_awaiting_hello OR states_bits states_unauthenticated
      OR states_bits states_authenticated)"

text \<open>The mask is shifted as \<^verbatim>\<open>unsigned\<close> and then narrowed to a byte.\<close>

definition hasState :: "ConnectionStates \<Rightarrow> ConnectionState \<Rightarrow> bool" where
  "hasState states state =
     (let mask = (ucast (push_bit (state_ordinal state) (1 :: 32 word)) :: byte)
      in states_bits states AND mask \<noteq> 0)"

record ProtocolDescriptor =
  d_type :: ProtocolType
  d_name :: string
  d_direction :: Direction
  d_allowed_states :: ConnectionStates
  d_capability :: string
  d_max_body :: "32 word"
  d_default_timeout_ms :: "16 word"
  d_response :: "ProtocolType option"

definition kMaxJsonBody :: "32 word" where
  "kMaxJsonBody = 65536"

section \<open>The registry\<close>

text \<open>One row of the aggregate initialiser.\<close>

definition row :: "ProtocolName \<Rightarrow> string \<Rightarrow> Direction \<Rightarrow> ConnectionStates \<Rightarrow> string \<Rightarrow>
    32 word \<Rightarrow> 16 word \<Rightarrow> ProtocolType option \<Rightarrow> ProtocolDescriptor" where
  "row n nm dir states cap max_body timeout resp =
     \<lparr>d_type = enumerator n, d_name = nm, d_direction = dir, d_allowed_states = states,
      d_capability = cap, d_max_body = max_body, d_default_timeout_ms = timeout,
      d_response = resp\<rparr>"

definition kProtocolDescriptors :: "ProtocolDescriptor list" where
  "kProtocolDescriptors =
    [row protocol_error ''protocol_error'' dir_push
       states_all '''' kMaxJsonBody 0 None,
     row heartbeat ''heartbeat'' dir_bidirectional
       (states_or states_unauthenticated states_authenticated) '''' 0 0 None,
     row hello_request ''hello_request'' dir_request
       states_awaiting_hello '''' kMaxJsonBody 5000 (Some (enumerator hello_response)),
     row hello_response ''hello_response'' dir_response
       states_awaiting_hello '''' kMaxJsonBody 0 None,
     row register_prepare_request ''register_prepare_request'' dir_request
       states_unauthenticated '''' kMaxJsonBody 10000 (Some (enumerator register_prepare_response)),
     row register_prepare_response ''register_prepare_response'' dir_response
       states_unauthenticated '''' kMaxJsonBody 0 None,
     row register_finalize_request ''register_finalize_request'' dir_request
       states_unauthenticated '''' kMaxJsonBody 10000 (Some (enumerator register_finalize_response)),
     row register_finalize_response ''register_finalize_response'' dir_response
       states_unauthenticated '''' kMaxJsonBody 0 None,
     row login_request ''login_request'' dir_request
       states_unauthenticated '''' kMaxJsonBody 10000 (Some (enumerator login_response)),
     row login_response ''login_response'' dir_response
       states_unauthenticated '''' kMaxJsonBody 0 None,
     row session_resume_request ''session_resume_request'' dir_request
       states_unauthenticated '''' kMaxJsonBody 10000 (Some (enumerator session_resume_response)),
     row session_resume_response ''session_resume_response'' dir_response
       states_unauthenticated '''' kMaxJsonBody 0 None,
     row password_reset_request ''password_reset_request'' dir_request
       states_unauthenticated '''' kMaxJsonBody 10000 (Some (enumerator password_reset_response)),
     row password_reset_response ''password_reset_response'' dir_response
       states_unauthenticated '''' kMaxJsonBody 0 None,
     row logout_request ''logout_request'' dir_request
       states_authenticated '''' kMaxJsonBody 2000 (Some (enumerator logout_response)),
     row logout_response ''logout_response'' dir_response
       states_authenticated '''' kMaxJsonBody 0 None,
     row profile_update_request ''profile_update_request'' dir_request
       states_authenticated '''' kMaxJsonBody 5000 (Some (enumerator profile_update_response)),
     row profile_update_response ''profile_update_response'' dir_response
       states_authenticated '''' kMaxJsonBody 0 None,
     row user_lookup_request ''user_lookup_request'' dir_request
       states_authenticated '''' kMaxJsonBody 5000 (Some (enumerator user_lookup_response)),
     row user_lookup_response ''user_lookup_response'' dir_response
       states_authenticated '''' kMaxJsonBody 0 None,
     row friend_request_create_request ''friend_request_create_request'' dir_request
       states_authenticated '''' kMaxJsonBody 5000 (Some (enumerator friend_request_create_response)),
     row friend_request_create_response ''friend_request_create_response'' dir_response
       states_authenticated '''' kMaxJsonBody 0 None,
     row friend_request_list_request ''friend_request_list_request'' dir_request
       states_authenticated '''' kMaxJsonBody 10000 (Some (enumerator friend_request_list_response)),
     row friend_request_list_response ''friend_request_list_response'' dir_response
       states_authenticated '''' kMaxJsonBody 0 None,
     row friend_request_accept_request ''friend_request_accept_request'' dir_request
       states_authenticated '''' kMaxJsonBody 5000 (Some (enumerator friend_request_accept_response)),
     row friend_request_accept_response ''friend_request_accept_response'' dir_response
       states_authenticated '''' kMaxJsonBody 0 None,
     row friend_request_reject_request ''friend_request_reject_request'' dir_request
       states_authenticated '''' kMaxJsonBody 5000 (Some (enumerator friend_request_reject_response)),
     row friend_request_reject_response ''friend_request_reject_response'' dir_response
       states_authenticated '''' kMaxJsonBody 0 None,
     row friend_request_withdraw_request ''friend_request_withdraw_request'' dir_request
       states_authenticated '''' kMaxJsonBody 5000 (Some (enumerator friend_request_withdraw_response)),
     row friend_request_withdraw_response ''friend_request_withdraw_response'' dir_response
       states_authenticated '''' kMaxJsonBody 0 None,
     row friend_delete_request ''friend_delete_request'' dir_request
       states_authenticated '''' kMaxJsonBody 5000 (Some (enumerator friend_delete_response)),
     row friend_delete_response ''friend_delete_response'' dir_response
       states_authenticated '''' kMaxJsonBody 0 None,
     row contact_list_request ''contact_list_request'' dir_request
       states_authenticated '''' kMaxJsonBody 10000 (Some (enumerator contact_list_response)),
     row contact_list_response ''contact_list_response'' dir_response
       states_authenticated '''' kMaxJsonBody 0 None,
     row message_send_request ''message_send_request'' dir_request
       states_authenticated ''text_v1'' kMaxJsonBody 5000 (Some (enumerator message_send_response)),
     row message_send_response ''message_send_response'' dir_response
       states_authenticated ''text_v1'' kMaxJsonBody 0 None,
     row delivery_progress_request ''delivery_progress_request'' dir_request
       states_authenticated '''' kMaxJsonBody 5000 (Some (enumerator delivery_progress_response)),
     row delivery_progress_response ''delivery_progress_response'' dir_response
       states_authenticated '''' kMaxJsonBody 0 None,
     row conversation_list_request ''conversation_list_request'' dir_request
       states_authenticated '''' kMaxJsonBody 10000 (Some (enumerator conversation_list_response)),
     row conversation_list_response ''conversation_list_response'' dir_response
       states_authenticated '''' kMaxJsonBody 0 None,
     row conversation_history_request ''conversation_history_request'' dir_request
       states_authenticated '''' kMaxJsonBody 10000 (Some (enumerator conversation_history_response)),
     row conversation_history_response ''conversation_history_response'' dir_response
       states_authenticated '''' kMaxJsonBody 0 None,
     row conversation_read_request ''conversation_read_request'' dir_request
       states_authenticated '''' kMaxJsonBody 5000 (Some (enumerator conversation_read_response)),
     row conversation_read_response ''conversation_read_response'' dir_response
       states_authenticated '''' kMaxJsonBody 0 None,
     row conversation_clear_request ''conversation_clear_request'' dir_request
       states_authenticated '''' kMaxJsonBody 5000 (Some (enumerator conversation_clear_response)),
     row conversation_clear_response ''conversation_clear_response'' dir_response
       states_authenticated '''' kMaxJsonBody 0 None,
     row session_terminated_push ''session_terminated_push'' dir_push
       states_authenticated '''' kMaxJsonBody 0 None,
     row profile_updated_push ''profile_updated_push'' dir_push
       states_authenticated '''' kMaxJsonBody 0 None,
     row friend_request_received_push ''friend_request_received_push'' dir_push
       states_authenticated '''' kMaxJsonBody 0 None,
     row friendship_changed_push ''friendship_changed_push'' dir_push
       states_authenticated '''' kMaxJsonBody 0 None,
     row friend_request_changed_push ''friend_request_changed_push'' dir_push
       states_authenticated '''' kMaxJsonBody 0 None,
     row conversation_event_push ''conversation_event_push'' dir_push
       states_authenticated '''' kMaxJsonBody 0 None,
     row message_received_push ''message_received_push'' dir_push
       states_authenticated ''text_v1'' kMaxJsonBody 0 None,
     row delivery_sync_complete_push ''delivery_sync_complete_push'' dir_push
       states_authenticated '''' kMaxJsonBody 0 None]"

text \<open>The loop over the table returns the first descriptor of the type, or null.\<close>

definition findProtocol :: "ProtocolType \<Rightarrow> ProtocolDescriptor option" where
  "findProtocol t = find (\<lambda>d. d_type d = t) kProtocolDescriptors"

section \<open>The enumerators and the registry agree\<close>

instantiation ProtocolName :: enum
begin

definition enum_ProtocolName :: "ProtocolName list" where
  "enum_ProtocolName =
    [
      protocol_error, heartbeat, hello_request, hello_response, register_prepare_request,
      register_prepare_response, register_finalize_request, register_finalize_response,
      login_request, login_response, session_resume_request, session_resume_response,
      password_reset_request, password_reset_response, logout_request, logout_response,
      profile_update_request, profile_update_response, user_lookup_request, user_lookup_response,
      friend_request_create_request, friend_request_create_response, friend_request_list_request,
      friend_request_list_response, friend_request_accept_request,
      friend_request_accept_response, friend_request_reject_request,
      friend_request_reject_response, friend_request_withdraw_request,
      friend_request_withdraw_response, friend_delete_request, friend_delete_response,
      contact_list_request, contact_list_response, message_send_request, message_send_response,
      delivery_progress_request, delivery_progress_response, conversation_list_request,
      conversation_list_response, conversation_history_request, conversation_history_response,
      conversation_read_request, conversation_read_response, conversation_clear_request,
      conversation_clear_response, session_terminated_push, profile_updated_push,
      friend_request_received_push, friendship_changed_push, friend_request_changed_push,
      conversation_event_push, message_received_push, delivery_sync_complete_push]"

definition enum_all_ProtocolName :: "(ProtocolName \<Rightarrow> bool) \<Rightarrow> bool" where
  "enum_all_ProtocolName P \<longleftrightarrow> list_all P Enum.enum"

definition enum_ex_ProtocolName :: "(ProtocolName \<Rightarrow> bool) \<Rightarrow> bool" where
  "enum_ex_ProtocolName P \<longleftrightarrow> list_ex P Enum.enum"

instance
proof
  have all: "(n :: ProtocolName) \<in> set Enum.enum" for n
    by (cases n) (simp_all add: enum_ProtocolName_def)
  then show univ: "(UNIV :: ProtocolName set) = set Enum.enum"
    by auto
  have "distinct (map enum_value Enum.enum)"
    by (simp add: enum_ProtocolName_def)
  then show "distinct (Enum.enum :: ProtocolName list)"
    by (simp only: distinct_map)
  show "Enum.enum_all P \<longleftrightarrow> Ball UNIV P" for P :: "ProtocolName \<Rightarrow> bool"
    by (simp add: enum_all_ProtocolName_def univ list_all_iff)
  show "Enum.enum_ex P \<longleftrightarrow> Bex UNIV P" for P :: "ProtocolName \<Rightarrow> bool"
    by (simp add: enum_ex_ProtocolName_def univ list_ex_iff)
qed

end

lemma enum_value_inj: "inj enum_value"
proof -
  have "distinct (map enum_value Enum.enum)"
    by (simp add: enum_ProtocolName_def)
  then show ?thesis by (simp add: distinct_map flip: enum_UNIV)
qed

lemma enumerator_eq_iff [simp]: "enumerator m = enumerator n \<longleftrightarrow> m = n"
  using enum_value_inj by (auto simp: enumerator_def dest: injD)

lemma types_of_registry: "map d_type kProtocolDescriptors = map enumerator Enum.enum"
  by (simp add: kProtocolDescriptors_def row_def enum_ProtocolName_def)

lemma distinct_types: "distinct (map d_type kProtocolDescriptors)"
  by (simp add: types_of_registry distinct_map enum_distinct inj_on_def)

lemma find_by_key:
  assumes "distinct (map f xs)" and "x \<in> set xs"
  shows "find (\<lambda>y. f y = f x) xs = Some x"
  using assms by (induction xs) (auto simp: rev_image_eqI)

lemma findProtocol_Some:
  "findProtocol t = Some d \<longleftrightarrow> d \<in> set kProtocolDescriptors \<and> d_type d = t"
proof
  assume "findProtocol t = Some d"
  then show "d \<in> set kProtocolDescriptors \<and> d_type d = t"
    by (auto simp: findProtocol_def find_Some_iff)
next
  assume "d \<in> set kProtocolDescriptors \<and> d_type d = t"
  then show "findProtocol t = Some d"
    using find_by_key [OF distinct_types, of d] by (auto simp: findProtocol_def)
qed

lemma findProtocol_type: "findProtocol t = Some d \<Longrightarrow> d_type d = t"
  by (simp add: findProtocol_Some)

lemma findProtocol_None: "findProtocol t = None \<longleftrightarrow> t \<notin> range enumerator"
proof -
  have "findProtocol t = None \<longleftrightarrow> t \<notin> set (map d_type kProtocolDescriptors)"
    by (auto simp: findProtocol_def find_None_iff)
  then show ?thesis
    by (simp only: types_of_registry set_map enum_UNIV)
qed

lemma findProtocol_enumerator: "\<exists>d. findProtocol (enumerator n) = Some d"
  using findProtocol_None [of "enumerator n"] by (cases "findProtocol (enumerator n)") auto

section \<open>Sets of states\<close>

lemma hasState_or [simp]:
  "hasState (states_or a b) s \<longleftrightarrow> hasState a s \<or> hasState b s"
  by (simp add: hasState_def states_or_def Let_def bit.conj_disj_distrib2 or_eq_0_iff)

lemma hasState_single [simp]:
  "hasState states_awaiting_hello s \<longleftrightarrow> s = awaiting_hello"
  "hasState states_unauthenticated s \<longleftrightarrow> s = unauthenticated"
  "hasState states_authenticated s \<longleftrightarrow> s = authenticated"
  "\<not> hasState states_none s"
  "hasState states_all s"
  by (cases s; simp add: hasState_def states_awaiting_hello_def states_unauthenticated_def
    states_authenticated_def states_none_def states_all_def)+

section \<open>The rows of the registry\<close>

text \<open>
  A fact about every row is a finite conjunction; the collection \<open>registry_row\<close> evaluates it.
\<close>

lemmas registry_row = kProtocolDescriptors_def row_def kMaxJsonBody_def

text \<open>
  Requests, and only requests, have a response type and a timeout. The response of a request
  is registered with the direction \<open>response\<close>, in the same connection states and under the
  same capability.
\<close>

definition request_row_ok :: "ProtocolDescriptor \<Rightarrow> bool" where
  "request_row_ok d \<longleftrightarrow>
     (case d_response d of
        None \<Rightarrow> d_direction d \<noteq> dir_request \<and> d_default_timeout_ms d = 0
      | Some r \<Rightarrow> d_direction d = dir_request \<and> 0 < d_default_timeout_ms d \<and>
          (case findProtocol r of
             None \<Rightarrow> False
           | Some d' \<Rightarrow> d_direction d' = dir_response \<and>
               d_allowed_states d' = d_allowed_states d \<and>
               d_capability d' = d_capability d))"

lemma registry_rows_ok: "list_all request_row_ok kProtocolDescriptors"
  by code_simp

lemma registry_bodies:
  "list_all (\<lambda>d. d_max_body d = (if d_type d = enumerator heartbeat then 0 else kMaxJsonBody))
     kProtocolDescriptors"
  by code_simp

lemma registry_names_distinct: "distinct (map d_name kProtocolDescriptors)"
  by code_simp

lemma registry_responses:
  "distinct (List.map_filter d_response kProtocolDescriptors) \<and>
   set (List.map_filter d_response kProtocolDescriptors) =
     set (map d_type (filter (\<lambda>d. d_direction d = dir_response) kProtocolDescriptors))"
  by code_simp

text \<open>The types a connection in a state may carry, in the order of the registry.\<close>

definition allowed_types :: "ConnectionState \<Rightarrow> ProtocolType list" where
  "allowed_types s =
     map d_type (filter (\<lambda>d. hasState (d_allowed_states d) s) kProtocolDescriptors)"

lemma allowed_types_iff:
  "t \<in> set (allowed_types s) \<longleftrightarrow>
     (\<exists>d. findProtocol t = Some d \<and> hasState (d_allowed_states d) s)"
  by (auto simp: allowed_types_def findProtocol_Some)

lemma allowed_awaiting_hello:
  "allowed_types awaiting_hello = map enumerator [protocol_error, hello_request, hello_response]"
  by code_simp

lemma allowed_unauthenticated:
  "allowed_types unauthenticated = map enumerator
     [protocol_error, heartbeat, register_prepare_request, register_prepare_response,
      register_finalize_request, register_finalize_response, login_request, login_response,
      session_resume_request, session_resume_response, password_reset_request,
      password_reset_response]"
  by code_simp

lemma allowed_authenticated:
  "allowed_types authenticated = map enumerator (filter (\<lambda>n. n \<notin> set
     [hello_request, hello_response, register_prepare_request, register_prepare_response,
      register_finalize_request, register_finalize_response, login_request, login_response,
      session_resume_request, session_resume_response, password_reset_request,
      password_reset_response]) Enum.enum)"
  by code_simp

lemma request_rowD:
  assumes "findProtocol t = Some d"
  shows "d_direction d = dir_request \<longleftrightarrow> d_response d \<noteq> None"
    and "0 < d_default_timeout_ms d \<longleftrightarrow> d_direction d = dir_request"
    and "d_response d = Some r \<Longrightarrow> \<exists>d'. findProtocol r = Some d' \<and>
      d_direction d' = dir_response \<and> d_allowed_states d' = d_allowed_states d \<and>
      d_capability d' = d_capability d"
proof -
  have "request_row_ok d"
    using assms registry_rows_ok by (simp add: findProtocol_Some list_all_iff)
  then show "d_direction d = dir_request \<longleftrightarrow> d_response d \<noteq> None"
    and "0 < d_default_timeout_ms d \<longleftrightarrow> d_direction d = dir_request"
    and "d_response d = Some r \<Longrightarrow> \<exists>d'. findProtocol r = Some d' \<and>
      d_direction d' = dir_response \<and> d_allowed_states d' = d_allowed_states d \<and>
      d_capability d' = d_capability d"
    by (auto simp: request_row_ok_def split: option.splits)
qed

lemma findProtocol_max_body:
  "findProtocol t = Some d \<Longrightarrow>
     d_max_body d = (if t = enumerator heartbeat then 0 else kMaxJsonBody)"
  using registry_bodies by (auto simp: findProtocol_Some list_all_iff)

lemma max_body_le: "findProtocol t = Some d \<Longrightarrow> unat (d_max_body d) \<le> 65536"
  by (simp add: findProtocol_max_body kMaxJsonBody_def)

lemma map_filter_distinct_key:
  assumes "distinct (List.map_filter f xs)" and "x \<in> set xs" and "y \<in> set xs"
    and "f x = Some k" and "f y = Some k"
  shows "x = y"
  using assms
proof (induction xs)
  case Nil
  then show ?case by simp
next
  case (Cons z zs)
  have "k \<in> set (List.map_filter f zs)" if "u \<in> set zs" "f u = Some k" for u
    using that by (force simp: map_filter_def)
  with Cons show ?case by (auto simp: map_filter_simps split: option.splits)
qed

lemma response_owner_unique:
  assumes "findProtocol s = Some d" and "findProtocol t = Some e"
    and "d_response d = Some r" and "d_response e = Some r"
  shows "s = t"
  using map_filter_distinct_key [OF registry_responses [THEN conjunct1], of d e r] assms
  by (auto simp: findProtocol_Some)

section \<open>Properties\<close>

text \<open>
  C21 (the registry and the enumeration agree). A lookup returns the one descriptor registered
  for the type, and it fails exactly for the bytes that are no enumerator's code: no reserved
  byte is ever taken for a known type, and no enumerator is missing from the table.
\<close>

theorem findProtocol_exact:
  "(findProtocol t = Some d \<longleftrightarrow> d \<in> set kProtocolDescriptors \<and> d_type d = t) \<and>
   (findProtocol t = None \<longleftrightarrow> (\<forall>n. enum_value n \<noteq> type_code t))"
  by (cases t) (auto simp: findProtocol_Some findProtocol_None enumerator_def)

text \<open>
  C22 (requests and responses pair up). A registered type is a request exactly when it names a
  response type and exactly when it has a timeout; the response it names is registered as a
  response, with the same connection states and capability; and no other request names it.
\<close>

theorem request_response_pairing:
  assumes "findProtocol t = Some d"
  shows "(d_direction d = dir_request \<longleftrightarrow> d_response d \<noteq> None) \<and>
    (d_direction d = dir_request \<longleftrightarrow> 0 < d_default_timeout_ms d) \<and>
    (\<forall>r. d_response d = Some r \<longrightarrow>
      (\<exists>d'. findProtocol r = Some d' \<and> d_direction d' = dir_response \<and>
        d_allowed_states d' = d_allowed_states d \<and> d_capability d' = d_capability d) \<and>
      (\<forall>u e. findProtocol u = Some e \<and> d_response e = Some r \<longrightarrow> u = t))"
  using request_rowD [OF assms] response_owner_unique assms by blast

theorem request_response_pairing_witness:
  "\<exists>d. findProtocol (enumerator login_request) = Some d \<and> d_direction d = dir_request \<and>
     d_response d = Some (enumerator login_response) \<and>
     (d_direction d = dir_request \<longleftrightarrow> 0 < d_default_timeout_ms d)"
proof -
  have row: "findProtocol (enumerator login_request) =
      Some (row login_request ''login_request'' dir_request states_unauthenticated ''''
        kMaxJsonBody 10000 (Some (enumerator login_response)))"
    by code_simp
  show ?thesis
    using request_response_pairing [OF row] row by (simp add: row_def)
qed

text \<open>
  C23 (the state gate of the registry). While a connection awaits the hello exchange only the
  two hello frames and an error report are allowed; before authentication only the error
  report, the heartbeat and the account and session frames; no hello and no account frame is
  allowed after authentication, and every other registered type is.
\<close>

theorem registry_state_gate:
  "allowed_types awaiting_hello = map enumerator [protocol_error, hello_request, hello_response] \<and>
   allowed_types unauthenticated = map enumerator
     [protocol_error, heartbeat, register_prepare_request, register_prepare_response,
      register_finalize_request, register_finalize_response, login_request, login_response,
      session_resume_request, session_resume_response, password_reset_request,
      password_reset_response] \<and>
   set (allowed_types authenticated) = range enumerator - enumerator ` set
     [hello_request, hello_response, register_prepare_request, register_prepare_response,
      register_finalize_request, register_finalize_response, login_request, login_response,
      session_resume_request, session_resume_response, password_reset_request,
      password_reset_response]"
  by (simp only: allowed_awaiting_hello allowed_unauthenticated allowed_authenticated)
    (auto simp: enum_UNIV)

end
