(* ===== verification/Utf8.thy ===== *)
theory Utf8
  imports Chathub_Prelude
begin

text \<open>
  \<^verbatim>\<open>isValidUtf8\<close> of \<^verbatim>\<open>shared/include/chathub/contracts/frame.hpp\<close>, and the encoding form
  it is meant to recognise: the concatenated UTF-8 encodings of Unicode scalar values
  (no surrogates, no overlong forms, nothing above U+10FFFF).
\<close>

section \<open>The validator\<close>

text \<open>The length of the sequence a lead byte announces; no length: the code returns false.\<close>

definition utf8_length :: "byte \<Rightarrow> nat option" where
  "utf8_length c =
     (if c \<ge> 0xC2 \<and> c \<le> 0xDF then Some 2
      else if c \<ge> 0xE0 \<and> c \<le> 0xEF then Some 3
      else if c \<ge> 0xF0 \<and> c \<le> 0xF4 then Some 4
      else None)"

text \<open>
  The loop over the index \<open>i\<close>. The bound \<open>i + length > size\<close> is tested before any byte
  after the lead byte is read, so every \<open>!\<close> below is within the list.
\<close>

function utf8_loop :: "bytes \<Rightarrow> nat \<Rightarrow> bool" where
  "utf8_loop data i =
     (if i < length data then
        (let c = data ! i in
         if c \<le> 0x7F then utf8_loop data (i + 1)
         else case utf8_length c of
             None \<Rightarrow> False
           | Some len \<Rightarrow>
               if i + len > length data then False
               else if \<not> list_all (\<lambda>j. data ! (i + j) AND 0xC0 = 0x80) [1..<len] then False
               else
                 (let second = data ! (i + 1) in
                  if c = 0xE0 \<and> second < 0xA0 then False
                  else if c = 0xED \<and> second > 0x9F then False
                  else if c = 0xF0 \<and> second < 0x90 then False
                  else if c = 0xF4 \<and> second > 0x8F then False
                  else utf8_loop data (i + len)))
      else True)"
  by pat_completeness auto
termination
  by (relation "measure (\<lambda>(data, i). length data - i)")
    (auto simp: utf8_length_def split: if_splits)

declare utf8_loop.simps [simp del]

definition isValidUtf8 :: "string \<Rightarrow> bool" where
  "isValidUtf8 text = utf8_loop (bytes_of_string text) 0"

section \<open>The encoding form\<close>

definition scalar_value :: "nat \<Rightarrow> bool" where
  "scalar_value cp \<longleftrightarrow> cp < 0xD800 \<or> (0xE000 \<le> cp \<and> cp < 0x110000)"

definition utf8_code :: "nat \<Rightarrow> nat list" where
  "utf8_code cp =
     (if cp < 0x80 then [cp]
      else if cp < 0x800 then [0xC0 + cp div 64, 0x80 + cp mod 64]
      else if cp < 0x10000 then
        [0xE0 + cp div 4096, 0x80 + cp div 64 mod 64, 0x80 + cp mod 64]
      else
        [0xF0 + cp div 262144, 0x80 + cp div 4096 mod 64, 0x80 + cp div 64 mod 64,
         0x80 + cp mod 64])"

definition utf8_text :: "nat list \<Rightarrow> bytes \<Rightarrow> bool" where
  "utf8_text cps bs \<longleftrightarrow>
     list_all scalar_value cps \<and> map unat bs = concat (map utf8_code cps)"

section \<open>The validator as a scan of the remaining bytes\<close>

text \<open>The code units of one multi-byte sequence, as numbers.\<close>

definition cont_unit :: "nat \<Rightarrow> bool" where
  "cont_unit d \<longleftrightarrow> 0x80 \<le> d \<and> d < 0xC0"

fun units_ok :: "nat list \<Rightarrow> bool" where
  "units_ok [c] \<longleftrightarrow> c < 0x80"
| "units_ok [c, d] \<longleftrightarrow> 0xC2 \<le> c \<and> c \<le> 0xDF \<and> cont_unit d"
| "units_ok [c, d, e] \<longleftrightarrow> 0xE0 \<le> c \<and> c \<le> 0xEF \<and> cont_unit d \<and> cont_unit e \<and>
     (c = 0xE0 \<longrightarrow> 0xA0 \<le> d) \<and> (c = 0xED \<longrightarrow> d \<le> 0x9F)"
| "units_ok [c, d, e, f] \<longleftrightarrow> 0xF0 \<le> c \<and> c \<le> 0xF4 \<and>
     cont_unit d \<and> cont_unit e \<and> cont_unit f \<and>
     (c = 0xF0 \<longrightarrow> 0x90 \<le> d) \<and> (c = 0xF4 \<longrightarrow> d \<le> 0x8F)"
| "units_ok _ \<longleftrightarrow> False"

lemma cont_unit_mask: "b AND 0xC0 = 0x80 \<longleftrightarrow> cont_unit (unat b)" for b :: byte
proof -
  have "\<forall>b :: byte. b AND 0xC0 = 0x80 \<longleftrightarrow> cont_unit (unat b)"
    unfolding all_bytes by code_simp
  then show ?thesis ..
qed

text \<open>A sequence of code units is accepted exactly when it encodes a scalar value.\<close>

lemma split_64:
  fixes a b :: nat
  assumes "b < 64"
  shows "(a * 64 + b) div 64 = a" and "(a * 64 + b) mod 64 = b"
  using assms by simp_all

lemma div_4096: "n div 4096 = n div 64 div 64" for n :: nat
  by (simp add: div_mult2_eq [symmetric])

lemma div_262144: "n div 262144 = n div 64 div 64 div 64" for n :: nat
  by (simp add: div_mult2_eq [symmetric])

text \<open>The digits of a code point to the base 64, as the encoding form distributes them.\<close>

lemma utf8_code_two:
  assumes "2 \<le> x" "x < 32" "y < 64"
  shows "utf8_code (x * 64 + y) = [0xC0 + x, 0x80 + y]"
  using assms by (simp add: utf8_code_def)

lemma utf8_code_three:
  assumes "x < 16" "y < 64" "z < 64" "x = 0 \<Longrightarrow> 32 \<le> y"
  shows "utf8_code ((x * 64 + y) * 64 + z) = [0xE0 + x, 0x80 + y, 0x80 + z]"
proof -
  have "2048 \<le> (x * 64 + y) * 64 + z" "(x * 64 + y) * 64 + z < 65536"
    using assms by (cases x; simp)+
  then show ?thesis
    using assms by (simp add: utf8_code_def div_4096 split_64 del: distrib_right_numeral)
qed

lemma utf8_code_four:
  assumes "x < 5" "y < 64" "z < 64" "w < 64" "x = 0 \<Longrightarrow> 16 \<le> y"
  shows "utf8_code (((x * 64 + y) * 64 + z) * 64 + w) =
    [0xF0 + x, 0x80 + y, 0x80 + z, 0x80 + w]"
proof -
  have "65536 \<le> ((x * 64 + y) * 64 + z) * 64 + w"
    using assms by (cases x; simp)
  then show ?thesis
    using assms
    by (simp add: utf8_code_def div_4096 div_262144 split_64 del: distrib_right_numeral)
qed

lemma digits_64: "\<exists>a b. n = a * 64 + b \<and> b < 64" for n :: nat
  by (intro exI [of _ "n div 64"] exI [of _ "n mod 64"]) simp

lemma utf8_code_ok:
  assumes "scalar_value cp"
  shows "units_ok (utf8_code cp)"
proof -
  consider "cp < 0x80" | "0x80 \<le> cp" "cp < 0x800" | "0x800 \<le> cp" "cp < 0x10000"
    | "0x10000 \<le> cp" by linarith
  then show ?thesis
  proof cases
    case 1
    then show ?thesis by (simp add: utf8_code_def)
  next
    case 2
    obtain x y where cp: "cp = x * 64 + y" "y < 64" using digits_64 by blast
    with 2 have "2 \<le> x" "x < 32" by linarith+
    with cp show ?thesis by (simp add: utf8_code_two cont_unit_def)
  next
    case 3
    obtain q z where q: "cp = q * 64 + z" "z < 64" using digits_64 by blast
    obtain x y where x: "q = x * 64 + y" "y < 64" using digits_64 by blast
    have "x < 16" "x = 0 \<Longrightarrow> 32 \<le> y" "x = 13 \<Longrightarrow> y < 32"
      using 3 q x assms unfolding scalar_value_def by linarith+
    with q x show ?thesis
      by (auto simp: utf8_code_three cont_unit_def simp del: distrib_right_numeral)
  next
    case 4
    obtain p w where p: "cp = p * 64 + w" "w < 64" using digits_64 by blast
    obtain q z where q: "p = q * 64 + z" "z < 64" using digits_64 by blast
    obtain x y where x: "q = x * 64 + y" "y < 64" using digits_64 by blast
    have "x < 5" "x = 0 \<Longrightarrow> 16 \<le> y" "x = 4 \<Longrightarrow> y < 16"
      using 4 p q x assms unfolding scalar_value_def by linarith+
    with p q x show ?thesis
      by (auto simp: utf8_code_four cont_unit_def simp del: distrib_right_numeral)
  qed
qed

lemma units_ok_two:
  assumes "units_ok [c, d]"
  shows "\<exists>cp. scalar_value cp \<and> [c, d] = utf8_code cp"
proof -
  from assms obtain x y where "c = 0xC0 + x" "d = 0x80 + y" "2 \<le> x" "x < 32" "y < 64"
    by (auto simp: cont_unit_def dest!: le_Suc_ex)
  then show ?thesis
    by (intro exI [of _ "x * 64 + y"]) (simp add: scalar_value_def utf8_code_two)
qed

lemma units_ok_three:
  assumes "units_ok [c, d, e]"
  shows "\<exists>cp. scalar_value cp \<and> [c, d, e] = utf8_code cp"
proof -
  from assms obtain x y z where eq: "c = 0xE0 + x" "d = 0x80 + y" "e = 0x80 + z"
    and r: "x < 16" "y < 64" "z < 64" "x = 0 \<Longrightarrow> 32 \<le> y" "x = 13 \<Longrightarrow> y < 32"
    by (auto simp: cont_unit_def dest!: le_Suc_ex)
  have "x * 64 + y < 864 \<or> 896 \<le> x * 64 + y" "x * 64 + y < 1024"
    using r by (cases "x < 13"; cases "x = 13"; simp)+
  then have "scalar_value ((x * 64 + y) * 64 + z)"
    unfolding scalar_value_def using r(3) by auto
  with r show ?thesis
    by (intro exI [of _ "(x * 64 + y) * 64 + z"])
      (simp add: utf8_code_three eq del: distrib_right_numeral)
qed

lemma units_ok_four:
  assumes "units_ok [c, d, e, f]"
  shows "\<exists>cp. scalar_value cp \<and> [c, d, e, f] = utf8_code cp"
proof -
  from assms obtain x y z w where eq: "c = 0xF0 + x" "d = 0x80 + y" "e = 0x80 + z" "f = 0x80 + w"
    and r: "x < 5" "y < 64" "z < 64" "w < 64" "x = 0 \<Longrightarrow> 16 \<le> y" "x = 4 \<Longrightarrow> y < 16"
    by (auto simp: cont_unit_def dest!: le_Suc_ex)
  have "scalar_value (((x * 64 + y) * 64 + z) * 64 + w)"
  proof -
    have "16 \<le> x * 64 + y" "x * 64 + y < 272"
      using r by (cases "x = 0"; cases "x = 4"; simp)+
    then show ?thesis
      unfolding scalar_value_def using r(3,4) by auto
  qed
  with r show ?thesis
    by (intro exI [of _ "((x * 64 + y) * 64 + z) * 64 + w"])
      (simp add: utf8_code_four eq del: distrib_right_numeral)
qed

lemma units_ok_iff: "units_ok us \<longleftrightarrow> (\<exists>cp. scalar_value cp \<and> us = utf8_code cp)"
proof
  assume ok: "units_ok us"
  then show "\<exists>cp. scalar_value cp \<and> us = utf8_code cp"
  proof (cases us rule: units_ok.cases)
    case (1 c)
    with ok show ?thesis by (auto simp: scalar_value_def utf8_code_def intro!: exI [of _ c])
  qed (use ok units_ok_two units_ok_three units_ok_four in auto)
qed (auto simp: utf8_code_ok)

text \<open>One round of the loop consumes one sequence of accepted code units.\<close>

definition lead_length :: "byte \<Rightarrow> nat option" where
  "lead_length c = (if c \<le> 0x7F then Some 1 else utf8_length c)"

lemma lead_length_cases:
  "lead_length c = Some n \<Longrightarrow> n = 1 \<or> n = 2 \<or> n = 3 \<or> n = 4"
  by (auto simp: lead_length_def utf8_length_def split: if_splits)

lemma slice_units:
  "i + 1 \<le> length data \<Longrightarrow> take 1 (drop i data) = [data ! i]"
  "i + 2 \<le> length data \<Longrightarrow> take 2 (drop i data) = [data ! i, data ! (i + 1)]"
  "i + 3 \<le> length data \<Longrightarrow> take 3 (drop i data) = [data ! i, data ! (i + 1), data ! (i + 2)]"
  "i + 4 \<le> length data \<Longrightarrow>
     take 4 (drop i data) = [data ! i, data ! (i + 1), data ! (i + 2), data ! (i + 3)]"
  by (auto intro!: nth_equalityI simp: less_Suc_eq numeral_eq_Suc)

lemma unit_offsets:
  "[Suc 0..<2] = [1]" "[Suc 0..<3] = [1, 2]" "[Suc 0..<4] = [1, 2, 3]"
  by code_simp+

lemma lead_eqs:
  "c = 0xE0 \<longleftrightarrow> unat c = 0xE0" "c = 0xED \<longleftrightarrow> unat c = 0xED"
  "c = 0xF0 \<longleftrightarrow> unat c = 0xF0" "c = 0xF4 \<longleftrightarrow> unat c = 0xF4"
  for c :: byte
  by (simp_all add: word_unat_eq_iff)

lemma utf8_loop_step:
  assumes "i < length data"
  shows "utf8_loop data i \<longleftrightarrow> (case lead_length (data ! i) of
      None \<Rightarrow> False
    | Some n \<Rightarrow> i + n \<le> length data \<and> units_ok (map unat (take n (drop i data))) \<and>
        utf8_loop data (i + n))"
proof (cases "lead_length (data ! i)")
  case None
  then show ?thesis
    using assms by (auto simp: utf8_loop.simps [of data i] lead_length_def Let_def split: if_splits)
next
  case (Some n)
  show ?thesis
  proof (cases "i + n \<le> length data")
    case False
    with Some assms show ?thesis
      by (auto simp: utf8_loop.simps [of data i] lead_length_def Let_def split: if_splits)
  next
    case True
    from Some consider "n = 1" "data ! i \<le> 0x7F" | "n = 2" "\<not> data ! i \<le> 0x7F" "utf8_length (data ! i) = Some 2"
      | "n = 3" "\<not> data ! i \<le> 0x7F" "utf8_length (data ! i) = Some 3"
      | "n = 4" "\<not> data ! i \<le> 0x7F" "utf8_length (data ! i) = Some 4"
      by (auto simp: lead_length_def utf8_length_def split: if_splits)
    then show ?thesis
    proof cases
      case 1
      then show ?thesis
        using assms True Some slice_units(1) [of i data]
        by (simp add: utf8_loop.simps [of data i] word_le_nat_alt)
    next
      case 2
      then have "0xC2 \<le> unat (data ! i) \<and> unat (data ! i) \<le> 0xDF"
        by (auto simp: utf8_length_def word_le_nat_alt split: if_splits)
      with 2 show ?thesis
        using assms True Some slice_units(2) [of i data]
        by (auto simp: utf8_loop.simps [of data i] Let_def cont_unit_mask unit_offsets lead_eqs)
    next
      case 3
      then have "0xE0 \<le> unat (data ! i) \<and> unat (data ! i) \<le> 0xEF"
        by (auto simp: utf8_length_def word_le_nat_alt split: if_splits)
      with 3 show ?thesis
        using assms True Some slice_units(3) [of i data]
        by (auto simp: utf8_loop.simps [of data i] Let_def cont_unit_mask unit_offsets
          lead_eqs word_less_nat_alt)
    next
      case 4
      then have "0xF0 \<le> unat (data ! i) \<and> unat (data ! i) \<le> 0xF4"
        by (auto simp: utf8_length_def word_le_nat_alt split: if_splits)
      with 4 show ?thesis
        using assms True Some slice_units(4) [of i data]
        by (auto simp: utf8_loop.simps [of data i] Let_def cont_unit_mask unit_offsets
          lead_eqs word_less_nat_alt)
    qed
  qed
qed

lemma utf8_loop_end: "length data \<le> i \<Longrightarrow> utf8_loop data i"
  by (simp add: utf8_loop.simps)

section \<open>The validator decides the encoding form\<close>

lemma lead_length_of_code:
  assumes "map unat u = utf8_code cp" and "scalar_value cp"
  shows "u \<noteq> [] \<and> lead_length (hd u) = Some (length u)"
proof -
  have ok: "units_ok (map unat u)"
    using assms by (simp add: utf8_code_ok)
  then show ?thesis
    by (cases "map unat u" rule: units_ok.cases)
      (auto simp: lead_length_def utf8_length_def word_le_nat_alt)
qed

lemma utf8_loop_code:
  assumes "map unat u = utf8_code cp" and "scalar_value cp" and "drop i data = u @ rest"
  shows "utf8_loop data i \<longleftrightarrow> utf8_loop data (i + length u)"
proof -
  have u: "u \<noteq> []" "lead_length (hd u) = Some (length u)"
    using lead_length_of_code [OF assms(1,2)] by simp_all
  have len: "i + length u \<le> length data" "i < length data"
    using arg_cong [OF assms(3), of length] u(1) by (cases u; simp)+
  have "data ! i = hd u"
    using assms(3) u(1) len(2) by (metis hd_append2 hd_drop_conv_nth)
  moreover have "units_ok (map unat (take (length u) (drop i data)))"
    using assms by (simp add: utf8_code_ok)
  ultimately show ?thesis
    using utf8_loop_step [OF len(2)] u(2) len(1) by simp
qed

lemma utf8_loop_complete:
  assumes "list_all scalar_value cps" and "map unat (drop i data) = concat (map utf8_code cps)"
  shows "utf8_loop data i"
  using assms
proof (induction cps arbitrary: i)
  case Nil
  then show ?case by (simp add: utf8_loop_end)
next
  case (Cons cp cps)
  define n where "n = length (utf8_code cp)"
  have split: "map unat (take n (drop i data)) = utf8_code cp"
    "map unat (drop n (drop i data)) = concat (map utf8_code cps)"
    using Cons.prems(2) by (simp_all add: n_def del: drop_drop flip: take_map drop_map)
  moreover have "length (take n (drop i data)) = n"
    using arg_cong [OF split(1), of length] by (simp add: n_def)
  ultimately have "utf8_loop data (i + n)"
    using Cons.IH [of "i + n"] Cons.prems(1) by (simp add: add.commute)
  with utf8_loop_code [OF split(1) _ append_take_drop_id [symmetric]] show ?case
    using Cons.prems(1) \<open>length (take n (drop i data)) = n\<close> by simp
qed

lemma utf8_loop_sound:
  "utf8_loop data i \<Longrightarrow>
     \<exists>cps. list_all scalar_value cps \<and> map unat (drop i data) = concat (map utf8_code cps)"
proof (induction "length data - i" arbitrary: i rule: less_induct)
  case less
  show ?case
  proof (cases "i < length data")
    case False
    then show ?thesis by (intro exI [of _ "[]"]) simp
  next
    case True
    with less.prems obtain n where n: "lead_length (data ! i) = Some n" "i + n \<le> length data"
      "units_ok (map unat (take n (drop i data)))" "utf8_loop data (i + n)"
      by (auto simp: utf8_loop_step split: option.splits)
    then obtain cp where cp: "scalar_value cp" "map unat (take n (drop i data)) = utf8_code cp"
      by (auto simp: units_ok_iff)
    have "0 < n" using lead_length_cases [OF n(1)] by auto
    with n(2) have "length data - (i + n) < length data - i" by linarith
    from less.hyps [OF this n(4)] obtain cps where cps: "list_all scalar_value cps"
      "map unat (drop (i + n) data) = concat (map utf8_code cps)"
      by blast
    have "map unat (drop i data) = map unat (take n (drop i data) @ drop n (drop i data))"
      by (simp only: append_take_drop_id)
    also have "\<dots> = utf8_code cp @ concat (map utf8_code cps)"
      using cp cps by (simp add: add.commute)
    finally show ?thesis
      using cp(1) cps(1) by (intro exI [of _ "cp # cps"]) simp
  qed
qed

lemma isValidUtf8_Nil [simp]: "isValidUtf8 []"
  by (simp add: isValidUtf8_def bytes_of_string_def utf8_loop_end)

definition ascii :: "string \<Rightarrow> bool" where
  "ascii s \<longleftrightarrow> list_all (\<lambda>c. (of_char c :: nat) < 0x80) s"

lemma isValidUtf8_ascii [intro]: "ascii s \<Longrightarrow> isValidUtf8 s"
proof -
  assume a: "ascii s"
  let ?cps = "map of_char s :: nat list"
  have "list_all scalar_value ?cps"
    using a by (auto simp: ascii_def scalar_value_def list_all_iff)
  moreover have "concat (map utf8_code ?cps) = ?cps"
    using a by (induction s) (simp_all add: ascii_def utf8_code_def)
  moreover have "map unat (bytes_of_string s) = ?cps"
    by (simp add: bytes_of_string_def)
  ultimately show ?thesis
    unfolding isValidUtf8_def by (intro utf8_loop_complete [of ?cps]) simp_all
qed

text \<open>
  C4 (the UTF-8 validator decides the encoding form). \<^const>\<open>isValidUtf8\<close> accepts a string
  exactly when its bytes are the concatenated UTF-8 encodings of a sequence of Unicode
  scalar values: surrogates, overlong encodings, code points above U+10FFFF, stray
  continuation bytes and truncated sequences are all rejected, and nothing else is.
\<close>

theorem isValidUtf8_correct:
  "isValidUtf8 s \<longleftrightarrow> (\<exists>cps. utf8_text cps (bytes_of_string s))"
  unfolding isValidUtf8_def utf8_text_def
  using utf8_loop_sound [of "bytes_of_string s" 0] utf8_loop_complete [of _ 0 "bytes_of_string s"]
  by auto

end
