(* ===== verification/Frames.thy ===== *)
theory Frames
  imports Protocol Utf8
begin

text \<open>
  \<^verbatim>\<open>shared/include/chathub/contracts/frame.hpp\<close>: the 8-byte frame header, the frame encoder
  and the streaming decoder.

  \<^item> \<open>FrameDecoder\<close> has the fields of the class; its private helpers and its three public
    operations are one definition each. \<^verbatim>\<open>std::size_t\<close> values are \<^typ>\<open>nat\<close>: all of them are
    sizes of buffers that exist.
  \<^item> \<open>decode_stream\<close> is the specification: what a byte stream says, without state, buffers
    or chunks.
  \<^item> The refinement: after any sequence of feeds and pops the decoder holds exactly what the
    specification says of the concatenated input.
\<close>

section \<open>Constants and the encoder\<close>

definition kFrameMagicHigh :: byte where "kFrameMagicHigh = 0x43"
definition kFrameMagicLow :: byte where "kFrameMagicLow = 0x48"
definition kProtocolVersion :: byte where "kProtocolVersion = 1"
definition kFrameHeaderSize :: nat where "kFrameHeaderSize = 8"

record Frame =
  frame_kind :: ProtocolType
  frame_body :: string

text \<open>
  \<^verbatim>\<open>body.size()\<close> is a 64-bit \<^verbatim>\<open>size_t\<close>; the comparison with the 32-bit \<^verbatim>\<open>max_body\<close> is done
  on the wider type. The four length bytes are the low 32 bits of the size.
\<close>

definition length_byte :: "nat \<Rightarrow> nat \<Rightarrow> byte" where
  "length_byte shift n = ucast (drop_bit shift (of_nat n :: 64 word) AND 0xFF)"

definition encodeFrame :: "ProtocolType \<Rightarrow> string \<Rightarrow> bytes option" where
  "encodeFrame type body =
     (case findProtocol type of
        None \<Rightarrow> None
      | Some d \<Rightarrow>
          if unat (d_max_body d) < length body \<or> \<not> isValidUtf8 body then None
          else Some ([kFrameMagicHigh, kFrameMagicLow, kProtocolVersion, type_code type,
                 length_byte 24 (length body), length_byte 16 (length body),
                 length_byte 8 (length body), length_byte 0 (length body)] @
               bytes_of_string body))"

section \<open>The decoder\<close>

datatype FrameErrorKind =
  decoder_failed | bad_magic | bad_version | unknown_type | body_too_large | invalid_utf8

record FrameDecoder =
  input_buffer :: bytes
  consumed_prefix_size :: nat
  body_length :: nat
  frame_type :: ProtocolType
  has_pending_header :: bool
  failed :: bool
  decoder_error :: FrameErrorKind
  decoded_frames :: "Frame list"

definition FrameDecoder_init :: FrameDecoder where
  "FrameDecoder_init =
     \<lparr>input_buffer = [], consumed_prefix_size = 0, body_length = 0,
      frame_type = enumerator protocol_error, has_pending_header = False, failed = False,
      decoder_error = decoder_failed, decoded_frames = []\<rparr>"

definition hasFailed :: "FrameDecoder \<Rightarrow> bool" where
  "hasFailed d = failed d"

definition setFailure :: "FrameErrorKind \<Rightarrow> FrameDecoder \<Rightarrow> FrameDecoder" where
  "setFailure kind d = d\<lparr>failed := True, decoder_error := kind\<rparr>"

text \<open>The body length, assembled from four bytes widened to 32 bits before the shift.\<close>

definition header_length :: "byte \<Rightarrow> byte \<Rightarrow> byte \<Rightarrow> byte \<Rightarrow> 32 word" where
  "header_length b4 b5 b6 b7 =
     push_bit 24 (ucast b4) OR push_bit 16 (ucast b5) OR push_bit 8 (ucast b6) OR ucast b7"

definition parseAndValidateHeader :: "nat \<Rightarrow> FrameDecoder \<Rightarrow> bool \<times> FrameDecoder" where
  "parseAndValidateHeader offset d =
     (let buf = input_buffer d in
      if buf ! offset \<noteq> kFrameMagicHigh \<or> buf ! (offset + 1) \<noteq> kFrameMagicLow
      then (False, setFailure bad_magic d)
      else if buf ! (offset + 2) \<noteq> kProtocolVersion then (False, setFailure bad_version d)
      else case findProtocol (ProtocolType (buf ! (offset + 3))) of
          None \<Rightarrow> (False, setFailure unknown_type d)
        | Some descriptor \<Rightarrow>
            let len = header_length (buf ! (offset + 4)) (buf ! (offset + 5))
                        (buf ! (offset + 6)) (buf ! (offset + 7))
            in if d_max_body descriptor < len then (False, setFailure body_too_large d)
               else (True, d\<lparr>frame_type := d_type descriptor, body_length := unat len\<rparr>))"

text \<open>
  One round of the loop: first the header, if none is pending, then the body. The result says
  whether the loop goes on.
\<close>

definition decode_header_phase :: "FrameDecoder \<Rightarrow> bool \<times> FrameDecoder" where
  "decode_header_phase d =
     (if \<not> has_pending_header d then
        if length (input_buffer d) - consumed_prefix_size d < kFrameHeaderSize then (False, d)
        else case parseAndValidateHeader (consumed_prefix_size d) d of
            (False, d') \<Rightarrow> (False, d')
          | (True, d') \<Rightarrow> (True, d'\<lparr>has_pending_header := True\<rparr>)
      else (True, d))"

definition decode_body_phase :: "FrameDecoder \<Rightarrow> bool \<times> FrameDecoder" where
  "decode_body_phase d =
     (if length (input_buffer d) - consumed_prefix_size d < kFrameHeaderSize + body_length d
      then (False, d)
      else
        let body = string_of_bytes (take (body_length d)
              (drop (consumed_prefix_size d + kFrameHeaderSize) (input_buffer d)));
            d1 = d\<lparr>has_pending_header := False\<rparr>
        in if \<not> isValidUtf8 body then (False, setFailure invalid_utf8 d1)
           else (True, d1\<lparr>decoded_frames := decoded_frames d1 @
                     [\<lparr>frame_kind = frame_type d1, frame_body = body\<rparr>],
                   consumed_prefix_size :=
                     consumed_prefix_size d1 + (kFrameHeaderSize + body_length d1)\<rparr>))"

function decodeAvailableFrames :: "FrameDecoder \<Rightarrow> FrameDecoder" where
  "decodeAvailableFrames d =
     (case decode_header_phase d of
        (False, d1) \<Rightarrow> d1
      | (True, d1) \<Rightarrow>
          (case decode_body_phase d1 of
             (False, d2) \<Rightarrow> d2
           | (True, d2) \<Rightarrow> decodeAvailableFrames d2))"
  by pat_completeness auto

text \<open>Every round that goes on consumes at least a header.\<close>

lemma header_phase_buffer:
  "decode_header_phase d = (b, d1) \<Longrightarrow>
     input_buffer d1 = input_buffer d \<and> consumed_prefix_size d1 = consumed_prefix_size d \<and>
     decoded_frames d1 = decoded_frames d"
  by (auto simp: decode_header_phase_def parseAndValidateHeader_def setFailure_def Let_def
    split: if_splits option.splits prod.splits bool.splits)

lemma body_phase_progress:
  "decode_body_phase d = (True, d2) \<Longrightarrow>
     input_buffer d2 = input_buffer d \<and>
     consumed_prefix_size d2 = consumed_prefix_size d + (kFrameHeaderSize + body_length d) \<and>
     consumed_prefix_size d + (kFrameHeaderSize + body_length d) \<le> length (input_buffer d)"
  by (auto simp: decode_body_phase_def Let_def kFrameHeaderSize_def split: if_splits)

termination decodeAvailableFrames
  by (relation "measure (\<lambda>d. length (input_buffer d) - consumed_prefix_size d)")
    (auto dest!: header_phase_buffer [OF sym] body_phase_progress [OF sym]
      simp: kFrameHeaderSize_def)

declare decodeAvailableFrames.simps [simp del]

text \<open>\<^verbatim>\<open>discardConsumedBytes\<close>: the consumed prefix is erased after every feed.\<close>

definition discardConsumedBytes :: "FrameDecoder \<Rightarrow> FrameDecoder" where
  "discardConsumedBytes d =
     (if 0 < consumed_prefix_size d
      then d\<lparr>input_buffer := drop (consumed_prefix_size d) (input_buffer d),
             consumed_prefix_size := 0\<rparr>
      else d)"

definition feedBytes :: "bytes \<Rightarrow> FrameDecoder \<Rightarrow> FrameDecoder" where
  "feedBytes data d =
     (if failed d then d
      else discardConsumedBytes
             (decodeAvailableFrames (d\<lparr>input_buffer := input_buffer d @ data\<rparr>)))"

text \<open>\<^verbatim>\<open>tryPopFrame\<close>: \<open>None\<close> is the result \<^verbatim>\<open>false\<close>, which leaves the output untouched.\<close>

definition tryPopFrame :: "FrameDecoder \<Rightarrow> Frame option \<times> FrameDecoder" where
  "tryPopFrame d =
     (if failed d \<or> decoded_frames d = [] then (None, d)
      else (Some (hd (decoded_frames d)), d\<lparr>decoded_frames := tl (decoded_frames d)\<rparr>))"

section \<open>What a byte stream says\<close>

text \<open>
  The specification reads a stream from the front: a header, checked in the documented order,
  then as many body bytes as the header announces, which must be UTF-8. The result is the
  list of complete frames, the bytes left over, and the error that ended the reading, if any.
\<close>

definition read_header :: "bytes \<Rightarrow> FrameErrorKind + (ProtocolType \<times> nat)" where
  "read_header bs =
     (if bs ! 0 \<noteq> kFrameMagicHigh \<or> bs ! 1 \<noteq> kFrameMagicLow then Inl bad_magic
      else if bs ! 2 \<noteq> kProtocolVersion then Inl bad_version
      else case findProtocol (ProtocolType (bs ! 3)) of
          None \<Rightarrow> Inl unknown_type
        | Some desc \<Rightarrow>
            let n = unat (header_length (bs ! 4) (bs ! 5) (bs ! 6) (bs ! 7))
            in if unat (d_max_body desc) < n then Inl body_too_large
               else Inr (ProtocolType (bs ! 3), n))"

function decode_stream :: "bytes \<Rightarrow> Frame list \<times> bytes \<times> FrameErrorKind option" where
  "decode_stream bs =
     (if length bs < kFrameHeaderSize then ([], bs, None)
      else case read_header bs of
          Inl e \<Rightarrow> ([], bs, Some e)
        | Inr (t, n) \<Rightarrow>
            if length bs < kFrameHeaderSize + n then ([], bs, None)
            else
              let body = string_of_bytes (take n (drop kFrameHeaderSize bs)) in
              if \<not> isValidUtf8 body then ([], bs, Some invalid_utf8)
              else case decode_stream (drop (kFrameHeaderSize + n) bs) of
                  (fs, rest, e) \<Rightarrow> (\<lparr>frame_kind = t, frame_body = body\<rparr> # fs, rest, e))"
  by pat_completeness auto
termination
  by (relation "measure length") (auto simp: kFrameHeaderSize_def)

declare decode_stream.simps [simp del]

lemma read_header_append:
  assumes "kFrameHeaderSize \<le> length bs"
  shows "read_header (bs @ cs) = read_header bs"
proof -
  have "(bs @ cs) ! 0 = bs ! 0" "(bs @ cs) ! 1 = bs ! 1" "(bs @ cs) ! 2 = bs ! 2"
    "(bs @ cs) ! 3 = bs ! 3" "(bs @ cs) ! 4 = bs ! 4" "(bs @ cs) ! 5 = bs ! 5"
    "(bs @ cs) ! 6 = bs ! 6" "(bs @ cs) ! 7 = bs ! 7"
    using assms by (auto simp: nth_append kFrameHeaderSize_def)
  then show ?thesis by (simp only: read_header_def)
qed

text \<open>The four outcomes of one step of the specification.\<close>

lemma decode_stream_short:
  "length bs < kFrameHeaderSize \<Longrightarrow> decode_stream bs = ([], bs, None)"
  by (simp add: decode_stream.simps)

lemma decode_stream_bad_header:
  "kFrameHeaderSize \<le> length bs \<Longrightarrow> read_header bs = Inl e \<Longrightarrow>
     decode_stream bs = ([], bs, Some e)"
  by (simp add: decode_stream.simps)

lemma decode_stream_partial:
  "kFrameHeaderSize \<le> length bs \<Longrightarrow> read_header bs = Inr (t, n) \<Longrightarrow>
     length bs < kFrameHeaderSize + n \<Longrightarrow> decode_stream bs = ([], bs, None)"
  by (simp add: decode_stream.simps)

lemma decode_stream_bad_body:
  "read_header bs = Inr (t, n) \<Longrightarrow> kFrameHeaderSize + n \<le> length bs \<Longrightarrow>
     \<not> isValidUtf8 (string_of_bytes (take n (drop kFrameHeaderSize bs))) \<Longrightarrow>
     decode_stream bs = ([], bs, Some invalid_utf8)"
  by (simp add: decode_stream.simps)

lemma decode_stream_frame:
  "read_header bs = Inr (t, n) \<Longrightarrow> kFrameHeaderSize + n \<le> length bs \<Longrightarrow>
     isValidUtf8 (string_of_bytes (take n (drop kFrameHeaderSize bs))) \<Longrightarrow>
     decode_stream (drop (kFrameHeaderSize + n) bs) = (fs, rest, e) \<Longrightarrow>
     decode_stream bs =
       (\<lparr>frame_kind = t, frame_body = string_of_bytes (take n (drop kFrameHeaderSize bs))\<rparr> # fs,
        rest, e)"
  by (simp add: decode_stream.simps [of bs])

lemmas decode_stream_steps = decode_stream_short decode_stream_bad_header decode_stream_partial
  decode_stream_bad_body decode_stream_frame

lemma decode_stream_cases:
  obtains (short) "length bs < kFrameHeaderSize"
  | (bad_header) e where "kFrameHeaderSize \<le> length bs" "read_header bs = Inl e"
  | (partial) t n where "kFrameHeaderSize \<le> length bs" "read_header bs = Inr (t, n)"
      "length bs < kFrameHeaderSize + n"
  | (bad_body) t n where "read_header bs = Inr (t, n)" "kFrameHeaderSize + n \<le> length bs"
      "\<not> isValidUtf8 (string_of_bytes (take n (drop kFrameHeaderSize bs)))"
  | (frame) t n where "read_header bs = Inr (t, n)" "kFrameHeaderSize + n \<le> length bs"
      "isValidUtf8 (string_of_bytes (take n (drop kFrameHeaderSize bs)))"
proof (cases "read_header bs")
  case (Inl e)
  then show ?thesis using short bad_header by (meson not_le)
next
  case (Inr tn)
  then obtain t n where "read_header bs = Inr (t, n)" by (cases tn) simp
  then show ?thesis using short partial bad_body frame by (meson not_le)
qed

text \<open>A stream can be read in parts: the left-over bytes are the only state.\<close>

lemma decode_stream_append:
  "decode_stream (bs @ cs) = (case decode_stream bs of
     (fs, rest, Some e) \<Rightarrow> (fs, rest @ cs, Some e)
   | (fs, rest, None) \<Rightarrow> (case decode_stream (rest @ cs) of
       (fs', rest', e') \<Rightarrow> (fs @ fs', rest', e')))"
proof (induction bs rule: decode_stream.induct)
  case (1 bs)
  show ?case
  proof (cases bs rule: decode_stream_cases)
    case short
    then show ?thesis by (simp add: decode_stream_short split: prod.split)
  next
    case (bad_header e)
    then show ?thesis by (simp add: decode_stream_bad_header read_header_append)
  next
    case (partial t n)
    then show ?thesis by (simp add: decode_stream_partial split: prod.split)
  next
    case (bad_body t n)
    then have "kFrameHeaderSize \<le> length bs" by simp
    with bad_body show ?thesis
      by (simp add: decode_stream_bad_body read_header_append)
  next
    case (frame t n)
    then have h: "kFrameHeaderSize \<le> length bs" by simp
    obtain fs rest e where tail: "decode_stream (drop (kFrameHeaderSize + n) bs) = (fs, rest, e)"
      by (cases "decode_stream (drop (kFrameHeaderSize + n) bs)")
    obtain fs' rest' e' where all: "decode_stream (drop (kFrameHeaderSize + n) bs @ cs) = (fs', rest', e')"
      by (cases "decode_stream (drop (kFrameHeaderSize + n) bs @ cs)")
    have IH: "decode_stream (drop (kFrameHeaderSize + n) bs @ cs) = (case (fs, rest, e) of
        (fs, rest, Some e) \<Rightarrow> (fs, rest @ cs, Some e)
      | (fs, rest, None) \<Rightarrow> (case decode_stream (rest @ cs) of
          (fs', rest', e') \<Rightarrow> (fs @ fs', rest', e')))"
      using 1 h frame tail by simp
    have "decode_stream (bs @ cs) = (\<lparr>frame_kind = t,
        frame_body = string_of_bytes (take n (drop kFrameHeaderSize bs))\<rparr> # fs', rest', e')"
      using decode_stream_frame [of "bs @ cs" t n fs' rest' e'] frame h all
      by (simp add: read_header_append)
    then show ?thesis
      using IH all decode_stream_frame [OF frame tail]
      by (auto split: option.splits prod.splits)
  qed
qed

section \<open>The decoder reads its buffer as the specification does\<close>

definition unread :: "FrameDecoder \<Rightarrow> bytes" where
  "unread d = drop (consumed_prefix_size d) (input_buffer d)"

text \<open>The pending header is the header at the front of the unread bytes.\<close>

definition header_in_step :: "FrameDecoder \<Rightarrow> bool" where
  "header_in_step d \<longleftrightarrow>
     consumed_prefix_size d \<le> length (input_buffer d) \<and>
     (has_pending_header d \<longrightarrow> kFrameHeaderSize \<le> length (unread d) \<and>
        read_header (unread d) = Inr (frame_type d, body_length d))"

lemma length_unread: "length (unread d) = length (input_buffer d) - consumed_prefix_size d"
  by (simp add: unread_def)

lemma parse_is_read_header:
  assumes "kFrameHeaderSize \<le> length (unread d)"
  shows "parseAndValidateHeader (consumed_prefix_size d) d =
    (case read_header (unread d) of
       Inl e \<Rightarrow> (False, setFailure e d)
     | Inr (t, n) \<Rightarrow> (True, d\<lparr>frame_type := t, body_length := n\<rparr>))"
proof -
  let ?c = "consumed_prefix_size d"
  have "unread d ! 0 = input_buffer d ! ?c" "unread d ! 1 = input_buffer d ! (?c + 1)"
    "unread d ! 2 = input_buffer d ! (?c + 2)" "unread d ! 3 = input_buffer d ! (?c + 3)"
    "unread d ! 4 = input_buffer d ! (?c + 4)" "unread d ! 5 = input_buffer d ! (?c + 5)"
    "unread d ! 6 = input_buffer d ! (?c + 6)" "unread d ! 7 = input_buffer d ! (?c + 7)"
    using assms by (auto simp: unread_def kFrameHeaderSize_def)
  then show ?thesis
    unfolding parseAndValidateHeader_def read_header_def Let_def
    by (auto simp only: split: option.splits)
      (auto simp: word_less_nat_alt dest: findProtocol_type)
qed

lemma header_phase_short:
  assumes "\<not> has_pending_header d" and "length (unread d) < kFrameHeaderSize"
  shows "decode_header_phase d = (False, d)"
  using assms by (simp add: decode_header_phase_def length_unread)

lemma header_phase_bad:
  assumes "header_in_step d" and "kFrameHeaderSize \<le> length (unread d)"
    and "read_header (unread d) = Inl e"
  shows "decode_header_phase d = (False, setFailure e d)"
  using assms by (auto simp: decode_header_phase_def header_in_step_def parse_is_read_header
    length_unread)

lemma header_phase_good:
  assumes "header_in_step d" and "kFrameHeaderSize \<le> length (unread d)"
    and "read_header (unread d) = Inr (t, n)"
  shows "decode_header_phase d =
    (True, d\<lparr>frame_type := t, body_length := n, has_pending_header := True\<rparr>)"
  using assms by (cases "has_pending_header d")
    (auto simp: decode_header_phase_def header_in_step_def parse_is_read_header length_unread)

text \<open>The state the decoder reaches when the specification reads the rest of its buffer.\<close>

definition reads_to :: "FrameDecoder \<Rightarrow> Frame list \<times> bytes \<times> FrameErrorKind option \<Rightarrow>
    FrameDecoder \<Rightarrow> bool" where
  "reads_to d result d' \<longleftrightarrow> (case result of (fs, rest, e) \<Rightarrow>
     decoded_frames d' = decoded_frames d @ fs \<and> unread d' = rest \<and>
     failed d' = (e \<noteq> None) \<and> decoder_error d' = (case e of None \<Rightarrow> decoder_error d | Some k \<Rightarrow> k) \<and>
     consumed_prefix_size d' \<le> length (input_buffer d') \<and>
     (e = None \<longrightarrow> header_in_step d' \<and>
        (has_pending_header d' \<longleftrightarrow> kFrameHeaderSize \<le> length rest)))"

text \<open>The decoder after one complete frame, and after the header of an incomplete one.\<close>

definition with_header :: "ProtocolType \<Rightarrow> nat \<Rightarrow> FrameDecoder \<Rightarrow> FrameDecoder" where
  "with_header t n d = d\<lparr>frame_type := t, body_length := n, has_pending_header := True\<rparr>"

definition with_frame :: "ProtocolType \<Rightarrow> nat \<Rightarrow> FrameDecoder \<Rightarrow> FrameDecoder" where
  "with_frame t n d = (with_header t n d)\<lparr>has_pending_header := False,
     decoded_frames := decoded_frames d @ [\<lparr>frame_kind = t,
       frame_body = string_of_bytes (take n (drop kFrameHeaderSize (unread d)))\<rparr>],
     consumed_prefix_size := consumed_prefix_size d + (kFrameHeaderSize + n)\<rparr>"

lemma unread_with_header [simp]: "unread (with_header t n d) = unread d"
  by (simp add: unread_def with_header_def)

lemma unread_with_frame [simp]:
  "unread (with_frame t n d) = drop (kFrameHeaderSize + n) (unread d)"
  by (simp add: unread_def with_frame_def with_header_def add.commute)

lemma header_good:
  assumes "header_in_step d" and "kFrameHeaderSize \<le> length (unread d)"
    and "read_header (unread d) = Inr (t, n)"
  shows "decode_header_phase d = (True, with_header t n d)"
  using header_phase_good [OF assms] by (simp add: with_header_def)

lemma decode_partial:
  assumes "header_in_step d" and "kFrameHeaderSize \<le> length (unread d)"
    and "read_header (unread d) = Inr (t, n)" and "length (unread d) < kFrameHeaderSize + n"
  shows "decodeAvailableFrames d = with_header t n d"
proof -
  have "decode_body_phase (with_header t n d) = (False, with_header t n d)"
    using assms(4) by (simp add: decode_body_phase_def with_header_def length_unread)
  then show ?thesis
    using header_good [OF assms(1-3)] by (simp add: decodeAvailableFrames.simps [of d])
qed

lemma decode_bad_body:
  assumes "header_in_step d" and "read_header (unread d) = Inr (t, n)"
    and "kFrameHeaderSize + n \<le> length (unread d)"
    and "\<not> isValidUtf8 (string_of_bytes (take n (drop kFrameHeaderSize (unread d))))"
  shows "decodeAvailableFrames d =
    setFailure invalid_utf8 ((with_header t n d)\<lparr>has_pending_header := False\<rparr>)"
proof -
  have h: "kFrameHeaderSize \<le> length (unread d)" using assms(3) by simp
  have "decode_body_phase (with_header t n d) =
      (False, setFailure invalid_utf8 ((with_header t n d)\<lparr>has_pending_header := False\<rparr>))"
    using assms(3,4)
    by (simp add: decode_body_phase_def with_header_def length_unread unread_def add.commute)
  then show ?thesis
    using header_good [OF assms(1) h assms(2)] by (simp add: decodeAvailableFrames.simps [of d])
qed

lemma decode_frame:
  assumes "header_in_step d" and "read_header (unread d) = Inr (t, n)"
    and "kFrameHeaderSize + n \<le> length (unread d)"
    and "isValidUtf8 (string_of_bytes (take n (drop kFrameHeaderSize (unread d))))"
  shows "decode_header_phase d = (True, with_header t n d)"
    and "decode_body_phase (with_header t n d) = (True, with_frame t n d)"
    and "decodeAvailableFrames d = decodeAvailableFrames (with_frame t n d)"
    and "header_in_step (with_frame t n d)"
proof -
  have h: "kFrameHeaderSize \<le> length (unread d)" using assms(3) by simp
  show head: "decode_header_phase d = (True, with_header t n d)"
    by (rule header_good [OF assms(1) h assms(2)])
  show body: "decode_body_phase (with_header t n d) = (True, with_frame t n d)"
    using assms(3,4)
    by (simp add: decode_body_phase_def with_frame_def with_header_def length_unread unread_def
      add.commute)
  show "decodeAvailableFrames d = decodeAvailableFrames (with_frame t n d)"
    using head body by (simp add: decodeAvailableFrames.simps [of d])
  show "header_in_step (with_frame t n d)"
    using assms(1,3)
    by (auto simp: header_in_step_def with_frame_def with_header_def length_unread)
qed

lemma reads_to_frame:
  assumes "reads_to (with_frame t n d) (fs, rest, e) d'"
  shows "reads_to d (\<lparr>frame_kind = t,
    frame_body = string_of_bytes (take n (drop kFrameHeaderSize (unread d)))\<rparr> # fs, rest, e) d'"
proof -
  have err: "decoder_error (with_frame t n d) = decoder_error d"
    and frames: "decoded_frames (with_frame t n d) = decoded_frames d @ [\<lparr>frame_kind = t,
      frame_body = string_of_bytes (take n (drop kFrameHeaderSize (unread d)))\<rparr>]"
    by (simp_all add: with_frame_def with_header_def)
  show ?thesis using assms unfolding reads_to_def prod.case err frames by simp
qed

lemma decodeAvailableFrames_reads:
  assumes "header_in_step d" and "\<not> failed d"
  shows "reads_to d (decode_stream (unread d)) (decodeAvailableFrames d)"
  using assms
proof (induction d rule: decodeAvailableFrames.induct)
  case (1 d)
  note wf = 1(2) and ok = 1(3)
  from wf have bound: "consumed_prefix_size d \<le> length (input_buffer d)"
    by (simp add: header_in_step_def)
  show ?case
  proof (cases "unread d" rule: decode_stream_cases)
    case short
    with wf have "\<not> has_pending_header d" by (auto simp: header_in_step_def)
    with short wf ok bound show ?thesis
      by (simp add: decodeAvailableFrames.simps [of d] header_phase_short
        decode_stream_short reads_to_def)
  next
    case (bad_header e)
    with wf bound show ?thesis
      by (simp add: decodeAvailableFrames.simps [of d] header_phase_bad
        decode_stream_bad_header reads_to_def setFailure_def unread_def)
  next
    case (partial t n)
    with wf ok bound show ?thesis
      by (simp add: decode_partial decode_stream_partial reads_to_def header_in_step_def)
        (simp add: with_header_def)
  next
    case (bad_body t n)
    with wf bound show ?thesis
      by (simp add: decode_bad_body decode_stream_bad_body reads_to_def setFailure_def
        unread_def with_header_def)
  next
    case (frame t n)
    note step = decode_frame [OF wf frame]
    obtain fs rest e where tail: "decode_stream (unread (with_frame t n d)) = (fs, rest, e)"
      by (cases "decode_stream (unread (with_frame t n d))")
    have "\<not> failed (with_frame t n d)"
      using ok by (simp add: with_frame_def with_header_def)
    then have "reads_to (with_frame t n d) (fs, rest, e) (decodeAvailableFrames (with_frame t n d))"
      using 1(1) [OF step(1) [symmetric] refl step(2) [symmetric] refl step(4)] tail by simp
    then show ?thesis
      using reads_to_frame decode_stream_frame [OF frame, of fs rest e] tail step(3) by simp
  qed
qed

section \<open>Feeding\<close>

text \<open>What holds of a decoder between two calls.\<close>

definition decoder_wf :: "FrameDecoder \<Rightarrow> bool" where
  "decoder_wf d \<longleftrightarrow> consumed_prefix_size d = 0 \<and>
     (\<not> failed d \<longrightarrow> header_in_step d \<and>
        (has_pending_header d \<longleftrightarrow> kFrameHeaderSize \<le> length (input_buffer d)) \<and>
        decode_stream (input_buffer d) = ([], input_buffer d, None))"

lemma decode_stream_rest:
  "decode_stream bs = (fs, rest, None) \<Longrightarrow> decode_stream rest = ([], rest, None)"
proof (induction bs arbitrary: fs rule: decode_stream.induct)
  case (1 bs)
  show ?case
  proof (cases bs rule: decode_stream_cases)
    case (frame t n)
    obtain fs' rest' e where tail: "decode_stream (drop (kFrameHeaderSize + n) bs) = (fs', rest', e)"
      by (cases "decode_stream (drop (kFrameHeaderSize + n) bs)")
    with decode_stream_frame [OF frame tail] "1.prems" have "rest' = rest" "e = None" by auto
    moreover have "kFrameHeaderSize \<le> length bs" using frame(2) by simp
    ultimately show ?thesis using 1(1) frame tail by simp
  qed (use "1.prems" in \<open>auto simp: decode_stream_steps\<close>)
qed

lemma decoder_wf_init [simp]: "decoder_wf FrameDecoder_init"
  by (simp add: decoder_wf_def FrameDecoder_init_def header_in_step_def unread_def
    decode_stream_short kFrameHeaderSize_def)

lemma feedBytes_failed [simp]: "failed d \<Longrightarrow> feedBytes data d = d"
  by (simp add: feedBytes_def)

lemma feedBytes_reads:
  assumes wf: "decoder_wf d" and ok: "\<not> failed d"
    and stream: "decode_stream (input_buffer d @ data) = (fs, rest, e)"
  defines "d' \<equiv> feedBytes data d"
  shows "decoded_frames d' = decoded_frames d @ fs" and "input_buffer d' = rest"
    and "failed d' \<longleftrightarrow> e \<noteq> None"
    and "decoder_error d' = (case e of None \<Rightarrow> decoder_error d | Some k \<Rightarrow> k)"
    and "decoder_wf d'"
proof -
  define d0 where "d0 = d\<lparr>input_buffer := input_buffer d @ data\<rparr>"
  define r where "r = decodeAvailableFrames d0"
  have u: "unread d0 = input_buffer d @ data" and "header_in_step d0"
    using wf ok
    by (auto simp: d0_def unread_def decoder_wf_def header_in_step_def read_header_append)
  with ok stream have r: "reads_to d0 (fs, rest, e) r"
    using decodeAvailableFrames_reads [of d0] by (simp add: r_def d0_def)
  have d': "d' = discardConsumedBytes r"
    using ok by (simp add: d'_def feedBytes_def r_def d0_def)
  have buf: "input_buffer d' = unread r" "consumed_prefix_size d' = 0"
    by (simp_all add: d' discardConsumedBytes_def unread_def)
  have same: "decoded_frames d' = decoded_frames r" "failed d' = failed r"
    "decoder_error d' = decoder_error r" "has_pending_header d' = has_pending_header r"
    "frame_type d' = frame_type r" "body_length d' = body_length r"
    by (simp_all add: d' discardConsumedBytes_def)
  have old: "decoded_frames d0 = decoded_frames d" "decoder_error d0 = decoder_error d"
    by (simp_all add: d0_def)
  show "decoded_frames d' = decoded_frames d @ fs" "input_buffer d' = rest"
    "failed d' \<longleftrightarrow> e \<noteq> None"
    "decoder_error d' = (case e of None \<Rightarrow> decoder_error d | Some k \<Rightarrow> k)"
    using r unfolding reads_to_def prod.case old by (simp_all add: same buf)
  show "decoder_wf d'"
    using r decode_stream_rest [of "input_buffer d @ data" fs rest] stream
    by (auto simp: decoder_wf_def same buf reads_to_def header_in_step_def unread_def)
qed

lemma decoder_wf_feed: "decoder_wf d \<Longrightarrow> decoder_wf (feedBytes data d)"
  by (cases "failed d"; cases "decode_stream (input_buffer d @ data)")
    (auto intro: feedBytes_reads(5))

section \<open>Input in chunks\<close>

text \<open>
  The contract of a component that is fed its input in pieces: what an observer sees depends
  on the bytes, not on where they were cut.
\<close>

locale chunked_input =
  fixes feed :: "'b list \<Rightarrow> 's \<Rightarrow> 's"
    and inv :: "'s \<Rightarrow> bool"
    and view :: "'s \<Rightarrow> 'o"
  assumes inv_feed: "inv s \<Longrightarrow> inv (feed a s)"
    and feed_Nil: "inv s \<Longrightarrow> view (feed [] s) = view s"
    and feed_append: "inv s \<Longrightarrow> view (feed b (feed a s)) = view (feed (a @ b) s)"
    and feed_cong: "inv s \<Longrightarrow> inv t \<Longrightarrow> view s = view t \<Longrightarrow> view (feed a s) = view (feed a t)"
begin

lemma inv_fold: "inv s \<Longrightarrow> inv (fold feed cs s)"
  by (induction cs arbitrary: s) (simp_all add: inv_feed)

lemma fold_cong_view:
  "inv s \<Longrightarrow> inv t \<Longrightarrow> view s = view t \<Longrightarrow> view (fold feed cs s) = view (fold feed cs t)"
proof (induction cs arbitrary: s t)
  case (Cons c cs)
  have "view (feed c s) = view (feed c t)" by (rule feed_cong [OF Cons.prems])
  from Cons.IH [OF inv_feed [OF Cons.prems(1)] inv_feed [OF Cons.prems(2)] this]
  show ?case unfolding fold_simps .
qed simp

lemma fold_is_concat: "inv s \<Longrightarrow> view (fold feed cs s) = view (feed (concat cs) s)"
proof (induction cs arbitrary: s)
  case Nil
  then show ?case by (simp add: feed_Nil)
next
  case (Cons c cs)
  then show ?case by (simp add: inv_feed feed_append)
qed

lemma cuts_irrelevant:
  "inv s \<Longrightarrow> concat cs = concat ds \<Longrightarrow> view (fold feed cs s) = view (fold feed ds s)"
  by (simp add: fold_is_concat)

end

text \<open>
  What the public interface of the decoder shows, with the buffer that decides its future:
  after a failure the buffer is never read again.
\<close>

definition decoder_view :: "FrameDecoder \<Rightarrow> bool \<times> FrameErrorKind \<times> Frame list \<times> bytes" where
  "decoder_view d = (failed d, decoder_error d, decoded_frames d,
     if failed d then [] else input_buffer d)"

lemma feed_view:
  assumes "decoder_wf d" and "\<not> failed d"
  shows "decoder_view (feedBytes data d) = (case decode_stream (input_buffer d @ data) of
    (fs, rest, None) \<Rightarrow> (False, decoder_error d, decoded_frames d @ fs, rest)
  | (fs, rest, Some k) \<Rightarrow> (True, k, decoded_frames d @ fs, []))"
proof (cases "decode_stream (input_buffer d @ data)")
  case (fields fs rest e)
  note feed = feedBytes_reads [OF assms fields]
  show ?thesis
    by (cases e) (simp_all add: decoder_view_def feed fields)
qed

lemma feed_view_append:
  assumes wf: "decoder_wf d" and ok: "\<not> failed d"
  shows "decoder_view (feedBytes b (feedBytes a d)) = decoder_view (feedBytes (a @ b) d)"
proof -
  obtain fs rest e where s: "decode_stream (input_buffer d @ a) = (fs, rest, e)"
    by (cases "decode_stream (input_buffer d @ a)")
  note feed = feedBytes_reads [OF wf ok s]
  have app: "decode_stream (input_buffer d @ a @ b) = (case (fs, rest, e) of
      (fs, rest, Some e) \<Rightarrow> (fs, rest @ b, Some e)
    | (fs, rest, None) \<Rightarrow> (case decode_stream (rest @ b) of
        (fs', rest', e') \<Rightarrow> (fs @ fs', rest', e')))"
    using decode_stream_append [of "input_buffer d @ a" b] s by simp
  show ?thesis
  proof (cases e)
    case None
    with feed have "\<not> failed (feedBytes a d)" by simp
    with None show ?thesis
      using wf ok feed app
      by (simp add: feed_view split: prod.splits option.splits)
  next
    case (Some k)
    then show ?thesis
      using wf ok feed app s by (simp add: feed_view)
  qed
qed

lemma feed_view_Nil: "decoder_wf d \<Longrightarrow> decoder_view (feedBytes [] d) = decoder_view d"
proof (cases "failed d")
  case False
  assume wf: "decoder_wf d"
  with False have "decode_stream (input_buffer d) = ([], input_buffer d, None)"
    by (simp add: decoder_wf_def)
  with wf False show ?thesis by (simp add: feed_view) (simp add: decoder_view_def)
qed simp

lemma feed_view_cong:
  assumes "decoder_wf d" and "decoder_wf t" and eq: "decoder_view d = decoder_view t"
  shows "decoder_view (feedBytes a d) = decoder_view (feedBytes a t)"
proof -
  from eq have same: "failed t = failed d" "decoder_error t = decoder_error d"
    "decoded_frames t = decoded_frames d" "\<not> failed d \<Longrightarrow> input_buffer t = input_buffer d"
    by (auto simp: decoder_view_def split: if_splits)
  show ?thesis
  proof (cases "failed d")
    case True
    with same eq show ?thesis by simp
  next
    case False
    with same show ?thesis
      unfolding feed_view [OF assms(1) False] by (subst feed_view [OF assms(2)]) simp_all
  qed
qed

interpretation decoder: chunked_input feedBytes decoder_wf decoder_view
proof
  show "decoder_view (feedBytes b (feedBytes a d)) = decoder_view (feedBytes (a @ b) d)"
    if "decoder_wf d" for d a b
    using that feed_view_append by (cases "failed d") simp_all
qed (fact decoder_wf_feed feed_view_Nil feed_view_cong)+

section \<open>Encoding and decoding\<close>

lemma length_byte_bits: "bit (length_byte s n) i \<longleftrightarrow> i < 8 \<and> s + i < 64 \<and> bit n (s + i)"
proof -
  have "(0xFF :: 64 word) = mask 8" by code_simp
  then have "w AND 0xFF = take_bit 8 w" for w :: "64 word"
    by (simp only: take_bit_eq_mask)
  then show ?thesis by (auto simp: length_byte_def bit_simps)
qed

lemma byte_no_high_bits [simp]: "8 \<le> k \<Longrightarrow> \<not> bit (b :: byte) k"
  using bit_imp_le_length [of b k] by auto

lemma header_length_of_bytes:
  assumes "n < 2 ^ 32"
  shows "header_length (length_byte 24 n) (length_byte 16 n) (length_byte 8 n) (length_byte 0 n)
    = of_nat n"
proof (rule bit_word_eqI)
  fix i
  assume "i < LENGTH(32)"
  then have "i < 32" by simp
  then consider "i < 8" | "8 \<le> i" "i < 16" | "16 \<le> i" "i < 24" | "24 \<le> i" by linarith
  then show "bit (header_length (length_byte 24 n) (length_byte 16 n) (length_byte 8 n)
      (length_byte 0 n)) i = bit (of_nat n :: 32 word) i"
    using \<open>i < 32\<close> by cases (auto simp: header_length_def bit_simps length_byte_bits)
qed

lemma length_bytes_of_header:
  "length_byte 24 (unat (header_length b4 b5 b6 b7)) = b4"
  "length_byte 16 (unat (header_length b4 b5 b6 b7)) = b5"
  "length_byte 8 (unat (header_length b4 b5 b6 b7)) = b6"
  "length_byte 0 (unat (header_length b4 b5 b6 b7)) = b7"
  by (rule bit_word_eqI, auto simp: length_byte_bits header_length_def bit_simps)+

text \<open>The bytes of an accepted frame.\<close>

definition frame_bytes :: "ProtocolType \<Rightarrow> string \<Rightarrow> bytes" where
  "frame_bytes t body =
     [kFrameMagicHigh, kFrameMagicLow, kProtocolVersion, type_code t,
      length_byte 24 (length body), length_byte 16 (length body),
      length_byte 8 (length body), length_byte 0 (length body)] @ bytes_of_string body"

definition frame_ok :: "ProtocolType \<Rightarrow> string \<Rightarrow> bool" where
  "frame_ok t body \<longleftrightarrow> isValidUtf8 body \<and>
     (\<exists>desc. findProtocol t = Some desc \<and> length body \<le> unat (d_max_body desc))"

lemma encodeFrame_Some: "encodeFrame t body = Some bs \<longleftrightarrow> frame_ok t body \<and> bs = frame_bytes t body"
  by (auto simp: encodeFrame_def frame_ok_def frame_bytes_def split: option.splits)

lemma frame_ok_length: "frame_ok t body \<Longrightarrow> length body \<le> 65536"
  using max_body_le by (fastforce simp: frame_ok_def)

lemma read_header_bound: "read_header bs = Inr (t, n) \<Longrightarrow> n \<le> 65536"
  using max_body_le
  by (fastforce simp: read_header_def Let_def split: if_splits option.splits)

lemma read_header_frame:
  assumes "frame_ok t body"
  shows "read_header (frame_bytes t body @ rest) = Inr (t, length body)"
proof -
  have "length body < 2 ^ 32" using frame_ok_length [OF assms] by simp
  then have "unat (of_nat (length body) :: 32 word) = length body"
    by (simp add: unat_of_nat)
  with header_length_of_bytes [OF \<open>length body < 2 ^ 32\<close>] assms show ?thesis
    by (auto simp: read_header_def frame_bytes_def frame_ok_def Let_def)
qed

lemma length_frame_bytes: "length (frame_bytes t body) = kFrameHeaderSize + length body"
  by (simp add: frame_bytes_def kFrameHeaderSize_def)

lemma frame_bytes_body:
  "take (length body) (drop kFrameHeaderSize (frame_bytes t body @ rest)) = bytes_of_string body"
  "drop (kFrameHeaderSize + length body) (frame_bytes t body @ rest) = rest"
  by (simp add: frame_bytes_def kFrameHeaderSize_def) (simp flip: length_frame_bytes [of t])

lemma decode_stream_frame_bytes:
  assumes "frame_ok t body" and "decode_stream rest = (fs, rest', e)"
  shows "decode_stream (frame_bytes t body @ rest) =
    (\<lparr>frame_kind = t, frame_body = body\<rparr> # fs, rest', e)"
  using decode_stream_frame [OF read_header_frame [OF assms(1), of rest], of fs rest' e] assms
  unfolding frame_bytes_body by (simp add: length_frame_bytes frame_ok_def)

definition frames_bytes :: "Frame list \<Rightarrow> bytes" where
  "frames_bytes fs = concat (map (\<lambda>f. frame_bytes (frame_kind f) (frame_body f)) fs)"

lemma frames_bytes_simps [simp]:
  "frames_bytes [] = []"
  "frames_bytes (f # fs) = frame_bytes (frame_kind f) (frame_body f) @ frames_bytes fs"
  by (simp_all add: frames_bytes_def)

lemma decode_stream_frames_bytes:
  assumes "list_all (\<lambda>f. frame_ok (frame_kind f) (frame_body f)) fs"
  shows "decode_stream (frames_bytes fs) = (fs, [], None)"
  using assms
proof (induction fs)
  case Nil
  then show ?case by (simp add: decode_stream_short kFrameHeaderSize_def)
next
  case (Cons f fs)
  then show ?case by (simp add: decode_stream_frame_bytes)
qed

text \<open>A complete header and body can only come from the frame they are decoded to.\<close>

lemma read_header_sound:
  assumes "read_header bs = Inr (t, n)" and "kFrameHeaderSize + n \<le> length bs"
  defines "body \<equiv> string_of_bytes (take n (drop kFrameHeaderSize bs))"
  assumes "isValidUtf8 body"
  shows "frame_ok t body" and "bs = frame_bytes t body @ drop (kFrameHeaderSize + n) bs"
proof -
  have len: "length body = n"
    using assms(2) by (simp add: body_def)
  have head: "bs ! 0 = kFrameMagicHigh" "bs ! 1 = kFrameMagicLow" "bs ! 2 = kProtocolVersion"
    "ProtocolType (bs ! 3) = t" "n = unat (header_length (bs ! 4) (bs ! 5) (bs ! 6) (bs ! 7))"
    and "\<exists>desc. findProtocol t = Some desc \<and> n \<le> unat (d_max_body desc)"
    using assms(1) by (auto simp: read_header_def Let_def split: if_splits option.splits)
  then show "frame_ok t body"
    using assms(4) len by (simp add: frame_ok_def)
  have "take 8 bs = [bs ! 0, bs ! 1, bs ! 2, bs ! 3, bs ! 4, bs ! 5, bs ! 6, bs ! 7]"
    using assms(2) by (intro nth_equalityI)
      (auto simp: kFrameHeaderSize_def less_Suc_eq numeral_eq_Suc)
  then have "take 8 bs = [kFrameMagicHigh, kFrameMagicLow, kProtocolVersion, type_code t,
      length_byte 24 n, length_byte 16 n, length_byte 8 n, length_byte 0 n]"
    using head by (auto simp: length_bytes_of_header)
  then have "frame_bytes t body = take 8 bs @ take n (drop 8 bs)"
    using len by (simp add: frame_bytes_def body_def kFrameHeaderSize_def)
  then show "bs = frame_bytes t body @ drop (kFrameHeaderSize + n) bs"
    by (simp add: kFrameHeaderSize_def)
      (metis append_take_drop_id drop_drop add.commute)
qed

lemma decode_stream_sound:
  "decode_stream bs = (fs, rest, e) \<Longrightarrow>
     list_all (\<lambda>f. frame_ok (frame_kind f) (frame_body f)) fs \<and> bs = frames_bytes fs @ rest"
proof (induction bs arbitrary: fs rest e rule: decode_stream.induct)
  case (1 bs)
  show ?case
  proof (cases bs rule: decode_stream_cases)
    case (frame t n)
    obtain fs' rest' e' where tail:
      "decode_stream (drop (kFrameHeaderSize + n) bs) = (fs', rest', e')"
      by (cases "decode_stream (drop (kFrameHeaderSize + n) bs)")
    note eq = decode_stream_frame [OF frame tail]
    have "kFrameHeaderSize \<le> length bs" using frame(2) by simp
    then have "list_all (\<lambda>f. frame_ok (frame_kind f) (frame_body f)) fs' \<and>
        drop (kFrameHeaderSize + n) bs = frames_bytes fs' @ rest'"
      using 1(1) frame tail by simp
    with eq "1.prems" read_header_sound [OF frame] show ?thesis by auto
  qed (use "1.prems" in \<open>auto simp: decode_stream_steps\<close>)
qed

lemma decode_stream_rest_bound:
  "decode_stream bs = ([], bs, None) \<Longrightarrow> length bs < kFrameHeaderSize + 65536"
proof (cases bs rule: decode_stream_cases)
  case (partial t n)
  then show ?thesis using read_header_bound by fastforce
next
  case (frame t n)
  assume "decode_stream bs = ([], bs, None)"
  with frame show ?thesis
    by (cases "decode_stream (drop (kFrameHeaderSize + n) bs)")
      (simp add: decode_stream_frame)
qed (simp_all add: decode_stream_steps)

section \<open>Runs of the public interface\<close>

text \<open>
  A client interleaves feeds and pops as it likes. A run returns the frames the pops
  delivered, in order, and the decoder.
\<close>

datatype decoder_op = Feed bytes | Pop

fun run_decoder :: "decoder_op list \<Rightarrow> FrameDecoder \<Rightarrow> Frame list \<times> FrameDecoder" where
  "run_decoder [] d = ([], d)"
| "run_decoder (Feed bs # ops) d = run_decoder ops (feedBytes bs d)"
| "run_decoder (Pop # ops) d =
     (case tryPopFrame d of
        (None, d') \<Rightarrow> run_decoder ops d'
      | (Some f, d') \<Rightarrow> (case run_decoder ops d' of (out, d'') \<Rightarrow> (f # out, d'')))"

fun fed_bytes :: "decoder_op list \<Rightarrow> bytes" where
  "fed_bytes [] = []"
| "fed_bytes (Feed bs # ops) = bs @ fed_bytes ops"
| "fed_bytes (Pop # ops) = fed_bytes ops"

text \<open>
  \<open>tracks input out d\<close>: after the bytes \<open>input\<close>, of which the frames \<open>out\<close> were delivered,
  the decoder \<open>d\<close> is what the specification says of \<open>input\<close>.
\<close>

definition tracks :: "bytes \<Rightarrow> Frame list \<Rightarrow> FrameDecoder \<Rightarrow> bool" where
  "tracks input out d \<longleftrightarrow> decoder_wf d \<and> (case decode_stream input of (fs, rest, e) \<Rightarrow>
     out @ decoded_frames d = fs \<and>
     (case e of
        None \<Rightarrow> \<not> failed d \<and> decoder_error d = decoder_failed \<and> input_buffer d = rest
      | Some k \<Rightarrow> failed d \<and> decoder_error d = k))"

lemma tracks_init: "tracks [] [] FrameDecoder_init"
  by (simp add: tracks_def decode_stream_short kFrameHeaderSize_def)
    (simp add: FrameDecoder_init_def)

lemma tracks_feed:
  assumes "tracks input out d"
  shows "tracks (input @ bs) out (feedBytes bs d)"
proof -
  obtain fs rest e where s: "decode_stream input = (fs, rest, e)"
    by (cases "decode_stream input")
  note app = decode_stream_append [of input bs]
  show ?thesis
  proof (cases e)
    case None
    obtain fs' rest' e' where s': "decode_stream (rest @ bs) = (fs', rest', e')"
      by (cases "decode_stream (rest @ bs)")
    from assms s None have d: "decoder_wf d" "\<not> failed d" "input_buffer d = rest"
      "decoder_error d = decoder_failed" "out @ decoded_frames d = fs"
      by (simp_all add: tracks_def)
    with feedBytes_reads [of d bs fs' rest' e'] s' app s None show ?thesis
      by (cases e') (auto simp: tracks_def)
  next
    case (Some k)
    with assms s app show ?thesis by (simp add: tracks_def)
  qed
qed

lemma decoder_wf_pop: "decoder_wf d \<Longrightarrow> decoder_wf (d\<lparr>decoded_frames := fs\<rparr>)"
  by (auto simp: decoder_wf_def header_in_step_def unread_def)

lemma tracks_pop:
  assumes "tracks input out d" and "tryPopFrame d = (Some f, d')"
  shows "tracks input (out @ [f]) d'"
  using assms by (auto simp: tracks_def tryPopFrame_def decoder_wf_pop
    split: if_splits option.splits)

lemma tryPopFrame_None: "tryPopFrame d = (None, d') \<Longrightarrow> d' = d"
  by (auto simp: tryPopFrame_def split: if_splits)

lemma run_tracks:
  "tracks input out d \<Longrightarrow> run_decoder ops d = (delivered, d') \<Longrightarrow>
     tracks (input @ fed_bytes ops) (out @ delivered) d'"
proof (induction ops d arbitrary: input out delivered rule: run_decoder.induct)
  case (1 d)
  then show ?case by simp
next
  case (2 bs ops d)
  from "2.IH" [OF tracks_feed [OF "2.prems"(1)]] "2.prems"(2) show ?case by simp
next
  case (3 ops d)
  obtain r d1 where pop: "tryPopFrame d = (r, d1)" by (cases "tryPopFrame d")
  show ?case
  proof (cases r)
    case None
    with pop have "d1 = d" by (simp add: tryPopFrame_None)
    with "3.IH"(1) [OF pop [symmetric] None, of input out delivered] "3.prems" pop None
    show ?thesis by simp
  next
    case (Some f)
    obtain del where del: "run_decoder ops d1 = (del, d')" "delivered = f # del"
      using "3.prems"(2) pop Some by (auto split: prod.splits)
    have "tracks input (out @ [f]) d1"
      using tracks_pop "3.prems"(1) pop Some by simp
    from "3.IH"(2) [OF pop [symmetric] Some this del(1)] del(2) show ?thesis by simp
  qed
qed

lemmas run_from_init = run_tracks [OF tracks_init, simplified]

lemma encoded_frames_stream:
  assumes "list_all2 (\<lambda>f w. encodeFrame (frame_kind f) (frame_body f) = Some w) fs ws"
  shows "decode_stream (concat ws) = (fs, [], None)"
proof -
  from assms have "list_all (\<lambda>f. frame_ok (frame_kind f) (frame_body f)) fs \<and>
      concat ws = frames_bytes fs"
    by (induction rule: list_all2_induct) (auto simp: encodeFrame_Some)
  then show ?thesis by (simp add: decode_stream_frames_bytes)
qed

lemma encoded_frames_arrive:
  assumes "list_all2 (\<lambda>f w. encodeFrame (frame_kind f) (frame_body f) = Some w) fs ws"
    and "fed_bytes ops = concat ws" and "run_decoder ops FrameDecoder_init = (out, d)"
  shows "out @ decoded_frames d = fs" and "\<not> hasFailed d" and "input_buffer d = []"
  using run_from_init [OF assms(3)] encoded_frames_stream [OF assms(1)] assms(2)
  by (simp_all add: tracks_def hasFailed_def)

section \<open>Properties\<close>

text \<open>
  C1 (the decoder refines the stream specification). Run any interleaving of feeds and pops
  on a fresh decoder. The frames delivered followed by those still queued are exactly the
  frames \<^const>\<open>decode_stream\<close> finds in the concatenated input; the decoder has failed
  exactly when the stream is in error, and reports that error; otherwise its buffer holds
  exactly the unfinished rest of the stream.
\<close>

theorem decoder_refines_stream:
  "case run_decoder ops FrameDecoder_init of (out, d) \<Rightarrow>
   case decode_stream (fed_bytes ops) of (fs, rest, e) \<Rightarrow>
     out @ decoded_frames d = fs \<and> (hasFailed d \<longleftrightarrow> e \<noteq> None) \<and>
     (case e of None \<Rightarrow> input_buffer d = rest | Some k \<Rightarrow> decoder_error d = k)"
proof -
  obtain out d where run: "run_decoder ops FrameDecoder_init = (out, d)"
    by (cases "run_decoder ops FrameDecoder_init")
  obtain fs rest e where s: "decode_stream (fed_bytes ops) = (fs, rest, e)"
    by (cases "decode_stream (fed_bytes ops)")
  from run_from_init [OF run] show ?thesis
    by (cases e) (auto simp: run s tracks_def hasFailed_def)
qed

text \<open>
  C16 (half packets and sticky packets). How the network cuts the input does not matter: two
  ways of cutting the same bytes give the same observable decoder - the same queued frames in
  the same order, the same failure and error, the same bytes kept for later.
\<close>

theorem decoder_chunking:
  assumes "concat chunks = concat chunks'"
  shows "decoder_view (fold feedBytes chunks FrameDecoder_init) =
    decoder_view (fold feedBytes chunks' FrameDecoder_init)"
  by (rule decoder.cuts_irrelevant [OF decoder_wf_init assms])

text \<open>
  C5 (encode and decode). Encode any frames, concatenate, cut the bytes anywhere and pop at any
  time: the decoder does not fail, delivers a prefix of exactly these frames in order, holds
  the rest of them in its queue, and keeps no byte.
\<close>

theorem decode_encoded_frames:
  assumes "list_all2 (\<lambda>f w. encodeFrame (frame_kind f) (frame_body f) = Some w) fs ws"
    and "fed_bytes ops = concat ws"
    and "run_decoder ops FrameDecoder_init = (out, d)"
  shows "out @ decoded_frames d = fs \<and> \<not> hasFailed d \<and> input_buffer d = []"
  using encoded_frames_arrive [OF assms] by blast

text \<open>
  C12 (nothing is invented). Whatever bytes arrive, the frames the decoder has decoded encode
  to a prefix of them: each frame is one the encoder accepts, and its encoding is exactly the
  bytes it was decoded from. While the decoder has not failed, the buffer holds the others.
\<close>

theorem decoded_frames_reencode:
  assumes "run_decoder ops FrameDecoder_init = (out, d)"
  shows "\<exists>ws rest. list_all2 (\<lambda>f w. encodeFrame (frame_kind f) (frame_body f) = Some w)
      (out @ decoded_frames d) ws \<and> fed_bytes ops = concat ws @ rest \<and>
    (\<not> hasFailed d \<longrightarrow> rest = input_buffer d)"
proof -
  obtain fs rest e where s: "decode_stream (fed_bytes ops) = (fs, rest, e)"
    by (cases "decode_stream (fed_bytes ops)")
  let ?ws = "map (\<lambda>f. frame_bytes (frame_kind f) (frame_body f)) fs"
  from decode_stream_sound [OF s]
  have "list_all2 (\<lambda>f w. encodeFrame (frame_kind f) (frame_body f) = Some w) fs ?ws"
    and "fed_bytes ops = concat ?ws @ rest"
    by (simp_all add: list_all2_map2 list_all2_same list_all_iff encodeFrame_Some frames_bytes_def)
  moreover have "out @ decoded_frames d = fs" "\<not> hasFailed d \<Longrightarrow> rest = input_buffer d"
    using run_from_init [OF assms] s
    by (auto simp: tracks_def hasFailed_def split: option.splits)
  ultimately show ?thesis by blast
qed

text \<open>
  C17 (bounded memory). Between calls a decoder that has not failed keeps less than one
  maximal frame - 8 header bytes and 65536 body bytes - whatever it was fed, and its consumed
  prefix has been discarded; a body length it waits for was checked against the 65536 limit.
\<close>

theorem decoder_buffer_bounded:
  assumes "run_decoder ops FrameDecoder_init = (out, d)" and "\<not> hasFailed d"
  shows "length (input_buffer d) < 8 + 65536 \<and> consumed_prefix_size d = 0 \<and>
    (has_pending_header d \<longrightarrow> body_length d \<le> 65536)"
  using run_from_init [OF assms(1)] assms(2) decode_stream_rest_bound [of "input_buffer d"]
    read_header_bound
  by (auto simp: tracks_def decoder_wf_def header_in_step_def hasFailed_def kFrameHeaderSize_def)

text \<open>
  C19 (a failure is final). Once failed, a decoder ignores every further byte and delivers
  nothing, not even frames decoded before the failure; its state no longer changes.
\<close>

theorem decoder_failure_final:
  assumes "hasFailed d"
  shows "run_decoder ops d = ([], d)"
proof -
  from assms have "tryPopFrame d = (None, d)"
    by (simp add: tryPopFrame_def hasFailed_def)
  with assms show ?thesis
    by (induction ops d rule: run_decoder.induct) (simp_all add: hasFailed_def)
qed

text \<open>
  C18 (a header is judged on arrival). The eight header bytes alone decide: magic, then
  version, then type, then the length against the limit of the type. A header that fails a
  check fails the decoder with the error of that check before any body byte is awaited or
  stored; a header that passes them does not.
\<close>

theorem header_judged_on_arrival:
  assumes "length header = 8" and "d = feedBytes header FrameDecoder_init"
  shows "decoder_error d =
      (if header ! 0 \<noteq> 0x43 \<or> header ! 1 \<noteq> 0x48 then bad_magic
       else if header ! 2 \<noteq> 1 then bad_version
       else case findProtocol (ProtocolType (header ! 3)) of
           None \<Rightarrow> unknown_type
         | Some desc \<Rightarrow>
             if d_max_body desc <
                header_length (header ! 4) (header ! 5) (header ! 6) (header ! 7)
             then body_too_large else decoder_failed) \<and>
    (hasFailed d \<longleftrightarrow> decoder_error d \<noteq> decoder_failed)"
proof -
  obtain fs rest e where s: "decode_stream header = (fs, rest, e)"
    by (cases "decode_stream header")
  have init: "input_buffer FrameDecoder_init = []" "\<not> failed FrameDecoder_init"
    "decoder_error FrameDecoder_init = decoder_failed"
    by (simp_all add: FrameDecoder_init_def)
  have d: "failed d \<longleftrightarrow> e \<noteq> None"
    "decoder_error d = (case e of None \<Rightarrow> decoder_failed | Some k \<Rightarrow> k)"
    using feedBytes_reads(3,4) [OF decoder_wf_init init(2), of header fs rest e] s init assms(2)
    by (cases e; simp)+
  have empty: "decode_stream [] = ([], [], None)"
    by (simp add: decode_stream_short kFrameHeaderSize_def)
  have e: "e = (case read_header header of Inl k \<Rightarrow> Some k | Inr _ \<Rightarrow> None)"
    using s assms(1) empty
    by (auto simp: decode_stream.simps [of header] kFrameHeaderSize_def string_of_bytes_def
      split: sum.splits if_splits prod.splits)
  show ?thesis
    unfolding hasFailed_def d e read_header_def kFrameMagicHigh_def kFrameMagicLow_def
      kProtocolVersion_def
    by (auto simp: Let_def word_less_nat_alt split: option.splits)
qed

text \<open>
  C20 (the encoder). A frame is encoded exactly when its type is registered, its body is within
  the limit of the type and is UTF-8; the result is the magic, the version, the type, the body
  length as a big-endian 32-bit number - read back, it is the length itself - and the body.
\<close>

theorem encodeFrame_layout:
  "(encodeFrame t body \<noteq> None \<longleftrightarrow> isValidUtf8 body \<and>
     (\<exists>desc. findProtocol t = Some desc \<and> length body \<le> unat (d_max_body desc))) \<and>
   (\<forall>bs. encodeFrame t body = Some bs \<longrightarrow>
     take 4 bs = [0x43, 0x48, 1, type_code t] \<and>
     unat (header_length (bs ! 4) (bs ! 5) (bs ! 6) (bs ! 7)) = length body \<and>
     drop 8 bs = bytes_of_string body)"
proof -
  have "unat (header_length (frame_bytes t body ! 4) (frame_bytes t body ! 5)
      (frame_bytes t body ! 6) (frame_bytes t body ! 7)) = length body" if "frame_ok t body"
    using read_header_frame [OF that, of "[]"]
    by (auto simp: read_header_def Let_def split: if_splits option.splits)
  then show ?thesis
    by (auto simp: encodeFrame_Some frame_ok_def [symmetric])
      (auto simp: frame_bytes_def kFrameMagicHigh_def kFrameMagicLow_def kProtocolVersion_def)
qed

section \<open>Witnesses\<close>

definition heartbeat_wire :: bytes where
  "heartbeat_wire = [0x43, 0x48, 1, 2, 0, 0, 0, 0]"

definition heartbeat_frame :: Frame where
  "heartbeat_frame = \<lparr>frame_kind = enumerator heartbeat, frame_body = []\<rparr>"

lemma heartbeat_encodes:
  "encodeFrame (frame_kind heartbeat_frame) (frame_body heartbeat_frame) = Some heartbeat_wire"
  by code_simp

theorem encodeFrame_layout_witness:
  "take 4 heartbeat_wire = [0x43, 0x48, 1, type_code (enumerator heartbeat)]"
  using encodeFrame_layout [of "enumerator heartbeat" "[]"] heartbeat_encodes
  by (simp add: heartbeat_frame_def)

theorem decoder_chunking_witness:
  "decoder_view (fold feedBytes [[0x43], [0x48, 1]] FrameDecoder_init) =
   decoder_view (fold feedBytes [[0x43, 0x48], [1]] FrameDecoder_init)"
  by (rule decoder_chunking) simp

text \<open>Two heartbeats, cut inside both headers, with pops that come too early.\<close>

definition two_heartbeats :: "decoder_op list" where
  "two_heartbeats =
     [Feed (take 3 heartbeat_wire), Pop, Feed (drop 3 heartbeat_wire @ take 1 heartbeat_wire),
      Pop, Pop, Feed (drop 1 heartbeat_wire)]"

lemma two_heartbeats_fed: "fed_bytes two_heartbeats = concat [heartbeat_wire, heartbeat_wire]"
  by (simp add: two_heartbeats_def)

theorem decode_encoded_frames_witness:
  "\<exists>out d. run_decoder two_heartbeats FrameDecoder_init = (out, d) \<and>
     out @ decoded_frames d = [heartbeat_frame, heartbeat_frame] \<and> \<not> hasFailed d"
proof -
  obtain out d where run: "run_decoder two_heartbeats FrameDecoder_init = (out, d)"
    by (cases "run_decoder two_heartbeats FrameDecoder_init")
  from decode_encoded_frames [OF _ two_heartbeats_fed run,
      of "[heartbeat_frame, heartbeat_frame]"]
  show ?thesis using run heartbeat_encodes by simp
qed

lemma two_heartbeats_run:
  "\<exists>d. run_decoder two_heartbeats FrameDecoder_init = ([heartbeat_frame], d) \<and> \<not> hasFailed d"
proof -
  have "fst (run_decoder two_heartbeats FrameDecoder_init) = [heartbeat_frame] \<and>
      \<not> hasFailed (snd (run_decoder two_heartbeats FrameDecoder_init))"
    by code_simp
  then show ?thesis by (cases "run_decoder two_heartbeats FrameDecoder_init") auto
qed

theorem decoded_frames_reencode_witness:
  "\<exists>d ws rest. run_decoder two_heartbeats FrameDecoder_init = ([heartbeat_frame], d) \<and>
     fed_bytes two_heartbeats = concat ws @ rest \<and> length ws = 1 + length (decoded_frames d)"
proof -
  obtain d where run: "run_decoder two_heartbeats FrameDecoder_init = ([heartbeat_frame], d)"
    using two_heartbeats_run by blast
  from decoded_frames_reencode [OF run] run show ?thesis
    by (fastforce dest: list_all2_lengthD)
qed

theorem decoder_buffer_bounded_witness:
  "\<exists>d. run_decoder two_heartbeats FrameDecoder_init = ([heartbeat_frame], d) \<and>
     length (input_buffer d) < 8 + 65536"
  using two_heartbeats_run decoder_buffer_bounded by blast

theorem decoder_failure_final_witness:
  "run_decoder [Pop, Feed heartbeat_wire, Pop] (setFailure bad_magic FrameDecoder_init) =
     ([], setFailure bad_magic FrameDecoder_init)"
  by (rule decoder_failure_final) (simp add: setFailure_def hasFailed_def)

theorem header_judged_on_arrival_witness:
  "decoder_error (feedBytes [0x43, 0x48, 2, 2, 0, 0, 0, 0] FrameDecoder_init) = bad_version \<and>
   decoder_error (feedBytes [0x43, 0x48, 1, 3, 0, 0, 0, 0] FrameDecoder_init) = unknown_type"
proof -
  have "findProtocol (ProtocolType 3) = None" by code_simp
  then show ?thesis
    using header_judged_on_arrival [of "[0x43, 0x48, 2, 2, 0, 0, 0, 0]", OF _ refl]
      header_judged_on_arrival [of "[0x43, 0x48, 1, 3, 0, 0, 0, 0]", OF _ refl]
    by simp
qed

end
