(* ===== verification/Hello.thy ===== *)
theory Hello
  imports Chathub_Prelude "HOL-Library.List_Lexorder"
begin

text \<open>
  \<^verbatim>\<open>shared/include/chathub/contracts/hello.hpp\<close>: the constants and value types of the hello
  exchange and the negotiation of capabilities. \<^verbatim>\<open>std::set<std::string>\<close> is the strictly
  ascending list of its elements, in the order \<^verbatim>\<open>std::less<std::string>\<close> iterates them:
  lexicographic on the unsigned characters, which is \<open><\<close> of \<^theory_text>\<open>List_Lexorder\<close> over
  \<^theory_text>\<open>Char_ord\<close>. The set operations are an interface (locale \<open>ordered_set\<close>) on which the
  lemmas about \<^verbatim>\<open>CapabilitySet\<close> rest.
\<close>

section \<open>Constants\<close>

definition kCapabilityTextV1 :: string where "kCapabilityTextV1 = ''text_v1''"

definition kServerVersion :: string where "kServerVersion = ''1.0''"

definition kSupportClientVersion :: string where "kSupportClientVersion = ''1.0''"

definition kPlatform :: string where "kPlatform = ''windows''"

definition kMaxJsonBytes :: "32 word" where "kMaxJsonBytes = 65536"

definition kMaxTextBytes :: "32 word" where "kMaxTextBytes = 4096"

definition kHeartbeatIdleMs :: "32 word" where "kHeartbeatIdleMs = 20000"

definition kSessionTimeoutMs :: "32 word" where "kSessionTimeoutMs = 60000"

definition kMaxClientVersionBytes :: nat where [simp]: "kMaxClientVersionBytes = 32"

definition kMaxPlatformBytes :: nat where [simp]: "kMaxPlatformBytes = 16"

definition kMaxCapabilityValueBytes :: nat where [simp]: "kMaxCapabilityValueBytes = 64"

definition kMaxCapabilityCount :: nat where [simp]: "kMaxCapabilityCount = 16"

section \<open>Ordered sets of the standard library\<close>

text \<open>
  What the code uses of \<^verbatim>\<open>std::set\<close>: the default constructor, \<^verbatim>\<open>emplace\<close>/\<^verbatim>\<open>insert\<close>,
  \<^verbatim>\<open>contains\<close>, \<^verbatim>\<open>empty\<close>, \<^verbatim>\<open>size\<close> and iteration.
\<close>

fun set_emplace :: "'a :: linorder \<Rightarrow> 'a list \<Rightarrow> 'a list" where
  "set_emplace x [] = [x]"
| "set_emplace x (y # ys) =
     (if x < y then x # y # ys else if x = y then y # ys else y # set_emplace x ys)"

definition set_contains :: "'a list \<Rightarrow> 'a \<Rightarrow> bool" where
  "set_contains xs x = List.member xs x"

abbreviation ascending :: "'a :: linorder list \<Rightarrow> bool" where
  "ascending \<equiv> sorted_wrt (<)"

lemma set_set_emplace [simp]: "set (set_emplace x xs) = insert x (set xs)"
  by (induction xs) auto

lemma ascending_set_emplace [intro]: "ascending xs \<Longrightarrow> ascending (set_emplace x xs)"
  by (induction xs) auto

lemma set_contains_iff [simp]: "set_contains xs x \<longleftrightarrow> x \<in> set xs"
  by (simp add: set_contains_def)

lemma ascending_unique: "ascending xs \<Longrightarrow> ascending ys \<Longrightarrow> set xs = set ys \<Longrightarrow> xs = ys"
  using strict_sorted_equal by blast

lemma ascending_distinct: "ascending xs \<Longrightarrow> distinct xs"
  using strict_sorted_iff by blast

lemma ascending_filter: "ascending xs \<Longrightarrow> ascending (filter P xs)"
  by (rule sorted_wrt_filter)

text \<open>
  The interface. \<open>elements\<close> is the iteration sequence, \<open>inv\<close> the invariant of the
  representation. The client's loops are folds of \<open>emplace\<close>.
\<close>

locale ordered_set =
  fixes empty :: 's
    and emplace :: "'a :: linorder \<Rightarrow> 's \<Rightarrow> 's"
    and contains :: "'s \<Rightarrow> 'a \<Rightarrow> bool"
    and elements :: "'s \<Rightarrow> 'a list"
    and inv :: "'s \<Rightarrow> bool"
  assumes elements_empty: "elements empty = []"
    and inv_empty: "inv empty"
    and inv_emplace: "inv s \<Longrightarrow> inv (emplace x s)"
    and set_emplaced: "inv s \<Longrightarrow> set (elements (emplace x s)) = insert x (set (elements s))"
    and contains_iff: "inv s \<Longrightarrow> contains s x \<longleftrightarrow> x \<in> set (elements s)"
    and elements_ascending: "inv s \<Longrightarrow> ascending (elements s)"
    and extensional: "inv s \<Longrightarrow> inv t \<Longrightarrow> elements s = elements t \<Longrightarrow> s = t"
begin

lemma inv_fold: "inv s \<Longrightarrow> inv (fold emplace xs s)"
  by (induction xs arbitrary: s) (auto intro: inv_emplace)

lemma set_fold: "inv s \<Longrightarrow> set (elements (fold emplace xs s)) = set xs \<union> set (elements s)"
  by (induction xs arbitrary: s) (auto simp: set_emplaced inv_emplace)

lemma equal_iff_same_set:
  assumes "inv s" and "inv t"
  shows "s = t \<longleftrightarrow> set (elements s) = set (elements t)"
  using assms ascending_unique extensional elements_ascending by metis

lemma rebuilt: "inv s \<Longrightarrow> fold emplace (elements s) empty = s"
  by (simp add: equal_iff_same_set inv_fold inv_empty set_fold elements_empty)

text \<open>Copying the elements that pass a test.\<close>

lemma elements_filtered:
  assumes "inv s"
  shows "elements (fold emplace (filter P (elements s)) empty) = filter P (elements s)"
    (is "elements ?t = ?xs")
proof (rule ascending_unique)
  show "ascending (elements ?t)"
    by (simp add: elements_ascending inv_fold inv_empty)
  show "ascending ?xs"
    using elements_ascending [OF assms] by (rule ascending_filter)
qed (simp add: set_fold inv_empty elements_empty)

end

section \<open>Capability sets\<close>

datatype CapabilitySet = CapabilitySet (cap_value: "string list")

definition CapabilitySet_default :: CapabilitySet where
  "CapabilitySet_default = CapabilitySet []"

definition cap_insert :: "string \<Rightarrow> CapabilitySet \<Rightarrow> CapabilitySet" where
  "cap_insert v s = CapabilitySet (set_emplace v (cap_value s))"

text \<open>The constructor from an initializer list emplaces the values in turn.\<close>

definition CapabilitySet_of :: "string list \<Rightarrow> CapabilitySet" where
  "CapabilitySet_of vs = fold cap_insert vs CapabilitySet_default"

definition cap_contains :: "CapabilitySet \<Rightarrow> string \<Rightarrow> bool" where
  "cap_contains s v = set_contains (cap_value s) v"

definition cap_empty :: "CapabilitySet \<Rightarrow> bool" where
  "cap_empty s = (cap_value s = [])"

definition cap_size :: "CapabilitySet \<Rightarrow> nat" where
  "cap_size s = length (cap_value s)"

text \<open>The loop of \<^verbatim>\<open>intersect\<close>: the values of \<open>a\<close> in turn, those of \<open>b\<close> inserted in \<open>out\<close>.\<close>

fun intersect_loop :: "string list \<Rightarrow> CapabilitySet \<Rightarrow> CapabilitySet \<Rightarrow> CapabilitySet" where
  "intersect_loop [] b out = out"
| "intersect_loop (v # vs) b out =
     intersect_loop vs b (if set_contains (cap_value b) v then cap_insert v out else out)"

definition cap_intersect :: "CapabilitySet \<Rightarrow> CapabilitySet \<Rightarrow> CapabilitySet" where
  "cap_intersect a b = intersect_loop (cap_value a) b CapabilitySet_default"

text \<open>The invariant \<^verbatim>\<open>std::set\<close> keeps.\<close>

definition cap_inv :: "CapabilitySet \<Rightarrow> bool" where
  "cap_inv s \<longleftrightarrow> ascending (cap_value s)"

interpretation caps: ordered_set CapabilitySet_default cap_insert cap_contains cap_value cap_inv
  by unfold_locales
    (auto simp: CapabilitySet_default_def cap_insert_def cap_contains_def cap_inv_def
      intro: CapabilitySet.expand)

lemma intersect_loop_fold:
  "intersect_loop vs b out = fold cap_insert (filter (\<lambda>v. v \<in> set (cap_value b)) vs) out"
  by (induction vs arbitrary: out) simp_all

lemma cap_inv_intersect [intro, simp]: "cap_inv (cap_intersect a b)"
  by (simp add: cap_intersect_def intersect_loop_fold caps.inv_fold caps.inv_empty)

lemma cap_inv_of [intro, simp]: "cap_inv (CapabilitySet_of vs)"
  by (simp add: CapabilitySet_of_def caps.inv_fold caps.inv_empty)

lemma set_cap_of [simp]: "set (cap_value (CapabilitySet_of vs)) = set vs"
  by (simp add: CapabilitySet_of_def caps.set_fold caps.inv_empty caps.elements_empty)

lemma set_cap_intersect [simp]:
  "set (cap_value (cap_intersect a b)) = set (cap_value a) \<inter> set (cap_value b)"
  by (auto simp: cap_intersect_def intersect_loop_fold caps.set_fold caps.inv_empty
      caps.elements_empty)

lemma cap_value_intersect:
  "cap_inv a \<Longrightarrow> cap_value (cap_intersect a b) = filter (\<lambda>v. v \<in> set (cap_value b)) (cap_value a)"
  by (simp add: cap_intersect_def intersect_loop_fold caps.elements_filtered)

section \<open>The hello messages\<close>

record HelloRequest =
  client_version :: string
  platform :: string
  req_capabilities :: CapabilitySet

definition HelloRequest_default :: HelloRequest where
  "HelloRequest_default =
     \<lparr>client_version = [], platform = [], req_capabilities = CapabilitySet_default\<rparr>"

record HelloResponse =
  server_version :: string
  server_time :: "64 word"
  max_json :: "32 word"
  max_text :: "32 word"
  heartbeat_idle :: "32 word"
  timeout :: "32 word"
  resp_capabilities :: CapabilitySet

definition HelloResponse_default :: HelloResponse where
  "HelloResponse_default =
     \<lparr>server_version = kServerVersion, server_time = 0,
      max_json = kMaxJsonBytes, max_text = kMaxTextBytes,
      heartbeat_idle = kHeartbeatIdleMs, timeout = kSessionTimeoutMs,
      resp_capabilities = CapabilitySet_default\<rparr>"

section \<open>Properties\<close>

lemma cap_value_sorted:
  "cap_inv s \<Longrightarrow> cap_value s = sorted_list_of_set (set (cap_value s))"
  by (rule ascending_unique) (simp_all add: cap_inv_def)

lemma cap_size_card: "cap_inv s \<Longrightarrow> cap_size s = card (set (cap_value s))"
  by (simp add: cap_size_def cap_inv_def ascending_distinct distinct_card)

lemma cap_empty_iff: "cap_empty s \<longleftrightarrow> set (cap_value s) = {}"
  by (simp add: cap_empty_def)

text \<open>
  C32 (capability sets). A capability set built from any list of values contains exactly
  these values, counts each once, iterates them in ascending order whatever the order and
  the repetitions of the list, and is determined by the set of its values; inserting one
  more value adds exactly that value.
\<close>

theorem capability_set_is_set:
  "(\<forall>v. cap_contains (CapabilitySet_of vs) v \<longleftrightarrow> v \<in> set vs) \<and>
   cap_size (CapabilitySet_of vs) = card (set vs) \<and>
   (cap_empty (CapabilitySet_of vs) \<longleftrightarrow> vs = []) \<and>
   cap_value (CapabilitySet_of vs) = sorted_list_of_set (set vs) \<and>
   (CapabilitySet_of vs = CapabilitySet_of ws \<longleftrightarrow> set vs = set ws) \<and>
   cap_insert v (CapabilitySet_of vs) = CapabilitySet_of (v # vs)"
proof -
  have "cap_insert v (CapabilitySet_of vs) = CapabilitySet_of (v # vs)"
    by (subst caps.equal_iff_same_set) (auto intro: caps.inv_emplace simp: caps.set_emplaced)
  moreover have "CapabilitySet_of vs = CapabilitySet_of ws \<longleftrightarrow> set vs = set ws"
    by (subst caps.equal_iff_same_set) simp_all
  ultimately show ?thesis
    using cap_value_sorted [OF cap_inv_of [of vs]]
    by (simp add: caps.contains_iff cap_size_card cap_empty_iff)
qed

text \<open>
  C31 (capability negotiation). The negotiated set is exactly the intersection of the two
  sets, in ascending order; it does not depend on which side is named first, negotiating
  again with either side changes nothing, a side that supports nothing leaves nothing, and
  it never holds more than either side declared.
\<close>

theorem negotiation_is_intersection:
  assumes "cap_inv a" and "cap_inv b"
  shows "cap_value (cap_intersect a b) =
      sorted_list_of_set (set (cap_value a) \<inter> set (cap_value b)) \<and>
    (\<forall>v. cap_contains (cap_intersect a b) v \<longleftrightarrow> cap_contains a v \<and> cap_contains b v) \<and>
    cap_intersect a b = cap_intersect b a \<and>
    cap_intersect (cap_intersect a b) b = cap_intersect a b \<and>
    cap_intersect a a = a \<and>
    cap_empty (cap_intersect a CapabilitySet_default) \<and>
    cap_size (cap_intersect a b) \<le> min (cap_size a) (cap_size b)"
proof -
  have "card (set (cap_value a) \<inter> set (cap_value b)) \<le> card (set (cap_value a))"
    "card (set (cap_value a) \<inter> set (cap_value b)) \<le> card (set (cap_value b))"
    by (auto intro: card_mono)
  moreover have "cap_intersect a b = cap_intersect b a" "cap_intersect a a = a"
    "cap_intersect (cap_intersect a b) b = cap_intersect a b"
    using assms by (auto simp: caps.equal_iff_same_set)
  moreover have "cap_empty (cap_intersect a CapabilitySet_default)"
    by (simp add: cap_empty_iff caps.elements_empty)
  ultimately show ?thesis
    using assms cap_value_sorted [of "cap_intersect a b"]
    by (simp add: caps.contains_iff cap_size_card Int_commute conj_commute)
qed

theorem negotiation_is_intersection_witness:
  "cap_value (cap_intersect (CapabilitySet_of [''text_v1''])
     (CapabilitySet_of [''text_v1'', ''file_v1''])) = [''text_v1''] \<and>
   cap_intersect (CapabilitySet_of [''text_v1'']) (CapabilitySet_of [''text_v1'', ''file_v1'']) =
   cap_intersect (CapabilitySet_of [''text_v1'', ''file_v1'']) (CapabilitySet_of [''text_v1''])"
  (is "?elems \<and> _")
proof
  show ?elems by code_simp
qed (use negotiation_is_intersection
    [OF cap_inv_of cap_inv_of, of "[''text_v1'']" "[''text_v1'', ''file_v1'']"] in blast)

end
