(* ===== verification/Json_Api.thy ===== *)
theory Json_Api
  imports Complex_Main Utf8 Outcomes
begin

text \<open>
  The JSON libraries under the hello codecs. Boost.JSON (server) and Qt JSON with \<^verbatim>\<open>QString\<close>
  (client) are not part of the repository: each is a record of the operations the codecs
  call, over types of its own, and a parameter of every definition that uses it. What the
  codecs rely on is stated as predicates on these records: the builders are read back by the
  observers (\<open>boost_builders\<close>, \<open>qt_builders\<close>), a \<^verbatim>\<open>QString\<close> keeps UTF-8 text
  (\<open>qt_strings\<close>), and a document written by one library is read by the other as the same
  document (\<open>qt_to_boost\<close>, \<open>boost_to_qt\<close>). None of them speaks of a hello message.
\<close>

section \<open>Doubles\<close>

text \<open>
  \<^verbatim>\<open>double\<close> with IEEE comparisons: every finite value is a rational number, and every
  comparison with a NaN but \<^verbatim>\<open>!=\<close> is false. The sources compare, round down and convert.
\<close>

datatype double = Finite rat | PosInf | NegInf | NaN

fun dbl_less :: "double \<Rightarrow> double \<Rightarrow> bool" where
  "dbl_less (Finite x) (Finite y) = (x < y)"
| "dbl_less (Finite x) PosInf = True"
| "dbl_less NegInf (Finite y) = True"
| "dbl_less NegInf PosInf = True"
| "dbl_less _ _ = False"

definition dbl_eq :: "double \<Rightarrow> double \<Rightarrow> bool" where
  "dbl_eq x y \<longleftrightarrow> x \<noteq> NaN \<and> x = y"

fun dbl_floor :: "double \<Rightarrow> double" where
  "dbl_floor (Finite x) = Finite (of_int \<lfloor>x\<rfloor>)"
| "dbl_floor d = d"

text \<open>
  The conversion to an integer type truncates. It is undefined in C++ for a value out of
  the range of the target; the sources convert after a range check.
\<close>

fun dbl_truncate :: "double \<Rightarrow> int" where
  "dbl_truncate (Finite x) = (if x < 0 then \<lceil>x\<rceil> else \<lfloor>x\<rfloor>)"
| "dbl_truncate _ = 0"

text \<open>The test the client makes on every numeric field, for an integral bound \<open>hi\<close>.\<close>

definition integral_upto :: "int \<Rightarrow> double \<Rightarrow> bool" where
  "integral_upto hi d \<longleftrightarrow>
     \<not> (dbl_less d (Finite 0) \<or> dbl_less (Finite (of_int hi)) d \<or> \<not> dbl_eq (dbl_floor d) d)"

lemma integral_upto_iff:
  "integral_upto hi d \<longleftrightarrow> (\<exists>n. d = Finite (of_int n) \<and> 0 \<le> n \<and> n \<le> hi)"
proof (cases d)
  case (Finite x)
  show ?thesis
  proof
    assume "integral_upto hi d"
    then have "x = of_int \<lfloor>x\<rfloor>" "0 \<le> x" "x \<le> of_int hi"
      by (auto simp: integral_upto_def dbl_eq_def Finite)
    then show "\<exists>n. d = Finite (of_int n) \<and> 0 \<le> n \<and> n \<le> hi"
      using Finite by (metis of_int_0_le_iff of_int_le_iff)
  qed (auto simp: integral_upto_def dbl_eq_def Finite)
qed (auto simp: integral_upto_def dbl_eq_def)

lemma dbl_truncate_integral [simp]: "0 \<le> n \<Longrightarrow> dbl_truncate (Finite (of_int n)) = n"
  by simp

section \<open>Documents\<close>

text \<open>
  The documents the two sides exchange, as a specification: integers only (the codecs write
  no other number), objects as lists of members. \<open>json_view\<close> is how the values of a library
  are observed; \<open>reads\<close> says that a value is observed as a document, with all its members
  and no other.
\<close>

datatype json =
    JBool bool
  | JInt int
  | JString string
  | JArray "json list"
  | JObject "(string \<times> json) list"

record 'v json_view =
  view_bool :: "'v \<Rightarrow> bool option"
  view_int :: "'v \<Rightarrow> int option"
  view_string :: "'v \<Rightarrow> string option"
  view_array :: "'v \<Rightarrow> 'v list option"
  view_members :: "'v \<Rightarrow> (string \<Rightarrow> 'v option) option"

inductive reads :: "'v json_view \<Rightarrow> 'v \<Rightarrow> json \<Rightarrow> bool" for V :: "'v json_view" where
  reads_bool: "view_bool V v = Some b \<Longrightarrow> reads V v (JBool b)"
| reads_int: "view_int V v = Some n \<Longrightarrow> reads V v (JInt n)"
| reads_string: "view_string V v = Some s \<Longrightarrow> reads V v (JString s)"
| reads_array: "view_array V v = Some vs \<Longrightarrow> list_all2 (reads V) vs js \<Longrightarrow> reads V v (JArray js)"
| reads_object: "view_members V v = Some m \<Longrightarrow> distinct (map fst fs) \<Longrightarrow>
    dom m = set (map fst fs) \<Longrightarrow>
    list_all (\<lambda>(k, j). \<exists>w. m k = Some w \<and> reads V w j) fs \<Longrightarrow> reads V v (JObject fs)"
monos list_all2_mono list.pred_mono_strong

inductive_simps reads_simps:
  "reads V v (JBool b)" "reads V v (JInt n)" "reads V v (JString s)"
  "reads V v (JArray js)" "reads V v (JObject fs)"

text \<open>
  The documents the law of interchange speaks of: UTF-8 strings without a leading byte order
  mark (which \<^verbatim>\<open>QString::fromStdString\<close> drops), integers that a \<^verbatim>\<open>double\<close> holds exactly, and
  at most the nesting depth \<open>n\<close> (the limit of \<^verbatim>\<open>boost::json::parse\<close> is 32).
\<close>

definition utf8_string :: "nat list \<Rightarrow> string" where
  "utf8_string cps = map char_of (concat (map utf8_code cps))"

definition plain_text :: "string \<Rightarrow> bool" where
  "plain_text s \<longleftrightarrow> isValidUtf8 s \<and> take 3 s \<noteq> utf8_string [0xFEFF]"

lemma plain_text_ascii [intro]: "ascii s \<Longrightarrow> plain_text s"
proof -
  assume a: "ascii s"
  have "\<not> ascii (utf8_string [0xFEFF])"
    by (simp add: ascii_def utf8_string_def utf8_code_def)
  moreover have "ascii (take 3 s)"
    using a by (auto simp: ascii_def list_all_iff dest: in_set_takeD)
  ultimately have "take 3 s \<noteq> utf8_string [0xFEFF]" by metis
  with isValidUtf8_ascii [OF a] show ?thesis by (simp add: plain_text_def)
qed

definition kMaxSafeInteger :: int where
  "kMaxSafeInteger = 9007199254740991"

definition kJsonDepth :: nat where
  "kJsonDepth = 32"

inductive interchangeable :: "nat \<Rightarrow> json \<Rightarrow> bool" where
  "interchangeable n (JBool b)"
| "\<bar>i\<bar> \<le> kMaxSafeInteger \<Longrightarrow> interchangeable n (JInt i)"
| "plain_text s \<Longrightarrow> interchangeable n (JString s)"
| "list_all (interchangeable n) js \<Longrightarrow> interchangeable (Suc n) (JArray js)"
| "list_all (\<lambda>(k, j). plain_text k \<and> interchangeable n j) fs \<Longrightarrow>
     interchangeable (Suc n) (JObject fs)"
monos list.pred_mono_strong

inductive_simps interchangeable_simps:
  "interchangeable n (JBool b)" "interchangeable n (JInt i)" "interchangeable n (JString s)"
  "interchangeable n (JArray js)" "interchangeable n (JObject fs)"

section \<open>Boost.JSON\<close>

text \<open>
  \<open>'v\<close> is \<^verbatim>\<open>boost::json::value\<close>, \<open>'o\<close> is \<^verbatim>\<open>boost::json::object\<close>; an array is the sequence of
  its values. \<open>bj_parse\<close> is \<open>None\<close> when \<^verbatim>\<open>parse\<close> sets the error code; \<open>bj_find\<close> is \<open>None\<close> for
  \<^verbatim>\<open>end()\<close>; the \<open>as\<close> accessors are called after the matching test only. \<open>bj_if_bool\<close> and
  \<open>bj_to_int\<close> (\<^verbatim>\<open>if_bool\<close>, \<^verbatim>\<open>to_number\<close>) are used by the specification, not by the code.
\<close>

record ('v, 'o) boost_json =
  bj_parse :: "string \<Rightarrow> 'v option"
  bj_serialize :: "'o \<Rightarrow> string"
  bj_is_object :: "'v \<Rightarrow> bool"
  bj_as_object :: "'v \<Rightarrow> 'o"
  bj_find :: "'o \<Rightarrow> string \<Rightarrow> 'v option"
  bj_is_string :: "'v \<Rightarrow> bool"
  bj_as_string :: "'v \<Rightarrow> string"
  bj_is_array :: "'v \<Rightarrow> bool"
  bj_as_array :: "'v \<Rightarrow> 'v list"
  bj_if_bool :: "'v \<Rightarrow> bool option"
  bj_to_int :: "'v \<Rightarrow> int option"
  bj_object :: 'o
  bj_assign :: "'o \<Rightarrow> string \<Rightarrow> 'v \<Rightarrow> 'o"
  bj_of_string :: "string \<Rightarrow> 'v"
  bj_of_int64 :: "64 word \<Rightarrow> 'v"
  bj_of_uint32 :: "32 word \<Rightarrow> 'v"
  bj_of_bool :: "bool \<Rightarrow> 'v"
  bj_of_array :: "'v list \<Rightarrow> 'v"
  bj_of_object :: "'o \<Rightarrow> 'v"

definition boost_view :: "('v, 'o) boost_json \<Rightarrow> 'v json_view" where
  "boost_view B =
     \<lparr>view_bool = bj_if_bool B, view_int = bj_to_int B,
      view_string = (\<lambda>v. if bj_is_string B v then Some (bj_as_string B v) else None),
      view_array = (\<lambda>v. if bj_is_array B v then Some (bj_as_array B v) else None),
      view_members = (\<lambda>v. if bj_is_object B v then Some (bj_find B (bj_as_object B v)) else None)\<rparr>"

text \<open>A value is read back as what it was built from.\<close>

definition boost_builders :: "('v, 'o) boost_json \<Rightarrow> bool" where
  "boost_builders B \<longleftrightarrow>
     (\<forall>s. view_string (boost_view B) (bj_of_string B s) = Some s) \<and>
     (\<forall>w. view_int (boost_view B) (bj_of_int64 B w) = Some (sint w)) \<and>
     (\<forall>w. view_int (boost_view B) (bj_of_uint32 B w) = Some (uint w)) \<and>
     (\<forall>b. view_bool (boost_view B) (bj_of_bool B b) = Some b) \<and>
     (\<forall>vs. view_array (boost_view B) (bj_of_array B vs) = Some vs) \<and>
     (\<forall>ob. view_members (boost_view B) (bj_of_object B ob) = Some (bj_find B ob)) \<and>
     bj_find B (bj_object B) = Map.empty \<and>
     (\<forall>ob k v. bj_find B (bj_assign B ob k v) = (bj_find B ob)(k \<mapsto> v))"

section \<open>Qt JSON and QString\<close>

text \<open>
  \<open>'q\<close> is \<^verbatim>\<open>QString\<close>, \<open>'v\<close> \<^verbatim>\<open>QJsonValue\<close>, \<open>'o\<close> \<^verbatim>\<open>QJsonObject\<close>, \<open>'d\<close> \<^verbatim>\<open>QJsonDocument\<close>; a
  \<^verbatim>\<open>QJsonArray\<close> is the sequence of its values. \<open>q_literal\<close> is \<^verbatim>\<open>QStringLiteral\<close> and
  \<^verbatim>\<open>QString::fromLatin1\<close> of an ASCII literal. \<open>qd_fromJson\<close> returns the document and whether
  the parse error is \<^verbatim>\<open>NoError\<close>; \<open>qo_value\<close> of an absent key is the undefined value, for
  which every test is false. \<open>qo_contains\<close> is used by the specification only.
\<close>

record ('q, 'v, 'o, 'd) qt_json =
  q_fromStdString :: "string \<Rightarrow> 'q"
  q_toStdString :: "'q \<Rightarrow> string"
  q_literal :: "string \<Rightarrow> 'q"
  qd_fromJson :: "string \<Rightarrow> 'd \<times> bool"
  qd_isNull :: "'d \<Rightarrow> bool"
  qd_isObject :: "'d \<Rightarrow> bool"
  qd_object :: "'d \<Rightarrow> 'o"
  qd_of_object :: "'o \<Rightarrow> 'd"
  qd_toJson_compact :: "'d \<Rightarrow> string"
  qo_empty :: 'o
  qo_insert :: "'o \<Rightarrow> 'q \<Rightarrow> 'v \<Rightarrow> 'o"
  qo_value :: "'o \<Rightarrow> 'q \<Rightarrow> 'v"
  qo_contains :: "'o \<Rightarrow> 'q \<Rightarrow> bool"
  qv_isString :: "'v \<Rightarrow> bool"
  qv_toString :: "'v \<Rightarrow> 'q"
  qv_isBool :: "'v \<Rightarrow> bool"
  qv_toBool :: "'v \<Rightarrow> bool"
  qv_isDouble :: "'v \<Rightarrow> bool"
  qv_toDouble :: "'v \<Rightarrow> double"
  qv_isObject :: "'v \<Rightarrow> bool"
  qv_toObject :: "'v \<Rightarrow> 'o"
  qv_isArray :: "'v \<Rightarrow> bool"
  qv_toArray :: "'v \<Rightarrow> 'v list"
  qv_of_string :: "'q \<Rightarrow> 'v"
  qv_of_array :: "'v list \<Rightarrow> 'v"
  qv_of_object :: "'o \<Rightarrow> 'v"

definition qt_view :: "('q, 'v, 'o, 'd) qt_json \<Rightarrow> 'v json_view" where
  "qt_view Q =
     \<lparr>view_bool = (\<lambda>v. if qv_isBool Q v then Some (qv_toBool Q v) else None),
      view_int = (\<lambda>v. if qv_isDouble Q v
        then (case qv_toDouble Q v of Finite x \<Rightarrow> if of_int \<lfloor>x\<rfloor> = x then Some \<lfloor>x\<rfloor> else None | _ \<Rightarrow> None)
        else None),
      view_string = (\<lambda>v. if qv_isString Q v then Some (q_toStdString Q (qv_toString Q v)) else None),
      view_array = (\<lambda>v. if qv_isArray Q v then Some (qv_toArray Q v) else None),
      view_members = (\<lambda>v. if qv_isObject Q v
        then Some (\<lambda>k. if qo_contains Q (qv_toObject Q v) (q_literal Q k)
                       then Some (qo_value Q (qv_toObject Q v) (q_literal Q k)) else None)
        else None)\<rparr>"

definition qo_members :: "('q, 'v, 'o, 'd) qt_json \<Rightarrow> 'o \<Rightarrow> string \<Rightarrow> 'v option" where
  "qo_members Q ob k =
     (if qo_contains Q ob (q_literal Q k) then Some (qo_value Q ob (q_literal Q k)) else None)"

definition qt_strings :: "('q, 'v, 'o, 'd) qt_json \<Rightarrow> bool" where
  "qt_strings Q \<longleftrightarrow> (\<forall>s. plain_text s \<longrightarrow> q_toStdString Q (q_fromStdString Q s) = s)"

definition qt_builders :: "('q, 'v, 'o, 'd) qt_json \<Rightarrow> bool" where
  "qt_builders Q \<longleftrightarrow>
     (\<forall>q. view_string (qt_view Q) (qv_of_string Q q) = Some (q_toStdString Q q)) \<and>
     (\<forall>vs. view_array (qt_view Q) (qv_of_array Q vs) = Some vs) \<and>
     (\<forall>ob. view_members (qt_view Q) (qv_of_object Q ob) = Some (qo_members Q ob)) \<and>
     qo_members Q (qo_empty Q) = Map.empty \<and>
     (\<forall>ob k v. qo_members Q (qo_insert Q ob (q_literal Q k) v) = (qo_members Q ob)(k \<mapsto> v))"

section \<open>Interchange\<close>

definition qt_to_boost :: "('q, 'v, 'o, 'd) qt_json \<Rightarrow> ('w, 'p) boost_json \<Rightarrow> bool" where
  "qt_to_boost Q B \<longleftrightarrow> (\<forall>ob j.
     reads (qt_view Q) (qv_of_object Q ob) j \<longrightarrow> interchangeable kJsonDepth j \<longrightarrow>
     (\<exists>w. bj_parse B (qd_toJson_compact Q (qd_of_object Q ob)) = Some w \<and>
          reads (boost_view B) w j))"

definition boost_to_qt :: "('w, 'p) boost_json \<Rightarrow> ('q, 'v, 'o, 'd) qt_json \<Rightarrow> bool" where
  "boost_to_qt B Q \<longleftrightarrow> (\<forall>ob j.
     reads (boost_view B) (bj_of_object B ob) j \<longrightarrow> interchangeable kJsonDepth j \<longrightarrow>
     (\<exists>d. qd_fromJson Q (bj_serialize B ob) = (d, True) \<and>
          \<not> qd_isNull Q d \<and> qd_isObject Q d \<and>
          reads (qt_view Q) (qv_of_object Q (qd_object Q d)) j))"

end
