(* ===== verification/Hello_Wire.thy ===== *)
theory Hello_Wire
  imports Json_Api Hello Ids
begin

text \<open>
  What the two hello codecs share: the phrases of their error details, which are Chinese
  text in UTF-8 in the sources, and the bounds of the wire fields.
\<close>

section \<open>Phrases of the error details\<close>

text \<open>missing or not a string\<close>

definition t_missing_or_not_string :: string where
  "t_missing_or_not_string = '' '' @ utf8_string [0x7F3A, 0x5931, 0x6216, 0x975E, 0x5B57, 0x7B26, 0x4E32]"

text \<open>illegal length\<close>

definition t_bad_length :: string where
  "t_bad_length = '' '' @ utf8_string [0x957F, 0x5EA6, 0x975E, 0x6CD5]"

text \<open>missing or not an object\<close>

definition t_missing_or_not_object :: string where
  "t_missing_or_not_object = '' '' @ utf8_string [0x7F3A, 0x5931, 0x6216, 0x975E, 0x5BF9, 0x8C61]"

text \<open>missing or not an array\<close>

definition t_missing_or_not_array :: string where
  "t_missing_or_not_array = '' '' @ utf8_string [0x7F3A, 0x5931, 0x6216, 0x975E, 0x6570, 0x7EC4]"

text \<open>too many\<close>

definition t_too_many :: string where
  "t_too_many = '' '' @ utf8_string [0x6570, 0x91CF, 0x8D85, 0x9650]"

text \<open>not a string\<close>

definition t_not_a_string :: string where
  "t_not_a_string = '' '' @ utf8_string [0x975E, 0x5B57, 0x7B26, 0x4E32]"

text \<open>not a legal (JSON text, UUID)\<close>

definition t_not_legal :: string where
  "t_not_legal = '' '' @ utf8_string [0x975E, 0x5408, 0x6CD5] @ '' ''"

text \<open>the root must be an object\<close>

definition t_root_not_object :: string where
  "t_root_not_object = '' '' @ utf8_string [0x6839, 0x5FC5, 0x987B, 0x662F, 0x5BF9, 0x8C61]"

text \<open>the body exceeds 64 KiB\<close>

definition t_body_too_large :: string where
  "t_body_too_large = utf8_string [0x6B63, 0x6587, 0x8D85, 0x8FC7] @ '' 64 KiB''"

text \<open>ok is not true\<close>

definition t_ok_not_true :: string where
  "t_ok_not_true = '' ok '' @ utf8_string [0x975E] @ '' true''"

text \<open>not a number\<close>

definition t_not_a_number :: string where
  "t_not_a_number = '' '' @ utf8_string [0x975E, 0x6570, 0x503C]"

text \<open>illegal\<close>

definition t_illegal :: string where
  "t_illegal = '' '' @ utf8_string [0x975E, 0x6CD5]"

text \<open>a connection parameter is missing or illegal\<close>

definition t_parameters_bad :: string where
  "t_parameters_bad = utf8_string [0x8FDE, 0x63A5, 0x53C2, 0x6570, 0x5B57, 0x6BB5, 0x7F3A, 0x5931, 0x6216, 0x975E, 0x6CD5]"

section \<open>Bounds of the fields\<close>

text \<open>A text field of at least one and at most \<open>n\<close> bytes, and a list of capabilities on the wire.\<close>

definition bounded_text :: "nat \<Rightarrow> string \<Rightarrow> bool" where
  "bounded_text n s \<longleftrightarrow> s \<noteq> [] \<and> length s \<le> n"

definition wire_capabilities :: "string list \<Rightarrow> bool" where
  "wire_capabilities cs \<longleftrightarrow>
     length cs \<le> kMaxCapabilityCount \<and> list_all (bounded_text kMaxCapabilityValueBytes) cs"

end
