(* ===== verification/Server_Codec.thy ===== *)
theory Server_Codec
  imports Hello_Wire
begin

text \<open>
  \<^verbatim>\<open>chat-server/src/hello_codec.cpp\<close>: the server's codec of the hello exchange, over an
  implementation \<open>B\<close> of Boost.JSON. \<^verbatim>\<open>decodeHelloRequest\<close> has an output parameter: the model
  takes its value and returns the one it has afterwards, beside the outcome.
\<close>

section \<open>Errors\<close>

definition server_kInvalidJson :: string where
  "server_kInvalidJson = ''invalid_json''"

definition server_kInvalidRequestId :: string where
  "server_kInvalidRequestId = ''invalid_request_id''"

definition server_kInvalidRequest :: string where
  "server_kInvalidRequest = ''invalid_request''"

definition server_invalidJson :: "string \<Rightarrow> Error" where
  "server_invalidJson d = \<lparr>code = server_kInvalidJson, detail = d\<rparr>"

definition server_invalidRequestId :: "string \<Rightarrow> Error" where
  "server_invalidRequestId d = \<lparr>code = server_kInvalidRequestId, detail = d\<rparr>"

definition server_invalidRequest :: "string \<Rightarrow> Error" where
  "server_invalidRequest d = \<lparr>code = server_kInvalidRequest, detail = d\<rparr>"

section \<open>Decoding a request\<close>

text \<open>The loop over the capability array.\<close>

fun request_capabilities ::
  "('v, 'o) boost_json \<Rightarrow> 'v list \<Rightarrow> CapabilitySet \<Rightarrow> CapabilitySet Outcome" where
  "request_capabilities B [] out = Ok out"
| "request_capabilities B (item # items) out =
     (if \<not> bj_is_string B item
      then Err (server_invalidRequest (''capability'' @ t_not_a_string))
      else let cap_sv = bj_as_string B item
      in if cap_sv = [] \<or> kMaxCapabilityValueBytes < length cap_sv
      then Err (server_invalidRequest (''capability'' @ t_bad_length))
      else request_capabilities B items (cap_insert cap_sv out))"

text \<open>The checks on the \<^verbatim>\<open>data\<close> object, in the order of the source.\<close>

definition request_data :: "('v, 'o) boost_json \<Rightarrow> 'o \<Rightarrow> HelloRequest Outcome" where
  "request_data B data =
     (let out = HelloRequest_default; cv_it = bj_find B data ''client_version''
      in if Option.is_none cv_it \<or> \<not> bj_is_string B (the cv_it)
      then Err (server_invalidRequest (''client_version'' @ t_missing_or_not_string))
      else let cv_sv = bj_as_string B (the cv_it)
      in if cv_sv = [] \<or> kMaxClientVersionBytes < length cv_sv
      then Err (server_invalidRequest (''client_version'' @ t_bad_length))
      else let out = out\<lparr>client_version := cv_sv\<rparr>; pf_it = bj_find B data ''platform''
      in if Option.is_none pf_it \<or> \<not> bj_is_string B (the pf_it)
      then Err (server_invalidRequest (''platform'' @ t_missing_or_not_string))
      else let pf_sv = bj_as_string B (the pf_it)
      in if pf_sv = [] \<or> kMaxPlatformBytes < length pf_sv
      then Err (server_invalidRequest (''platform'' @ t_bad_length))
      else let out = out\<lparr>platform := pf_sv\<rparr>; cap_it = bj_find B data ''capabilities''
      in if Option.is_none cap_it \<or> \<not> bj_is_array B (the cap_it)
      then Err (server_invalidRequest (''capabilities'' @ t_missing_or_not_array))
      else let cap_arr = bj_as_array B (the cap_it)
      in if kMaxCapabilityCount < length cap_arr
      then Err (server_invalidRequest (''capabilities'' @ t_too_many))
      else case request_capabilities B cap_arr (req_capabilities out) of
        Err e \<Rightarrow> Err e
      | Ok caps \<Rightarrow> Ok (out\<lparr>req_capabilities := caps\<rparr>))"

definition decodeHelloRequest ::
  "('v, 'o) boost_json \<Rightarrow> string \<Rightarrow> RequestId \<Rightarrow> HelloRequest Outcome \<times> RequestId" where
  "decodeHelloRequest B json out_request_id =
     (if unat kMaxJsonBytes < length json
      then (Err (server_invalidRequest t_body_too_large), out_request_id)
      else case bj_parse B json of
        None \<Rightarrow> (Err (server_invalidJson (''hello_request'' @ t_not_legal @ ''JSON'')), out_request_id)
      | Some doc_root \<Rightarrow>
      if \<not> bj_is_object B doc_root
      then (Err (server_invalidRequest (''hello_request'' @ t_root_not_object)), out_request_id)
      else let obj = bj_as_object B doc_root; id_it = bj_find B obj ''request_id''
      in if Option.is_none id_it \<or> \<not> bj_is_string B (the id_it)
      then (Err (server_invalidRequestId (''request_id'' @ t_missing_or_not_string)), out_request_id)
      else let id_sv = bj_as_string B (the id_it)
      in case UuidId_parse id_sv of
        None \<Rightarrow> (Err (server_invalidRequestId (''request_id'' @ t_not_legal @ ''UUID'')), out_request_id)
      | Some parsed_id \<Rightarrow>
      let out_request_id = parsed_id; data_it = bj_find B obj ''data''
      in if Option.is_none data_it \<or> \<not> bj_is_object B (the data_it)
      then (Err (server_invalidRequest (''data'' @ t_missing_or_not_object)), out_request_id)
      else (request_data B (bj_as_object B (the data_it)), out_request_id))"

section \<open>Encoding a response\<close>

definition response_data :: "('v, 'o) boost_json \<Rightarrow> HelloResponse \<Rightarrow> 'o" where
  "response_data B response =
     (let data = bj_object B;
          data = bj_assign B data ''server_version'' (bj_of_string B (server_version response));
          data = bj_assign B data ''server_time'' (bj_of_int64 B (server_time response));
          data = bj_assign B data ''max_json'' (bj_of_uint32 B (max_json response));
          data = bj_assign B data ''max_text'' (bj_of_uint32 B (max_text response));
          data = bj_assign B data ''heartbeat_idle'' (bj_of_uint32 B (heartbeat_idle response));
          data = bj_assign B data ''timeout'' (bj_of_uint32 B (timeout response));
          caps = map (bj_of_string B) (cap_value (resp_capabilities response))
      in bj_assign B data ''capabilities'' (bj_of_array B caps))"

definition response_root :: "('v, 'o) boost_json \<Rightarrow> RequestId \<Rightarrow> HelloResponse \<Rightarrow> 'o" where
  "response_root B request_id response =
     (let doc_root = bj_object B;
          doc_root = bj_assign B doc_root ''request_id'' (bj_of_string B (uuid_value request_id));
          doc_root = bj_assign B doc_root ''ok'' (bj_of_bool B True)
      in bj_assign B doc_root ''data'' (bj_of_object B (response_data B response)))"

definition encodeHelloResponse ::
  "('v, 'o) boost_json \<Rightarrow> RequestId \<Rightarrow> HelloResponse \<Rightarrow> string" where
  "encodeHelloResponse B request_id response =
     bj_serialize B (response_root B request_id response)"

section \<open>What a decoded request is\<close>

text \<open>A member of an object with the kind the decoder asks for.\<close>

definition has_string :: "('v, 'o) boost_json \<Rightarrow> 'o \<Rightarrow> string \<Rightarrow> string \<Rightarrow> bool" where
  "has_string B ob k s \<longleftrightarrow>
     (\<exists>v. bj_find B ob k = Some v \<and> bj_is_string B v \<and> bj_as_string B v = s)"

definition has_array :: "('v, 'o) boost_json \<Rightarrow> 'o \<Rightarrow> string \<Rightarrow> 'v list \<Rightarrow> bool" where
  "has_array B ob k vs \<longleftrightarrow>
     (\<exists>v. bj_find B ob k = Some v \<and> bj_is_array B v \<and> bj_as_array B v = vs)"

definition has_object :: "('v, 'o) boost_json \<Rightarrow> 'o \<Rightarrow> string \<Rightarrow> 'o \<Rightarrow> bool" where
  "has_object B ob k ob' \<longleftrightarrow>
     (\<exists>v. bj_find B ob k = Some v \<and> bj_is_object B v \<and> bj_as_object B v = ob')"

lemmas has_defs = has_string_def has_array_def has_object_def

text \<open>The request an object of the wire carries, within the documented bounds.\<close>

definition carries_request :: "('v, 'o) boost_json \<Rightarrow> 'o \<Rightarrow> HelloRequest \<Rightarrow> bool" where
  "carries_request B data r \<longleftrightarrow> (\<exists>arr.
     has_string B data ''client_version'' (client_version r) \<and>
     bounded_text kMaxClientVersionBytes (client_version r) \<and>
     has_string B data ''platform'' (platform r) \<and>
     bounded_text kMaxPlatformBytes (platform r) \<and>
     has_array B data ''capabilities'' arr \<and> list_all (bj_is_string B) arr \<and>
     wire_capabilities (map (bj_as_string B) arr) \<and>
     req_capabilities r = CapabilitySet_of (map (bj_as_string B) arr))"

lemma server_codes [simp]:
  "code (server_invalidJson d) = ''invalid_json''"
  "code (server_invalidRequestId d) = ''invalid_request_id''"
  "code (server_invalidRequest d) = ''invalid_request''"
  by (simp_all add: server_invalidJson_def server_invalidRequestId_def server_invalidRequest_def
      server_kInvalidJson_def server_kInvalidRequestId_def server_kInvalidRequest_def)

lemma request_capabilities_Ok:
  "request_capabilities B items out = Ok s \<longleftrightarrow>
     list_all (bj_is_string B) items \<and>
     list_all (bounded_text kMaxCapabilityValueBytes) (map (bj_as_string B) items) \<and>
     s = fold cap_insert (map (bj_as_string B) items) out"
  by (induction items arbitrary: out) (auto simp: Let_def bounded_text_def not_less)

lemma request_capabilities_Err:
  "request_capabilities B items out = Err e \<Longrightarrow> code e = ''invalid_request''"
  by (induction items arbitrary: out) (auto simp: Let_def split: if_splits)

lemma none_or [simp]: "Option.is_none x \<or> P (the x) \<longleftrightarrow> (case x of None \<Rightarrow> True | Some v \<Rightarrow> P v)"
  by (cases x) simp_all

lemma request_data_Ok: "request_data B data = Ok r \<longleftrightarrow> carries_request B data r"
proof (cases "bj_find B data ''client_version''")
  case (Some cv)
  note cv = Some
  show ?thesis
  proof (cases "bj_find B data ''platform''")
    case (Some pf)
    note pf = Some
    show ?thesis
    proof (cases "bj_find B data ''capabilities''")
      case (Some cap)
      have "request_data B data = Ok r \<longleftrightarrow>
          bj_is_string B cv \<and> bounded_text kMaxClientVersionBytes (bj_as_string B cv) \<and>
          bj_is_string B pf \<and> bounded_text kMaxPlatformBytes (bj_as_string B pf) \<and>
          bj_is_array B cap \<and> length (bj_as_array B cap) \<le> kMaxCapabilityCount \<and>
          (\<exists>caps. request_capabilities B (bj_as_array B cap) CapabilitySet_default = Ok caps \<and>
            r = \<lparr>client_version = bj_as_string B cv, platform = bj_as_string B pf,
                 req_capabilities = caps\<rparr>)"
        by (simp add: request_data_def Let_def cv pf Some HelloRequest_default_def bounded_text_def
            not_less split: Outcome.splits) auto
      then show ?thesis
        by (auto simp: carries_request_def has_defs cv pf Some wire_capabilities_def
            CapabilitySet_of_def request_capabilities_Ok)
    qed (simp_all add: request_data_def carries_request_def has_defs Let_def cv pf)
  qed (simp_all add: request_data_def carries_request_def has_defs Let_def cv)
qed (simp_all add: request_data_def carries_request_def has_defs Let_def)

lemma request_data_Err: "request_data B data = Err e \<Longrightarrow> code e = ''invalid_request''"
  by (auto simp: request_data_def Let_def dest: request_capabilities_Err
      split: if_splits Outcome.splits)

text \<open>
  The identifier the envelope of a request carries: a root object with a \<open>request_id\<close> that
  is a UUID. It is there before anything else of the request is looked at.
\<close>

definition request_root :: "('v, 'o) boost_json \<Rightarrow> string \<Rightarrow> 'o option" where
  "request_root B json =
     (if unat kMaxJsonBytes < length json then None
      else case bj_parse B json of
        None \<Rightarrow> None
      | Some v \<Rightarrow> if bj_is_object B v then Some (bj_as_object B v) else None)"

definition request_envelope_id :: "('v, 'o) boost_json \<Rightarrow> string \<Rightarrow> RequestId option" where
  "request_envelope_id B json =
     (case request_root B json of
        None \<Rightarrow> None
      | Some ob \<Rightarrow> (case bj_find B ob ''request_id'' of
          None \<Rightarrow> None
        | Some v \<Rightarrow> if bj_is_string B v then UuidId_parse (bj_as_string B v) else None))"

text \<open>The four ways an envelope can fail, and the one it can succeed.\<close>

lemma envelope_cases [case_names too_long not_json not_object no_id with_id]:
  assumes "unat kMaxJsonBytes < length json \<Longrightarrow> P"
    and "\<not> unat kMaxJsonBytes < length json \<Longrightarrow> bj_parse B json = None \<Longrightarrow> P"
    and "\<And>v. \<not> unat kMaxJsonBytes < length json \<Longrightarrow> bj_parse B json = Some v \<Longrightarrow>
      \<not> bj_is_object B v \<Longrightarrow> P"
    and "\<And>v. \<not> unat kMaxJsonBytes < length json \<Longrightarrow> bj_parse B json = Some v \<Longrightarrow>
      bj_is_object B v \<Longrightarrow> request_envelope_id B json = None \<Longrightarrow> P"
    and "\<And>v w i. \<not> unat kMaxJsonBytes < length json \<Longrightarrow> bj_parse B json = Some v \<Longrightarrow>
      bj_is_object B v \<Longrightarrow> bj_find B (bj_as_object B v) ''request_id'' = Some w \<Longrightarrow>
      bj_is_string B w \<Longrightarrow> UuidId_parse (bj_as_string B w) = Some i \<Longrightarrow>
      request_envelope_id B json = Some i \<Longrightarrow> P"
  shows P
proof (cases "request_root B json")
  case None
  with assms(1-3) show P
    by (auto simp: request_root_def split: if_splits option.splits)
next
  case (Some ob)
  then obtain v where v: "\<not> unat kMaxJsonBytes < length json" "bj_parse B json = Some v"
      "bj_is_object B v" "ob = bj_as_object B v"
    by (auto simp: request_root_def split: if_splits option.splits)
  show P
  proof (cases "request_envelope_id B json")
    case None
    with assms(4) v show P by blast
  next
    case i: (Some i)
    with Some v show P
      by (auto simp: request_envelope_id_def split: option.splits if_splits intro: assms(5))
  qed
qed

lemma decodeHelloRequest_no_id:
  assumes "request_envelope_id B json = None"
  shows "\<exists>e. decodeHelloRequest B json id0 = (Err e, id0) \<and>
    code e = (if unat kMaxJsonBytes < length json then ''invalid_request''
      else case bj_parse B json of
        None \<Rightarrow> ''invalid_json''
      | Some v \<Rightarrow> if bj_is_object B v then ''invalid_request_id'' else ''invalid_request'')"
proof (cases rule: envelope_cases [where B = B and json = json])
  case (no_id v)
  show ?thesis
  proof (cases "bj_find B (bj_as_object B v) ''request_id''")
    case (Some w)
    with no_id show ?thesis
      by (cases "bj_is_string B w")
        (simp_all add: request_envelope_id_def request_root_def decodeHelloRequest_def)
  qed (use no_id in \<open>simp_all add: decodeHelloRequest_def\<close>)
qed (use assms in \<open>simp_all add: decodeHelloRequest_def\<close>)

lemma decodeHelloRequest_id:
  assumes "request_envelope_id B json = Some i"
  shows "decodeHelloRequest B json id0 =
    ((case bj_find B (the (request_root B json)) ''data'' of
        None \<Rightarrow> Err (server_invalidRequest (''data'' @ t_missing_or_not_object))
      | Some v \<Rightarrow> if bj_is_object B v then request_data B (bj_as_object B v)
                 else Err (server_invalidRequest (''data'' @ t_missing_or_not_object))), i)"
proof (cases rule: envelope_cases [where B = B and json = json])
  case (with_id v w j)
  with assms show ?thesis
    by (cases "bj_find B (bj_as_object B v) ''data''")
      (simp_all add: decodeHelloRequest_def request_root_def)
qed (use assms in \<open>simp_all add: request_envelope_id_def request_root_def\<close>)

lemma request_envelope_id_Some:
  "request_envelope_id B json = Some i \<longleftrightarrow>
     length json \<le> unat kMaxJsonBytes \<and> isUuid (uuid_value i) \<and>
     (\<exists>v. bj_parse B json = Some v \<and> bj_is_object B v \<and>
       has_string B (bj_as_object B v) ''request_id'' (uuid_value i))"
  by (cases i) (auto simp: request_envelope_id_def request_root_def has_string_def
      UuidId_parse_Some not_less split: option.splits if_splits)

section \<open>Properties of the decoder\<close>

text \<open>
  C6 (accepted hello requests). The server accepts a text as the request \<open>r\<close> with the
  identifier \<open>i\<close> exactly when the text has at most 65536 bytes and parses to an object whose
  \<open>request_id\<close> is the lower-case version 4 UUID \<open>i\<close> and whose \<open>data\<close> object has a
  \<open>client_version\<close> of 1 to 32 bytes, a \<open>platform\<close> of 1 to 16 bytes and an array of at most
  16 \<open>capabilities\<close> of 1 to 64 bytes each, all strings, which are the fields of \<open>r\<close>, the
  capabilities as a set. It holds for every JSON library.
\<close>

theorem decodeHelloRequest_accepts:
  "decodeHelloRequest B json id0 = (Ok r, i) \<longleftrightarrow>
     length json \<le> 65536 \<and> isUuid (uuid_value i) \<and>
     (\<exists>v data arr. bj_parse B json = Some v \<and> bj_is_object B v \<and>
       has_string B (bj_as_object B v) ''request_id'' (uuid_value i) \<and>
       has_object B (bj_as_object B v) ''data'' data \<and>
       has_string B data ''client_version'' (client_version r) \<and>
       1 \<le> length (client_version r) \<and> length (client_version r) \<le> 32 \<and>
       has_string B data ''platform'' (platform r) \<and>
       1 \<le> length (platform r) \<and> length (platform r) \<le> 16 \<and>
       has_array B data ''capabilities'' arr \<and> list_all (bj_is_string B) arr \<and>
       length arr \<le> 16 \<and>
       list_all (\<lambda>c. 1 \<le> length c \<and> length c \<le> 64) (map (bj_as_string B) arr) \<and>
       req_capabilities r = CapabilitySet_of (map (bj_as_string B) arr))"
  (is "?lhs \<longleftrightarrow> ?rhs")
proof -
  have "bounded_text n s \<longleftrightarrow> 1 \<le> length s \<and> length s \<le> n" for n s
    by (cases s) (simp_all add: bounded_text_def)
  then have bounds: "bounded_text n = (\<lambda>s. 1 \<le> length s \<and> length s \<le> n)" for n
    by blast
  have "?lhs \<longleftrightarrow> request_envelope_id B json = Some i \<and>
      (\<exists>data. has_object B (the (request_root B json)) ''data'' data \<and> carries_request B data r)"
  proof (cases "request_envelope_id B json")
    case None
    with decodeHelloRequest_no_id [OF None, of id0] show ?thesis by auto
  next
    case (Some j)
    then show ?thesis
      by (auto simp: decodeHelloRequest_id [OF Some] request_data_Ok has_object_def
          split: option.splits if_splits)
  qed
  also have "\<dots> \<longleftrightarrow> ?rhs"
    by (simp add: request_envelope_id_Some request_root_def carries_request_def bounds
        wire_capabilities_def kMaxJsonBytes_def)
      (auto split: option.splits)
  finally show ?thesis .
qed

text \<open>
  C14 (hello request errors). Decoding a request always gives one of the documented outcomes,
  whatever the JSON library does. The caller's identifier is overwritten exactly when the
  envelope carries a legal one, also if a later check fails, so that an error can be
  answered under the right \<open>request_id\<close>. Without one the error code says why, in this order:
  too long, not JSON, not an object, no legal identifier; with one, the only error code left
  is \<open>invalid_request\<close>.
\<close>

theorem decodeHelloRequest_errors:
  "(case request_envelope_id B json of
      None \<Rightarrow> \<exists>e. decodeHelloRequest B json id0 = (Err e, id0) \<and> isSnakeCaseCode (code e) \<and>
        code e = (if 65536 < length json then ''invalid_request''
          else case bj_parse B json of
            None \<Rightarrow> ''invalid_json''
          | Some v \<Rightarrow> if bj_is_object B v then ''invalid_request_id'' else ''invalid_request'')
    | Some i \<Rightarrow> \<exists>result. decodeHelloRequest B json id0 = (result, i) \<and>
        (case result of Ok r \<Rightarrow> cap_inv (req_capabilities r)
         | Err e \<Rightarrow> code e = ''invalid_request'' \<and> isSnakeCaseCode (code e)))"
proof (cases "request_envelope_id B json")
  case None
  have snake: "isSnakeCaseCode ''invalid_request''" "isSnakeCaseCode ''invalid_json''"
    "isSnakeCaseCode ''invalid_request_id''" by code_simp+
  from decodeHelloRequest_no_id [OF None, of id0] show ?thesis
    by (auto simp: kMaxJsonBytes_def None snake split: option.splits)
next
  case (Some i)
  have snake: "isSnakeCaseCode ''invalid_request''" by code_simp
  show ?thesis
    by (auto simp: Some decodeHelloRequest_id [OF Some] request_data_Ok carries_request_def snake
        dest: request_data_Err split: option.splits Outcome.splits)
qed

end
