(* ===== verification/Client_Codec.thy ===== *)
theory Client_Codec
  imports Hello_Wire
begin

text \<open>
  \<^verbatim>\<open>client-qt/src/hello_codec.cpp\<close>: the client's codec of the hello exchange, over an
  implementation \<open>Q\<close> of Qt JSON and \<^verbatim>\<open>QString\<close>.
\<close>

section \<open>Errors\<close>

definition client_kInvalidJson :: string where
  "client_kInvalidJson = ''invalid_json''"

definition client_kInvalidRequestId :: string where
  "client_kInvalidRequestId = ''invalid_request_id''"

definition client_kInvalidRequest :: string where
  "client_kInvalidRequest = ''invalid_request''"

definition client_invalidJson :: "string \<Rightarrow> Error" where
  "client_invalidJson d = \<lparr>code = client_kInvalidJson, detail = d\<rparr>"

definition client_invalidRequestId :: "string \<Rightarrow> Error" where
  "client_invalidRequestId d = \<lparr>code = client_kInvalidRequestId, detail = d\<rparr>"

definition client_invalidRequest :: "string \<Rightarrow> Error" where
  "client_invalidRequest d = \<lparr>code = client_kInvalidRequest, detail = d\<rparr>"

section \<open>Encoding a request\<close>

definition request_data_object :: "('q, 'v, 'o, 'd) qt_json \<Rightarrow> HelloRequest \<Rightarrow> 'o" where
  "request_data_object Q request =
     (let data = qo_empty Q;
          data = qo_insert Q data (q_literal Q ''client_version'')
            (qv_of_string Q (q_fromStdString Q (client_version request)));
          data = qo_insert Q data (q_literal Q ''platform'')
            (qv_of_string Q (q_fromStdString Q (platform request)));
          caps = map (\<lambda>c. qv_of_string Q (q_fromStdString Q c)) (cap_value (req_capabilities request))
      in qo_insert Q data (q_literal Q ''capabilities'') (qv_of_array Q caps))"

definition request_root_object ::
  "('q, 'v, 'o, 'd) qt_json \<Rightarrow> RequestId \<Rightarrow> HelloRequest \<Rightarrow> 'o" where
  "request_root_object Q request_id request =
     (let doc_root = qo_empty Q;
          doc_root = qo_insert Q doc_root (q_literal Q ''request_id'')
            (qv_of_string Q (q_fromStdString Q (uuid_value request_id)))
      in qo_insert Q doc_root (q_literal Q ''data'')
           (qv_of_object Q (request_data_object Q request)))"

definition encodeHelloRequest ::
  "('q, 'v, 'o, 'd) qt_json \<Rightarrow> RequestId \<Rightarrow> HelloRequest \<Rightarrow> string Outcome" where
  "encodeHelloRequest Q request_id request =
     Ok (qd_toJson_compact Q (qd_of_object Q (request_root_object Q request_id request)))"

section \<open>Decoding a response\<close>

text \<open>
  The lambda \<^verbatim>\<open>read_uint32\<close>: \<open>None\<close> where it returns false (its target is then not
  assigned and the caller returns an error).
\<close>

definition read_uint32 :: "('q, 'v, 'o, 'd) qt_json \<Rightarrow> 'o \<Rightarrow> string \<Rightarrow> 32 word option" where
  "read_uint32 Q data key =
     (let v = qo_value Q data (q_literal Q key)
      in if \<not> qv_isDouble Q v then None
      else let d = qv_toDouble Q v
      in if dbl_less d (Finite 0) \<or> dbl_less (Finite 4294967295) d \<or> \<not> dbl_eq (dbl_floor d) d
      then None
      else Some (word_of_int (dbl_truncate d)))"

fun response_capabilities ::
  "('q, 'v, 'o, 'd) qt_json \<Rightarrow> 'v list \<Rightarrow> CapabilitySet \<Rightarrow> CapabilitySet Outcome" where
  "response_capabilities Q [] out = Ok out"
| "response_capabilities Q (item # items) out =
     (if \<not> qv_isString Q item
      then Err (client_invalidRequest (''capability'' @ t_not_a_string))
      else let c = q_toStdString Q (qv_toString Q item)
      in if c = [] \<or> kMaxCapabilityValueBytes < length c
      then Err (client_invalidRequest (''capability'' @ t_bad_length))
      else response_capabilities Q items (cap_insert c out))"

text \<open>The four connection parameters; \<^verbatim>\<open>||\<close> stops at the first that fails.\<close>

definition read_parameters ::
  "('q, 'v, 'o, 'd) qt_json \<Rightarrow> 'o \<Rightarrow> HelloResponse \<Rightarrow> HelloResponse option" where
  "read_parameters Q data out =
     (case read_uint32 Q data ''max_json'' of None \<Rightarrow> None | Some a \<Rightarrow>
      case read_uint32 Q data ''max_text'' of None \<Rightarrow> None | Some b \<Rightarrow>
      case read_uint32 Q data ''heartbeat_idle'' of None \<Rightarrow> None | Some c \<Rightarrow>
      case read_uint32 Q data ''timeout'' of None \<Rightarrow> None | Some d \<Rightarrow>
      Some (out\<lparr>max_json := a, max_text := b, heartbeat_idle := c, timeout := d\<rparr>))"

definition read_response_data ::
  "('q, 'v, 'o, 'd) qt_json \<Rightarrow> 'o \<Rightarrow> HelloResponse Outcome" where
  "read_response_data Q data =
     (let out = HelloResponse_default; ver_v = qo_value Q data (q_literal Q ''server_version'')
      in if \<not> qv_isString Q ver_v
      then Err (client_invalidRequest (''server_version'' @ t_missing_or_not_string))
      else let ver = q_toStdString Q (qv_toString Q ver_v)
      in if ver = [] \<or> kMaxClientVersionBytes < length ver
      then Err (client_invalidRequest (''server_version'' @ t_bad_length))
      else let out = out\<lparr>server_version := ver\<rparr>;
               time_v = qo_value Q data (q_literal Q ''server_time'')
      in if \<not> qv_isDouble Q time_v
      then Err (client_invalidRequest (''server_time'' @ t_not_a_number))
      else let time_d = qv_toDouble Q time_v
      in if dbl_less time_d (Finite 0) \<or> dbl_less (Finite (of_int kMaxSafeInteger)) time_d \<or>
            \<not> dbl_eq (dbl_floor time_d) time_d
      then Err (client_invalidRequest (''server_time'' @ t_illegal))
      else let out = out\<lparr>server_time := word_of_int (dbl_truncate time_d)\<rparr>
      in case read_parameters Q data out of
        None \<Rightarrow> Err (client_invalidRequest t_parameters_bad)
      | Some out \<Rightarrow>
      let cap_v = qo_value Q data (q_literal Q ''capabilities'')
      in if \<not> qv_isArray Q cap_v
      then Err (client_invalidRequest (''capabilities'' @ t_missing_or_not_array))
      else let cap_arr = qv_toArray Q cap_v
      in if kMaxCapabilityCount < length cap_arr
      then Err (client_invalidRequest (''capabilities'' @ t_too_many))
      else case response_capabilities Q cap_arr (resp_capabilities out) of
        Err e \<Rightarrow> Err e
      | Ok caps \<Rightarrow> Ok (out\<lparr>resp_capabilities := caps\<rparr>))"

definition decodeHelloResponse ::
  "('q, 'v, 'o, 'd) qt_json \<Rightarrow> string \<Rightarrow> RequestId \<Rightarrow> HelloResponse Outcome \<times> RequestId" where
  "decodeHelloResponse Q json out_request_id =
     (if unat kMaxJsonBytes < length json
      then (Err (client_invalidRequest t_body_too_large), out_request_id)
      else case qd_fromJson Q json of (doc, no_error) \<Rightarrow>
      if \<not> no_error \<or> qd_isNull Q doc
      then (Err (client_invalidJson (''hello_response'' @ t_not_legal @ ''JSON'')), out_request_id)
      else if \<not> qd_isObject Q doc
      then (Err (client_invalidRequest (''hello_response'' @ t_root_not_object)), out_request_id)
      else let doc_root = qd_object Q doc; id_v = qo_value Q doc_root (q_literal Q ''request_id'')
      in if \<not> qv_isString Q id_v
      then (Err (client_invalidRequestId (''request_id'' @ t_missing_or_not_string)), out_request_id)
      else case UuidId_parse (q_toStdString Q (qv_toString Q id_v)) of
        None \<Rightarrow> (Err (client_invalidRequestId (''request_id'' @ t_not_legal @ ''UUID'')), out_request_id)
      | Some parsed_id \<Rightarrow>
      let out_request_id = parsed_id; ok_v = qo_value Q doc_root (q_literal Q ''ok'')
      in if \<not> qv_isBool Q ok_v \<or> \<not> qv_toBool Q ok_v
      then (Err (client_invalidRequest (''hello_response'' @ t_ok_not_true)), out_request_id)
      else let data_v = qo_value Q doc_root (q_literal Q ''data'')
      in if \<not> qv_isObject Q data_v
      then (Err (client_invalidRequest (''data'' @ t_missing_or_not_object)), out_request_id)
      else (read_response_data Q (qv_toObject Q data_v), out_request_id))"

section \<open>What a decoded response is\<close>

definition shows_string :: "('q, 'v, 'o, 'd) qt_json \<Rightarrow> 'o \<Rightarrow> string \<Rightarrow> string \<Rightarrow> bool" where
  "shows_string Q ob k s \<longleftrightarrow>
     (let v = qo_value Q ob (q_literal Q k)
      in qv_isString Q v \<and> q_toStdString Q (qv_toString Q v) = s)"

definition shows_number :: "('q, 'v, 'o, 'd) qt_json \<Rightarrow> 'o \<Rightarrow> string \<Rightarrow> int \<Rightarrow> bool" where
  "shows_number Q ob k n \<longleftrightarrow>
     (let v = qo_value Q ob (q_literal Q k)
      in qv_isDouble Q v \<and> qv_toDouble Q v = Finite (of_int n))"

definition shows_array :: "('q, 'v, 'o, 'd) qt_json \<Rightarrow> 'o \<Rightarrow> string \<Rightarrow> 'v list \<Rightarrow> bool" where
  "shows_array Q ob k vs \<longleftrightarrow>
     (let v = qo_value Q ob (q_literal Q k) in qv_isArray Q v \<and> qv_toArray Q v = vs)"

definition shows_object :: "('q, 'v, 'o, 'd) qt_json \<Rightarrow> 'o \<Rightarrow> string \<Rightarrow> 'o \<Rightarrow> bool" where
  "shows_object Q ob k ob' \<longleftrightarrow>
     (let v = qo_value Q ob (q_literal Q k) in qv_isObject Q v \<and> qv_toObject Q v = ob')"

definition shows_true :: "('q, 'v, 'o, 'd) qt_json \<Rightarrow> 'o \<Rightarrow> string \<Rightarrow> bool" where
  "shows_true Q ob k \<longleftrightarrow>
     (let v = qo_value Q ob (q_literal Q k) in qv_isBool Q v \<and> qv_toBool Q v)"

lemmas shows_defs = shows_string_def shows_number_def shows_array_def shows_object_def
  shows_true_def

abbreviation item_text :: "('q, 'v, 'o, 'd) qt_json \<Rightarrow> 'v \<Rightarrow> string" where
  "item_text Q v \<equiv> q_toStdString Q (qv_toString Q v)"

definition shows_response :: "('q, 'v, 'o, 'd) qt_json \<Rightarrow> 'o \<Rightarrow> HelloResponse \<Rightarrow> bool" where
  "shows_response Q data r \<longleftrightarrow> (\<exists>arr.
     shows_string Q data ''server_version'' (server_version r) \<and>
     bounded_text kMaxClientVersionBytes (server_version r) \<and>
     shows_number Q data ''server_time'' (sint (server_time r)) \<and>
     0 \<le> sint (server_time r) \<and> sint (server_time r) \<le> kMaxSafeInteger \<and>
     shows_number Q data ''max_json'' (uint (max_json r)) \<and>
     shows_number Q data ''max_text'' (uint (max_text r)) \<and>
     shows_number Q data ''heartbeat_idle'' (uint (heartbeat_idle r)) \<and>
     shows_number Q data ''timeout'' (uint (timeout r)) \<and>
     shows_array Q data ''capabilities'' arr \<and> list_all (qv_isString Q) arr \<and>
     wire_capabilities (map (item_text Q) arr) \<and>
     resp_capabilities r = CapabilitySet_of (map (item_text Q) arr))"

lemma client_codes [simp]:
  "code (client_invalidJson d) = ''invalid_json''"
  "code (client_invalidRequestId d) = ''invalid_request_id''"
  "code (client_invalidRequest d) = ''invalid_request''"
  by (simp_all add: client_invalidJson_def client_invalidRequestId_def client_invalidRequest_def
      client_kInvalidJson_def client_kInvalidRequestId_def client_kInvalidRequest_def)

lemma response_capabilities_Ok:
  "response_capabilities Q items out = Ok s \<longleftrightarrow>
     list_all (qv_isString Q) items \<and>
     list_all (bounded_text kMaxCapabilityValueBytes) (map (item_text Q) items) \<and>
     s = fold cap_insert (map (item_text Q) items) out"
  by (induction items arbitrary: out) (auto simp: Let_def bounded_text_def not_less)

lemma response_capabilities_Err:
  "response_capabilities Q items out = Err e \<Longrightarrow> code e = ''invalid_request''"
  by (induction items arbitrary: out) (auto simp: Let_def split: if_splits)

text \<open>
  A numeric field is accepted exactly when it is an integer in range, and the conversion
  then keeps its value.
\<close>

lemma uint32_of_integral:
  "integral_upto 4294967295 d \<and> (w :: 32 word) = word_of_int (dbl_truncate d) \<longleftrightarrow>
     (\<exists>n. n = uint w \<and> d = Finite (of_int n))"
proof
  assume a: "integral_upto 4294967295 d \<and> w = word_of_int (dbl_truncate d)"
  then obtain n where n: "d = Finite (of_int n)" "0 \<le> n" "n \<le> 4294967295"
    by (auto simp: integral_upto_iff)
  with a have "n = uint w" by (simp add: uint_word_of_int)
  with n show "\<exists>n. n = uint w \<and> d = Finite (of_int n)" by blast
next
  assume "\<exists>n. n = uint w \<and> d = Finite (of_int n)"
  then obtain n where n: "n = uint w" "d = Finite (of_int n)" by blast
  moreover have "0 \<le> n" "n < 2 ^ 32"
    using unsigned_less [of w, where 'a = int] by (simp_all add: n(1))
  moreover have "w = word_of_int n" by (simp add: n(1))
  ultimately show "integral_upto 4294967295 d \<and> w = word_of_int (dbl_truncate d)"
    by (simp add: integral_upto_iff del: of_int_uint)
qed

lemma int64_of_integral:
  "integral_upto kMaxSafeInteger d \<and> (w :: 64 word) = word_of_int (dbl_truncate d) \<longleftrightarrow>
     (\<exists>n. n = sint w \<and> d = Finite (of_int n) \<and> 0 \<le> n \<and> n \<le> kMaxSafeInteger)"
proof
  assume a: "integral_upto kMaxSafeInteger d \<and> w = word_of_int (dbl_truncate d)"
  then obtain n where n: "d = Finite (of_int n)" "0 \<le> n" "n \<le> kMaxSafeInteger"
    by (auto simp: integral_upto_iff)
  have "sint (word_of_int n :: 64 word) = signed_take_bit 63 n"
    by (simp add: signed_of_int)
  also have "\<dots> = n"
    using n by (intro signed_take_bit_int_eq_self) (simp_all add: kMaxSafeInteger_def)
  finally have "n = sint w" using a n by simp
  with n show "\<exists>n. n = sint w \<and> d = Finite (of_int n) \<and> 0 \<le> n \<and> n \<le> kMaxSafeInteger"
    by blast
next
  assume "\<exists>n. n = sint w \<and> d = Finite (of_int n) \<and> 0 \<le> n \<and> n \<le> kMaxSafeInteger"
  then obtain n where n: "n = sint w" "d = Finite (of_int n)" "0 \<le> n" "n \<le> kMaxSafeInteger"
    by blast
  moreover have "w = word_of_int n" by (simp add: n(1))
  ultimately show "integral_upto kMaxSafeInteger d \<and> w = word_of_int (dbl_truncate d)"
    by (simp add: integral_upto_iff)
qed

lemma shows_number_word:
  "shows_number Q data k (uint w) \<longleftrightarrow>
     qv_isDouble Q (qo_value Q data (q_literal Q k)) \<and>
     (\<exists>n. n = uint w \<and> qv_toDouble Q (qo_value Q data (q_literal Q k)) = Finite (of_int n))"
  unfolding shows_number_def Let_def by (simp only: simp_thms ex_simps)

lemma read_uint32_Some:
  "read_uint32 Q data k = Some w \<longleftrightarrow> shows_number Q data k (uint (w :: 32 word))"
  unfolding shows_number_word uint32_of_integral [symmetric] read_uint32_def Let_def
  by (auto simp: integral_upto_def)

lemma read_parameters_Some:
  "read_parameters Q data out = Some out' \<longleftrightarrow>
     shows_number Q data ''max_json'' (uint (max_json out')) \<and>
     shows_number Q data ''max_text'' (uint (max_text out')) \<and>
     shows_number Q data ''heartbeat_idle'' (uint (heartbeat_idle out')) \<and>
     shows_number Q data ''timeout'' (uint (timeout out')) \<and>
     out' = out\<lparr>max_json := max_json out', max_text := max_text out',
       heartbeat_idle := heartbeat_idle out', timeout := timeout out'\<rparr>"
  unfolding read_parameters_def read_uint32_Some [symmetric]
  by (cases out, cases out') (auto split: option.splits)

lemma read_parameters_then:
  "(\<exists>out caps. read_parameters Q data base = Some out \<and> P \<and>
      C (resp_capabilities out) = Ok caps \<and> r = out\<lparr>resp_capabilities := caps\<rparr>) \<longleftrightarrow>
   shows_number Q data ''max_json'' (uint (max_json r)) \<and>
   shows_number Q data ''max_text'' (uint (max_text r)) \<and>
   shows_number Q data ''heartbeat_idle'' (uint (heartbeat_idle r)) \<and>
   shows_number Q data ''timeout'' (uint (timeout r)) \<and> P \<and>
   C (resp_capabilities base) = Ok (resp_capabilities r) \<and>
   server_version r = server_version base \<and> server_time r = server_time base"
  (is "?lhs \<longleftrightarrow> ?rhs")
proof
  assume ?lhs
  then obtain out caps where o: "read_parameters Q data base = Some out" and "P"
      "C (resp_capabilities out) = Ok caps" "r = out\<lparr>resp_capabilities := caps\<rparr>"
    by blast
  moreover have "resp_capabilities out = resp_capabilities base"
    "server_version out = server_version base" "server_time out = server_time base"
    using o by (auto simp: read_parameters_def split: option.splits)
  ultimately show ?rhs
    using o [unfolded read_parameters_Some] by simp
next
  assume rhs: ?rhs
  define out where "out = r\<lparr>resp_capabilities := resp_capabilities base\<rparr>"
  have "read_parameters Q data base = Some out"
    unfolding read_parameters_Some using rhs by (cases r; cases base) (simp add: out_def)
  moreover have "r = out\<lparr>resp_capabilities := resp_capabilities r\<rparr>"
    by (simp add: out_def)
  moreover have "resp_capabilities out = resp_capabilities base"
    by (simp add: out_def)
  ultimately show ?lhs using rhs by metis
qed

lemma time_field:
  "qv_isDouble Q (qo_value Q data (q_literal Q k)) \<and>
   \<not> (dbl_less (qv_toDouble Q (qo_value Q data (q_literal Q k))) (Finite 0) \<or>
      dbl_less (Finite (of_int kMaxSafeInteger)) (qv_toDouble Q (qo_value Q data (q_literal Q k))) \<or>
      \<not> dbl_eq (dbl_floor (qv_toDouble Q (qo_value Q data (q_literal Q k))))
          (qv_toDouble Q (qo_value Q data (q_literal Q k)))) \<and>
   w = word_of_int (dbl_truncate (qv_toDouble Q (qo_value Q data (q_literal Q k)))) \<longleftrightarrow>
   shows_number Q data k (sint (w :: 64 word)) \<and> 0 \<le> sint w \<and> sint w \<le> kMaxSafeInteger"
  using int64_of_integral [of "qv_toDouble Q (qo_value Q data (q_literal Q k))" w]
  unfolding shows_number_def Let_def integral_upto_def by (simp only: simp_thms ex_simps) metis

lemma read_response_data_Ok: "read_response_data Q data = Ok r \<longleftrightarrow> shows_response Q data r"
proof -
  let ?val = "\<lambda>k. qo_value Q data (q_literal Q k)"
  let ?time = "qv_toDouble Q (?val ''server_time'')"
  let ?out = "HelloResponse_default\<lparr>server_version := item_text Q (?val ''server_version''),
    server_time := word_of_int (dbl_truncate ?time)\<rparr>"
  let ?bad_time = "dbl_less ?time (Finite 0) \<or> dbl_less (Finite (of_int kMaxSafeInteger)) ?time \<or>
    \<not> dbl_eq (dbl_floor ?time) ?time"
  have "read_response_data Q data = Ok r \<longleftrightarrow>
      qv_isString Q (?val ''server_version'') \<and>
      bounded_text kMaxClientVersionBytes (item_text Q (?val ''server_version'')) \<and>
      qv_isDouble Q (?val ''server_time'') \<and> \<not> ?bad_time \<and>
      (\<exists>out caps. read_parameters Q data ?out = Some out \<and>
         (qv_isArray Q (?val ''capabilities'') \<and>
          length (qv_toArray Q (?val ''capabilities'')) \<le> kMaxCapabilityCount) \<and>
         response_capabilities Q (qv_toArray Q (?val ''capabilities''))
           (resp_capabilities out) = Ok caps \<and>
         r = out\<lparr>resp_capabilities := caps\<rparr>)"
    by (simp add: read_response_data_def Let_def bounded_text_def not_less
        split: option.split Outcome.split) auto
  also have "\<dots> \<longleftrightarrow> shows_response Q data r"
    using time_field [of Q data "''server_time''" "server_time r"]
    unfolding read_parameters_then
    by (simp add: shows_response_def shows_string_def shows_array_def Let_def
      response_capabilities_Ok wire_capabilities_def CapabilitySet_of_def HelloResponse_default_def)
      (intro iffI; elim conjE; simp)
  finally show ?thesis .
qed

lemma read_response_data_Err:
  "read_response_data Q data = Err e \<Longrightarrow> code e = ''invalid_request''"
  by (auto simp: read_response_data_def Let_def dest: response_capabilities_Err
      split: if_splits Outcome.splits option.splits)

text \<open>The root object of a response text and the identifier its envelope carries.\<close>

definition response_document :: "('q, 'v, 'o, 'd) qt_json \<Rightarrow> string \<Rightarrow> 'o option" where
  "response_document Q json =
     (if unat kMaxJsonBytes < length json then None
      else case qd_fromJson Q json of (doc, no_error) \<Rightarrow>
        if no_error \<and> \<not> qd_isNull Q doc \<and> qd_isObject Q doc then Some (qd_object Q doc) else None)"

definition response_envelope_id :: "('q, 'v, 'o, 'd) qt_json \<Rightarrow> string \<Rightarrow> RequestId option" where
  "response_envelope_id Q json =
     (case response_document Q json of
        None \<Rightarrow> None
      | Some ob \<Rightarrow>
          let v = qo_value Q ob (q_literal Q ''request_id'')
          in if qv_isString Q v then UuidId_parse (item_text Q v) else None)"

definition response_error_code :: "('q, 'v, 'o, 'd) qt_json \<Rightarrow> string \<Rightarrow> string" where
  "response_error_code Q json =
     (if 65536 < length json then ''invalid_request''
      else case qd_fromJson Q json of (doc, no_error) \<Rightarrow>
        if no_error \<and> \<not> qd_isNull Q doc
        then if qd_isObject Q doc then ''invalid_request_id'' else ''invalid_request''
        else ''invalid_json'')"

lemma response_document_Some:
  "response_document Q json = Some ob \<longleftrightarrow>
     length json \<le> 65536 \<and> (\<exists>doc. qd_fromJson Q json = (doc, True) \<and>
       \<not> qd_isNull Q doc \<and> qd_isObject Q doc \<and> qd_object Q doc = ob)"
  by (auto simp: response_document_def kMaxJsonBytes_def not_less split: prod.splits if_splits)

lemma response_envelope_id_Some:
  "response_envelope_id Q json = Some i \<longleftrightarrow> isUuid (uuid_value i) \<and>
     (\<exists>ob. response_document Q json = Some ob \<and> shows_string Q ob ''request_id'' (uuid_value i))"
  by (cases i) (auto simp: response_envelope_id_def shows_string_def Let_def UuidId_parse_Some
      split: option.splits if_splits)

lemma decodeHelloResponse_no_document:
  assumes "response_document Q json = None"
  shows "\<exists>e. decodeHelloResponse Q json id0 = (Err e, id0) \<and> code e = response_error_code Q json"
  using assms
  by (cases "qd_fromJson Q json")
    (auto simp: response_document_def decodeHelloResponse_def response_error_code_def
      kMaxJsonBytes_def split: if_splits)

lemma decodeHelloResponse_document:
  assumes "response_document Q json = Some ob"
  shows "decodeHelloResponse Q json id0 =
    (case response_envelope_id Q json of
       None \<Rightarrow> (Err (client_invalidRequestId
         (if qv_isString Q (qo_value Q ob (q_literal Q ''request_id''))
          then ''request_id'' @ t_not_legal @ ''UUID''
          else ''request_id'' @ t_missing_or_not_string)), id0)
     | Some i \<Rightarrow>
         (if \<not> shows_true Q ob ''ok''
          then Err (client_invalidRequest (''hello_response'' @ t_ok_not_true))
          else let data_v = qo_value Q ob (q_literal Q ''data'')
          in if qv_isObject Q data_v then read_response_data Q (qv_toObject Q data_v)
          else Err (client_invalidRequest (''data'' @ t_missing_or_not_object)), i))"
proof -
  from assms obtain doc where "length json \<le> 65536" and
    "qd_fromJson Q json = (doc, True) \<and> \<not> qd_isNull Q doc \<and> qd_isObject Q doc"
    and "qd_object Q doc = ob"
    by (auto simp: response_document_Some)
  then show ?thesis
    using assms by (simp add: decodeHelloResponse_def kMaxJsonBytes_def response_envelope_id_def
      shows_true_def Let_def split: option.split)
qed

section \<open>Properties of the decoder\<close>

text \<open>
  C13 (accepted hello responses). The client accepts a text as the response \<open>r\<close> under the
  identifier \<open>i\<close> exactly when the text has at most 65536 bytes and is a non-null JSON object
  whose \<open>request_id\<close> is the lower-case version 4 UUID \<open>i\<close>, whose \<open>ok\<close> is true and whose \<open>data\<close>
  object carries the fields of \<open>r\<close>: a \<open>server_version\<close> of 1 to 32 bytes, a \<open>server_time\<close> that
  is an integer from 0 to 2^53-1, four parameters that are integers of 32 bits, and at
  most 16 capabilities of 1 to 64 bytes. Every number of \<open>r\<close> is the number on the wire: no
  conversion from \<^verbatim>\<open>double\<close> truncates or wraps. It holds for every JSON library.
\<close>

theorem decodeHelloResponse_accepts:
  "decodeHelloResponse Q json id0 = (Ok r, i) \<longleftrightarrow>
     length json \<le> 65536 \<and> isUuid (uuid_value i) \<and>
     (\<exists>doc data arr. qd_fromJson Q json = (doc, True) \<and> \<not> qd_isNull Q doc \<and> qd_isObject Q doc \<and>
       shows_string Q (qd_object Q doc) ''request_id'' (uuid_value i) \<and>
       shows_true Q (qd_object Q doc) ''ok'' \<and>
       shows_object Q (qd_object Q doc) ''data'' data \<and>
       shows_string Q data ''server_version'' (server_version r) \<and>
       1 \<le> length (server_version r) \<and> length (server_version r) \<le> 32 \<and>
       shows_number Q data ''server_time'' (sint (server_time r)) \<and>
       0 \<le> sint (server_time r) \<and> sint (server_time r) \<le> 2 ^ 53 - 1 \<and>
       shows_number Q data ''max_json'' (uint (max_json r)) \<and>
       shows_number Q data ''max_text'' (uint (max_text r)) \<and>
       shows_number Q data ''heartbeat_idle'' (uint (heartbeat_idle r)) \<and>
       shows_number Q data ''timeout'' (uint (timeout r)) \<and>
       shows_array Q data ''capabilities'' arr \<and> list_all (qv_isString Q) arr \<and>
       length arr \<le> 16 \<and>
       list_all (\<lambda>c. 1 \<le> length c \<and> length c \<le> 64) (map (item_text Q) arr) \<and>
       resp_capabilities r = CapabilitySet_of (map (item_text Q) arr))"
  (is "?lhs \<longleftrightarrow> ?rhs")
proof -
  have "bounded_text n s \<longleftrightarrow> 1 \<le> length s \<and> length s \<le> n" for n s
    by (cases s) (simp_all add: bounded_text_def)
  then have bounds: "bounded_text n = (\<lambda>s. 1 \<le> length s \<and> length s \<le> n)" for n
    by blast
  have "?lhs \<longleftrightarrow> (\<exists>ob data. response_document Q json = Some ob \<and>
      response_envelope_id Q json = Some i \<and> shows_true Q ob ''ok'' \<and>
      shows_object Q ob ''data'' data \<and> shows_response Q data r)"
  proof (cases "response_document Q json")
    case None
    with decodeHelloResponse_no_document [OF None, of id0] show ?thesis by auto
  next
    case (Some ob)
    then show ?thesis
      by (auto simp: decodeHelloResponse_document [OF Some] read_response_data_Ok shows_object_def
          Let_def split: option.splits)
  qed
  also have "\<dots> \<longleftrightarrow> ?rhs"
  proof
    assume "\<exists>ob data. response_document Q json = Some ob \<and>
      response_envelope_id Q json = Some i \<and> shows_true Q ob ''ok'' \<and>
      shows_object Q ob ''data'' data \<and> shows_response Q data r"
    then show ?rhs
      by (elim exE conjE)
        (clarsimp simp: response_envelope_id_Some response_document_Some shows_response_def bounds
          wire_capabilities_def kMaxSafeInteger_def, blast)
  next
    assume ?rhs
    then show "\<exists>ob data. response_document Q json = Some ob \<and>
      response_envelope_id Q json = Some i \<and> shows_true Q ob ''ok'' \<and>
      shows_object Q ob ''data'' data \<and> shows_response Q data r"
      by (elim exE conjE)
        (rule exI, rule exI, simp add: response_envelope_id_Some response_document_Some
          shows_response_def bounds wire_capabilities_def kMaxSafeInteger_def, blast)
  qed
  finally show ?thesis .
qed

text \<open>
  C15 (hello response errors). Decoding a response always gives one of the documented
  outcomes, whatever the JSON library does: the caller's identifier is overwritten exactly
  when the envelope carries a legal one; without one the error code says why, in the order
  too long, not JSON, not an object, no legal identifier; with one, the only error code left
  is \<open>invalid_request\<close>.
\<close>

theorem decodeHelloResponse_errors:
  "(case response_envelope_id Q json of
      None \<Rightarrow> \<exists>e. decodeHelloResponse Q json id0 = (Err e, id0) \<and> isSnakeCaseCode (code e) \<and>
        code e = (if 65536 < length json then ''invalid_request''
          else case qd_fromJson Q json of (doc, no_error) \<Rightarrow>
            if no_error \<and> \<not> qd_isNull Q doc
            then if qd_isObject Q doc then ''invalid_request_id'' else ''invalid_request''
            else ''invalid_json'')
    | Some i \<Rightarrow> \<exists>result. decodeHelloResponse Q json id0 = (result, i) \<and>
        (case result of Ok r \<Rightarrow> cap_inv (resp_capabilities r)
         | Err e \<Rightarrow> code e = ''invalid_request'' \<and> isSnakeCaseCode (code e)))"
proof (cases "response_document Q json")
  case None
  have "isSnakeCaseCode ''invalid_request''" "isSnakeCaseCode ''invalid_json''"
    "isSnakeCaseCode ''invalid_request_id''" by code_simp+
  moreover have "response_envelope_id Q json = None"
    by (simp add: response_envelope_id_def None)
  ultimately show ?thesis
    using decodeHelloResponse_no_document [OF None, of id0]
    by (auto simp: response_error_code_def split: prod.splits)
next
  case (Some ob)
  have snake: "isSnakeCaseCode ''invalid_request''" "isSnakeCaseCode ''invalid_request_id''"
    by code_simp+
  have "response_error_code Q json = ''invalid_request_id''"
    using Some by (auto simp: response_document_Some response_error_code_def)
  then show ?thesis
    unfolding response_error_code_def
    by (auto simp: decodeHelloResponse_document [OF Some] Let_def read_response_data_Ok
        shows_response_def snake dest: read_response_data_Err split: option.splits Outcome.splits)
qed

end
