(* ===== verification/Json_Text.thy ===== *)
theory Json_Text
  imports Json_Api "HOL-Library.AList"
begin

text \<open>
  A concrete pair of JSON libraries, used to show that the laws of \<^theory_text>\<open>Json_Api\<close> can hold
  together and to evaluate the codecs on concrete messages. Values are documents; a text is
  the compact JSON form of a document, with a backslash in front of a quote or a backslash.
  Nothing about the program depends on it.
\<close>

section \<open>Printing and reading compact JSON\<close>

definition backslash :: char where "backslash = CHR 0x5C"

fun print_chars :: "string \<Rightarrow> string" where
  "print_chars [] = [CHR 0x22]"
| "print_chars (c # cs) =
     (if c = CHR 0x22 \<or> c = backslash then backslash # c # print_chars cs
      else c # print_chars cs)"

definition print_string :: "string \<Rightarrow> string" where
  "print_string s = CHR 0x22 # print_chars s"

definition print_int :: "int \<Rightarrow> string" where
  "print_int n = (if n < 0 then CHR ''-'' # to_string (nat (- n)) else to_string (nat n))"

fun print_json :: "json \<Rightarrow> string"
  and print_elems :: "json list \<Rightarrow> string"
  and print_members :: "(string \<times> json) list \<Rightarrow> string" where
  "print_json (JBool b) = (if b then ''true'' else ''false'')"
| "print_json (JInt n) = print_int n"
| "print_json (JString s) = print_string s"
| "print_json (JArray js) = CHR ''['' # print_elems js"
| "print_json (JObject fs) = CHR ''{'' # print_members fs"
| "print_elems [] = '']''"
| "print_elems (j # js) =
     print_json j @ (if js = [] then '']'' else CHR '','' # print_elems js)"
| "print_members [] = ''}''"
| "print_members ((k, j) # fs) =
     print_string k @ CHR '':'' # print_json j @
       (if fs = [] then ''}'' else CHR '','' # print_members fs)"

fun read_chars :: "string \<Rightarrow> (string \<times> string) option" where
  "read_chars [] = None"
| "read_chars (c # cs) =
     (if c = CHR 0x22 then Some ([], cs)
      else if c = backslash
      then (case cs of
          [] \<Rightarrow> None
        | d # ds \<Rightarrow> (case read_chars ds of None \<Rightarrow> None | Some (s, rest) \<Rightarrow> Some (d # s, rest)))
      else (case read_chars cs of None \<Rightarrow> None | Some (s, rest) \<Rightarrow> Some (c # s, rest)))"

definition read_int :: "string \<Rightarrow> int \<times> string" where
  "read_int s =
     (if s \<noteq> [] \<and> hd s = CHR ''-''
      then (- int (digits_value (takeWhile is_digit (tl s))), dropWhile is_digit (tl s))
      else (int (digits_value (takeWhile is_digit s)), dropWhile is_digit s))"

text \<open>The reader has fuel; the length of its input is enough (\<open>read_print\<close>).\<close>

fun read_value :: "nat \<Rightarrow> string \<Rightarrow> (json \<times> string) option"
  and read_elems :: "nat \<Rightarrow> string \<Rightarrow> (json list \<times> string) option"
  and read_members :: "nat \<Rightarrow> string \<Rightarrow> ((string \<times> json) list \<times> string) option" where
  "read_value 0 s = None"
| "read_value (Suc n) [] = None"
| "read_value (Suc n) (c # cs) =
     (if c = CHR 0x22
      then (case read_chars cs of None \<Rightarrow> None | Some (s, rest) \<Rightarrow> Some (JString s, rest))
      else if c = CHR ''[''
      then (case read_elems n cs of None \<Rightarrow> None | Some (js, rest) \<Rightarrow> Some (JArray js, rest))
      else if c = CHR ''{''
      then (case read_members n cs of None \<Rightarrow> None | Some (fs, rest) \<Rightarrow> Some (JObject fs, rest))
      else if take 4 (c # cs) = ''true'' then Some (JBool True, drop 4 (c # cs))
      else if take 5 (c # cs) = ''false'' then Some (JBool False, drop 5 (c # cs))
      else if c = CHR ''-'' \<or> is_digit c
      then (case read_int (c # cs) of (i, rest) \<Rightarrow> Some (JInt i, rest))
      else None)"
| "read_elems 0 s = None"
| "read_elems (Suc n) s =
     (if take 1 s = '']'' then Some ([], tl s)
      else case read_value n s of None \<Rightarrow> None | Some (j, rest) \<Rightarrow>
        if take 1 rest = '']'' then Some ([j], tl rest)
        else if take 1 rest = '','' then
          (case read_elems n (tl rest) of None \<Rightarrow> None | Some (js, rest') \<Rightarrow> Some (j # js, rest'))
        else None)"
| "read_members 0 s = None"
| "read_members (Suc n) s =
     (if take 1 s = ''}'' then Some ([], tl s)
      else if take 1 s \<noteq> [CHR 0x22] then None
      else case read_chars (tl s) of None \<Rightarrow> None | Some (k, rest) \<Rightarrow>
        if take 1 rest \<noteq> '':'' then None
        else case read_value n (tl rest) of None \<Rightarrow> None | Some (j, rest') \<Rightarrow>
          if take 1 rest' = ''}'' then Some ([(k, j)], tl rest')
          else if take 1 rest' = '','' then
            (case read_members n (tl rest') of
               None \<Rightarrow> None | Some (fs, rest'') \<Rightarrow> Some ((k, j) # fs, rest''))
          else None)"

definition read_json :: "string \<Rightarrow> json option" where
  "read_json s = (case read_value (length s) s of Some (j, []) \<Rightarrow> Some j | _ \<Rightarrow> None)"

section \<open>Reading what was printed\<close>

lemma read_print_chars: "read_chars (print_chars s @ rest) = Some (s, rest)"
  by (induction s) (auto simp: backslash_def)

text \<open>What may follow a printed value: nothing that continues a number.\<close>

definition ends_number :: "string \<Rightarrow> bool" where
  "ends_number rest \<longleftrightarrow> rest = [] \<or> \<not> is_digit (hd rest)"

lemma takeWhile_to_string:
  "ends_number rest \<Longrightarrow> takeWhile is_digit (to_string n @ rest) = to_string n"
  "ends_number rest \<Longrightarrow> dropWhile is_digit (to_string n @ rest) = rest"
  using to_string_digits [of n]
  by (cases rest; auto simp: ends_number_def list_all_iff takeWhile_append dropWhile_append)+

lemma hd_to_string_digit: "is_digit (hd (to_string n @ rest))"
  using to_string_digits [of n] to_string_nonempty [of n]
  by (cases "to_string n") auto

lemma read_print_int:
  assumes "ends_number rest"
  shows "read_int (print_int i @ rest) = (i, rest)"
proof (cases "i < 0")
  case True
  then show ?thesis
    by (simp add: read_int_def print_int_def takeWhile_to_string [OF assms])
next
  case False
  have "hd (to_string (nat i) @ rest) \<noteq> CHR ''-''"
    using hd_to_string_digit [of "nat i" rest] by (auto simp: char_class less_eq_char_def)
  with False show ?thesis
    by (simp add: read_int_def print_int_def takeWhile_to_string [OF assms])
qed

lemma print_int_head:
  "\<exists>c cs. print_int i = c # cs \<and> (c = CHR ''-'' \<or> is_digit c)"
  using hd_to_string_digit [of "nat i" "[]"]
  by (cases "to_string (nat i)") (auto simp: print_int_def)

lemma digit_chars [simp]:
  "\<not> is_digit CHR 0x22" "\<not> is_digit CHR ''[''" "\<not> is_digit CHR ''{''" "\<not> is_digit CHR '',''"
  "\<not> is_digit CHR '']''" "\<not> is_digit CHR ''}''" "\<not> is_digit CHR ''t''" "\<not> is_digit CHR ''f''"
  by code_simp+

lemma read_value_int:
  assumes "ends_number rest"
  shows "read_value (Suc n) (print_int i @ rest) = Some (JInt i, rest)"
proof -
  obtain c cs where c: "print_int i = c # cs" "c = CHR ''-'' \<or> is_digit c"
    using print_int_head by blast
  then have "c \<noteq> CHR 0x22" "c \<noteq> CHR ''[''" "c \<noteq> CHR ''{''" "c \<noteq> CHR ''t''" "c \<noteq> CHR ''f''"
    by auto
  moreover have "read_int (c # cs @ rest) = (i, rest)"
    using read_print_int [OF assms, of i] c by simp
  ultimately show ?thesis using c by simp
qed

lemma print_json_head: "\<exists>c cs. print_json j = c # cs \<and> c \<noteq> CHR '']''"
proof (cases j)
  case (JInt i)
  then show ?thesis using print_int_head [of i] by auto
qed (auto simp: print_string_def)

lemma ends_number_simps [simp]:
  "ends_number []" "ends_number (c # cs) \<longleftrightarrow> \<not> is_digit c"
  by (simp_all add: ends_number_def)

lemma read_print:
  "length (print_json j) \<le> n \<Longrightarrow> ends_number rest \<Longrightarrow>
     read_value n (print_json j @ rest) = Some (j, rest)"
  "length (print_elems js) \<le> n \<Longrightarrow> read_elems n (print_elems js @ rest) = Some (js, rest)"
  "length (print_members fs) \<le> n \<Longrightarrow> read_members n (print_members fs @ rest) = Some (fs, rest)"
proof (induction j and js and fs arbitrary: n rest and n rest and n rest
    rule: print_json_print_elems_print_members.induct)
  case (1 b)
  then show ?case by (cases n) (simp_all split: if_splits)
next
  case (2 i)
  then obtain m where "n = Suc m" using print_int_head [of i] by (cases n) auto
  with read_value_int [OF "2.prems"(2)] show ?case by simp
next
  case (3 s)
  then show ?case by (cases n) (auto simp: print_string_def read_print_chars)
next
  case (4 js)
  then show ?case by (cases n) simp_all
next
  case (5 fs)
  then show ?case by (cases n) simp_all
next
  case 6
  then show ?case by (cases n) simp_all
next
  case (7 j js)
  obtain m where n: "n = Suc m" using "7.prems" print_json_head [of j] by (cases n) auto
  obtain c cs where c: "print_json j = c # cs" "c \<noteq> CHR '']''" using print_json_head by blast
  have "length (print_json j) \<le> m" using "7.prems" by (cases "js = []") (simp_all add: n)
  note j = "7.IH"(1) [OF this]
  show ?case
  proof (cases "js = []")
    case True
    have "read_value m (c # cs @ CHR '']'' # rest) = Some (j, CHR '']'' # rest)"
      using j [of "CHR '']'' # rest"] c by simp
    with True c show ?thesis by (simp add: n)
  next
    case False
    have "read_value m (c # cs @ CHR '','' # print_elems js @ rest) =
        Some (j, CHR '','' # print_elems js @ rest)"
      using j [of "CHR '','' # print_elems js @ rest"] c by simp
    moreover have "read_elems m (print_elems js @ rest) = Some (js, rest)"
      using "7.IH"(2) "7.prems" False by (simp add: n)
    ultimately show ?thesis using False c by (simp add: n)
  qed
next
  case 8
  then show ?case by (cases n) simp_all
next
  case (9 k j fs)
  obtain m where n: "n = Suc m" using "9.prems" by (cases n) (auto simp: print_string_def)
  have "length (print_json j) \<le> m" using "9.prems" by (cases "fs = []") (simp_all add: n)
  note j = "9.IH"(1) [OF this]
  show ?case
  proof (cases "fs = []")
    case True
    with j [of "CHR ''}'' # rest"] show ?thesis
      by (simp add: n print_string_def read_print_chars)
  next
    case False
    have "read_members m (print_members fs @ rest) = Some (fs, rest)"
      using "9.IH"(2) "9.prems" False by (simp add: n)
    with False j [of "CHR '','' # print_members fs @ rest"] show ?thesis
      by (simp add: n print_string_def read_print_chars)
  qed
qed

lemma read_print_json: "read_json (print_json j) = Some j"
  using read_print(1) [of j "length (print_json j)" "[]"] by (simp add: read_json_def)

section \<open>The libraries over this text\<close>

definition doc_boost :: "(json, (string \<times> json) list) boost_json" where
  "doc_boost =
     \<lparr>bj_parse = read_json,
      bj_serialize = (\<lambda>fs. print_json (JObject fs)),
      bj_is_object = (\<lambda>v. case v of JObject _ \<Rightarrow> True | _ \<Rightarrow> False),
      bj_as_object = (\<lambda>v. case v of JObject fs \<Rightarrow> fs | _ \<Rightarrow> []),
      bj_find = map_of,
      bj_is_string = (\<lambda>v. case v of JString _ \<Rightarrow> True | _ \<Rightarrow> False),
      bj_as_string = (\<lambda>v. case v of JString s \<Rightarrow> s | _ \<Rightarrow> []),
      bj_is_array = (\<lambda>v. case v of JArray _ \<Rightarrow> True | _ \<Rightarrow> False),
      bj_as_array = (\<lambda>v. case v of JArray js \<Rightarrow> js | _ \<Rightarrow> []),
      bj_if_bool = (\<lambda>v. case v of JBool b \<Rightarrow> Some b | _ \<Rightarrow> None),
      bj_to_int = (\<lambda>v. case v of JInt i \<Rightarrow> Some i | _ \<Rightarrow> None),
      bj_object = [],
      bj_assign = (\<lambda>fs k v. AList.update k v fs),
      bj_of_string = JString,
      bj_of_int64 = (\<lambda>w. JInt (sint w)),
      bj_of_uint32 = (\<lambda>w. JInt (uint w)),
      bj_of_bool = JBool,
      bj_of_array = JArray,
      bj_of_object = JObject\<rparr>"

text \<open>A document of the other library is absent, or the value of a text.\<close>

definition doc_qt :: "(string, json, (string \<times> json) list, json option) qt_json" where
  "doc_qt =
     \<lparr>q_fromStdString = (\<lambda>s. s), q_toStdString = (\<lambda>s. s), q_literal = (\<lambda>s. s),
      qd_fromJson = (\<lambda>s. (read_json s, \<not> Option.is_none (read_json s))),
      qd_isNull = Option.is_none,
      qd_isObject = (\<lambda>d. case d of Some (JObject _) \<Rightarrow> True | _ \<Rightarrow> False),
      qd_object = (\<lambda>d. case d of Some (JObject fs) \<Rightarrow> fs | _ \<Rightarrow> []),
      qd_of_object = (\<lambda>fs. Some (JObject fs)),
      qd_toJson_compact = (\<lambda>d. case d of Some j \<Rightarrow> print_json j | None \<Rightarrow> []),
      qo_empty = [],
      qo_insert = (\<lambda>fs k v. AList.update k v fs),
      qo_value = (\<lambda>fs k. case map_of fs k of Some v \<Rightarrow> v | None \<Rightarrow> JArray []),
      qo_contains = (\<lambda>fs k. \<not> Option.is_none (map_of fs k)),
      qv_isString = (\<lambda>v. case v of JString _ \<Rightarrow> True | _ \<Rightarrow> False),
      qv_toString = (\<lambda>v. case v of JString s \<Rightarrow> s | _ \<Rightarrow> []),
      qv_isBool = (\<lambda>v. case v of JBool _ \<Rightarrow> True | _ \<Rightarrow> False),
      qv_toBool = (\<lambda>v. case v of JBool b \<Rightarrow> b | _ \<Rightarrow> False),
      qv_isDouble = (\<lambda>v. case v of JInt _ \<Rightarrow> True | _ \<Rightarrow> False),
      qv_toDouble = (\<lambda>v. case v of JInt i \<Rightarrow> Finite (of_int i) | _ \<Rightarrow> Finite 0),
      qv_isObject = (\<lambda>v. case v of JObject _ \<Rightarrow> True | _ \<Rightarrow> False),
      qv_toObject = (\<lambda>v. case v of JObject fs \<Rightarrow> fs | _ \<Rightarrow> []),
      qv_isArray = (\<lambda>v. case v of JArray _ \<Rightarrow> True | _ \<Rightarrow> False),
      qv_toArray = (\<lambda>v. case v of JArray js \<Rightarrow> js | _ \<Rightarrow> []),
      qv_of_string = JString,
      qv_of_array = JArray,
      qv_of_object = JObject\<rparr>"

lemma doc_views: "qt_view doc_qt = boost_view doc_boost"
  by (auto simp: qt_view_def boost_view_def doc_qt_def doc_boost_def fun_eq_iff Option.is_none_def
      split: json.splits option.splits)

lemma doc_boost_builders: "boost_builders doc_boost"
  by (simp add: boost_builders_def boost_view_def doc_boost_def update_conv')

lemma doc_members: "qo_members doc_qt ob = map_of ob"
  by (auto simp: qo_members_def doc_qt_def fun_eq_iff Option.is_none_def split: option.splits)

lemma doc_qt_builders: "qt_builders doc_qt"
  unfolding qt_builders_def doc_members
  by (simp add: doc_views, simp add: boost_view_def doc_boost_def doc_qt_def update_conv')

lemma doc_qt_strings: "qt_strings doc_qt"
  by (simp add: qt_strings_def doc_qt_def)

lemma doc_qt_to_boost: "qt_to_boost doc_qt doc_boost"
  by (simp add: qt_to_boost_def doc_views)
    (simp add: doc_qt_def doc_boost_def read_print_json del: print_json.simps)

lemma doc_boost_to_qt: "boost_to_qt doc_boost doc_qt"
  by (simp add: boost_to_qt_def doc_views)
    (simp add: doc_qt_def doc_boost_def read_print_json del: print_json.simps)

lemmas doc_laws = doc_boost_builders doc_qt_builders doc_qt_strings doc_qt_to_boost doc_boost_to_qt

end
