(* ===== verification/Hello_Exchange.thy ===== *)
theory Hello_Exchange
  imports Server_Codec Client_Codec Json_Text
begin

text \<open>
  The two hello codecs against each other: what the client encodes the server decodes, and
  the reverse, for any pair of JSON libraries that keep the laws of \<^theory_text>\<open>Json_Api\<close>. The
  documents of the wire are written out once, as the contract both sides implement.
\<close>

section \<open>The documents of the wire\<close>

definition request_json :: "RequestId \<Rightarrow> HelloRequest \<Rightarrow> json" where
  "request_json i r = JObject
     [(''request_id'', JString (uuid_value i)),
      (''data'', JObject
        [(''client_version'', JString (client_version r)),
         (''platform'', JString (platform r)),
         (''capabilities'', JArray (map JString (cap_value (req_capabilities r))))])]"

definition response_json :: "RequestId \<Rightarrow> HelloResponse \<Rightarrow> json" where
  "response_json i r = JObject
     [(''request_id'', JString (uuid_value i)),
      (''ok'', JBool True),
      (''data'', JObject
        [(''server_version'', JString (server_version r)),
         (''server_time'', JInt (sint (server_time r))),
         (''max_json'', JInt (uint (max_json r))),
         (''max_text'', JInt (uint (max_text r))),
         (''heartbeat_idle'', JInt (uint (heartbeat_idle r))),
         (''timeout'', JInt (uint (timeout r))),
         (''capabilities'', JArray (map JString (cap_value (resp_capabilities r))))])]"

text \<open>The values the wire can carry: the bounds of the fields, and text that is UTF-8.\<close>

definition plain_bounded :: "nat \<Rightarrow> string \<Rightarrow> bool" where
  "plain_bounded n s \<longleftrightarrow> bounded_text n s \<and> plain_text s"

definition wire_set :: "CapabilitySet \<Rightarrow> bool" where
  "wire_set s \<longleftrightarrow> cap_inv s \<and> wire_capabilities (cap_value s) \<and> list_all plain_text (cap_value s)"

definition wire_request :: "HelloRequest \<Rightarrow> bool" where
  "wire_request r \<longleftrightarrow>
     plain_bounded kMaxClientVersionBytes (client_version r) \<and>
     plain_bounded kMaxPlatformBytes (platform r) \<and> wire_set (req_capabilities r)"

definition wire_response :: "HelloResponse \<Rightarrow> bool" where
  "wire_response r \<longleftrightarrow>
     plain_bounded kMaxClientVersionBytes (server_version r) \<and>
     0 \<le> sint (server_time r) \<and> sint (server_time r) \<le> kMaxSafeInteger \<and>
     wire_set (resp_capabilities r)"

section \<open>The encoders build these documents\<close>

lemma reads_strings:
  "(\<And>s. plain_text s \<Longrightarrow> reads V (f s) (JString s)) \<Longrightarrow> list_all plain_text ss \<Longrightarrow>
     list_all2 (reads V) (map f ss) (map JString ss)"
  by (induction ss) auto

lemma isUuid_plain [intro]: "isUuid s \<Longrightarrow> plain_text s"
proof -
  assume u: "isUuid s"
  have "is_lower_hex c \<Longrightarrow> (of_char c :: nat) < 0x80" for c
    by (auto simp: char_class less_eq_char_def)
  then have "ascii s"
    using isUuid_chars [OF u] by (fastforce simp: ascii_def list_all_iff)
  then show ?thesis ..
qed

lemma qt_string_reads:
  "qt_builders Q \<Longrightarrow> qt_strings Q \<Longrightarrow> plain_text s \<Longrightarrow>
     reads (qt_view Q) (qv_of_string Q (q_fromStdString Q s)) (JString s)"
  by (simp add: reads_simps qt_builders_def qt_strings_def)

lemma request_reads:
  assumes "qt_builders Q" and "qt_strings Q" and "wire_request r" and "plain_text (uuid_value i)"
  shows "reads (qt_view Q) (qv_of_object Q (request_root_object Q i r)) (request_json i r)"
proof -
  have strings: "reads (qt_view Q) (qv_of_string Q (q_fromStdString Q s)) (JString s)"
    if "plain_text s" for s
    by (rule qt_string_reads [OF assms(1,2) that])
  have fields: "plain_text (client_version r)" "plain_text (platform r)" "plain_text (uuid_value i)"
    "list_all plain_text (cap_value (req_capabilities r))"
    using assms(3,4) by (auto simp: wire_request_def plain_bounded_def wire_set_def)
  have caps: "reads (qt_view Q)
      (qv_of_array Q (map (\<lambda>c. qv_of_string Q (q_fromStdString Q c)) (cap_value (req_capabilities r))))
      (JArray (map JString (cap_value (req_capabilities r))))"
    using assms(1) reads_strings [OF strings fields(4)] by (simp add: reads_simps qt_builders_def)
  have members: "qo_members Q (request_root_object Q i r) =
      [''request_id'' \<mapsto> qv_of_string Q (q_fromStdString Q (uuid_value i)),
       ''data'' \<mapsto> qv_of_object Q (request_data_object Q r)]"
    "qo_members Q (request_data_object Q r) =
      [''client_version'' \<mapsto> qv_of_string Q (q_fromStdString Q (client_version r)),
       ''platform'' \<mapsto> qv_of_string Q (q_fromStdString Q (platform r)),
       ''capabilities'' \<mapsto>
         qv_of_array Q (map (\<lambda>c. qv_of_string Q (q_fromStdString Q c)) (cap_value (req_capabilities r)))]"
    using assms(1) by (simp_all add: request_root_object_def request_data_object_def qt_builders_def)
  have obj: "view_members (qt_view Q) (qv_of_object Q ob) = Some (qo_members Q ob)" for ob
    using assms(1) by (simp add: qt_builders_def)
  have "reads (qt_view Q) (qv_of_object Q (request_data_object Q r)) (JObject
        [(''client_version'', JString (client_version r)),
         (''platform'', JString (platform r)),
         (''capabilities'', JArray (map JString (cap_value (req_capabilities r))))])"
    by (subst reads_simps) (auto simp: obj members intro: caps strings fields)
  then show ?thesis
    unfolding request_json_def
    by (subst reads_simps) (auto simp: obj members intro: strings fields)
qed

lemma response_reads:
  assumes "boost_builders B"
  shows "reads (boost_view B) (bj_of_object B (response_root B i r)) (response_json i r)"
proof -
  have strings: "reads (boost_view B) (bj_of_string B s) (JString s)" for s
    using assms by (simp add: reads_simps boost_builders_def)
  have caps: "reads (boost_view B)
      (bj_of_array B (map (bj_of_string B) (cap_value (resp_capabilities r))))
      (JArray (map JString (cap_value (resp_capabilities r))))"
    using assms by (simp add: reads_simps(4) boost_builders_def list_all2_conv_all_nth strings)
  have obj: "view_members (boost_view B) (bj_of_object B ob) = Some (bj_find B ob)" for ob
    using assms by (simp add: boost_builders_def)
  have ints: "reads (boost_view B) (bj_of_int64 B w) (JInt (sint w))"
    "reads (boost_view B) (bj_of_uint32 B v) (JInt (uint v))"
    "reads (boost_view B) (bj_of_bool B b) (JBool b)" for w v b
    using assms by (simp_all add: reads_simps boost_builders_def)
  have members: "bj_find B (response_root B i r) =
      [''request_id'' \<mapsto> bj_of_string B (uuid_value i), ''ok'' \<mapsto> bj_of_bool B True,
       ''data'' \<mapsto> bj_of_object B (response_data B r)]"
    "bj_find B (response_data B r) =
      [''server_version'' \<mapsto> bj_of_string B (server_version r),
       ''server_time'' \<mapsto> bj_of_int64 B (server_time r),
       ''max_json'' \<mapsto> bj_of_uint32 B (max_json r), ''max_text'' \<mapsto> bj_of_uint32 B (max_text r),
       ''heartbeat_idle'' \<mapsto> bj_of_uint32 B (heartbeat_idle r),
       ''timeout'' \<mapsto> bj_of_uint32 B (timeout r),
       ''capabilities'' \<mapsto> bj_of_array B (map (bj_of_string B) (cap_value (resp_capabilities r)))]"
    using assms by (simp_all add: response_root_def response_data_def boost_builders_def Let_def)
  show ?thesis
    unfolding response_json_def
    by (subst reads_simps)
      (auto simp: obj members reads_simps(5) intro: caps strings ints)
qed

section \<open>They are documents the libraries interchange\<close>

lemma keys_plain:
  "plain_text ''request_id''" "plain_text ''ok''" "plain_text ''data''"
  "plain_text ''client_version''" "plain_text ''platform''" "plain_text ''capabilities''"
  "plain_text ''server_version''" "plain_text ''server_time''" "plain_text ''max_json''"
  "plain_text ''max_text''" "plain_text ''heartbeat_idle''" "plain_text ''timeout''"
  by (rule plain_text_ascii, simp add: ascii_def)+

lemma interchangeable_strings:
  "list_all plain_text ss \<Longrightarrow> list_all (interchangeable n) (map JString ss)"
  by (induction ss) (auto simp: interchangeable_simps)

lemma depth: "kJsonDepth = Suc (Suc (Suc 29))"
  by (simp add: kJsonDepth_def)

lemma request_interchangeable:
  "wire_request r \<Longrightarrow> plain_text (uuid_value i) \<Longrightarrow>
     interchangeable kJsonDepth (request_json i r)"
  by (auto simp: request_json_def depth interchangeable_simps keys_plain wire_request_def
      plain_bounded_def wire_set_def interchangeable_strings)

lemma uint32_safe: "\<bar>uint (w :: 32 word)\<bar> \<le> kMaxSafeInteger"
  using unsigned_less [of w, where 'a = int] by (simp add: kMaxSafeInteger_def)

lemma response_interchangeable:
  "wire_response r \<Longrightarrow> isUuid (uuid_value i) \<Longrightarrow> interchangeable kJsonDepth (response_json i r)"
  using uint32_safe
  by (auto simp: response_json_def depth interchangeable_simps keys_plain wire_response_def
      plain_bounded_def wire_set_def interchangeable_strings)

section \<open>The decoders accept these documents\<close>

lemma read_strings:
  assumes "list_all2 (reads V) vs (map JString ss)"
    and "\<And>v s. view_string V v = Some s \<Longrightarrow> P v \<and> f v = s"
  shows "list_all P vs \<and> map f vs = ss"
  using assms(1)
proof (induction ss arbitrary: vs)
  case (Cons s ss)
  then obtain v ws where "vs = v # ws" "reads V v (JString s)"
    "list_all2 (reads V) ws (map JString ss)"
    by (auto simp: list_all2_Cons2)
  with Cons.IH [of ws] assms(2) [of v s] show ?case by (simp add: reads_simps)
qed simp

lemma boost_strings:
  "list_all2 (reads (boost_view B)) vs (map JString ss) \<Longrightarrow>
     list_all (bj_is_string B) vs \<and> map (bj_as_string B) vs = ss"
  by (erule read_strings) (auto simp: boost_view_def split: if_splits)

lemma qt_strings_read:
  "list_all2 (reads (qt_view Q)) vs (map JString ss) \<Longrightarrow>
     list_all (qv_isString Q) vs \<and> map (item_text Q) vs = ss"
  by (erule read_strings) (auto simp: qt_view_def split: if_splits)

lemma boost_member:
  assumes "reads (boost_view B) v (JObject fs)" and "map_of fs k = Some j"
  shows "bj_is_object B v \<and>
    (\<exists>w. bj_find B (bj_as_object B v) k = Some w \<and> reads (boost_view B) w j)"
proof -
  have "bj_is_object B v" "list_all (\<lambda>(k, j). \<exists>w. bj_find B (bj_as_object B v) k = Some w \<and>
      reads (boost_view B) w j) fs"
    using assms(1) by (auto simp: reads_simps(5) boost_view_def split: if_splits)
  with map_of_SomeD [OF assms(2)] show ?thesis by (auto simp: list_all_iff)
qed

lemma qt_member:
  assumes "reads (qt_view Q) v (JObject fs)" and "map_of fs k = Some j"
  shows "qv_isObject Q v \<and>
    reads (qt_view Q) (qo_value Q (qv_toObject Q v) (q_literal Q k)) j"
proof -
  have "qv_isObject Q v" "list_all (\<lambda>(k, j). 
      reads (qt_view Q) (qo_value Q (qv_toObject Q v) (q_literal Q k)) j) fs"
    using assms(1) by (auto simp: reads_simps(5) qt_view_def list_all_iff split: if_splits)
  with map_of_SomeD [OF assms(2)] show ?thesis by (auto simp: list_all_iff)
qed

lemma boost_reads_kinds:
  "reads (boost_view B) v (JString s) \<longleftrightarrow> bj_is_string B v \<and> bj_as_string B v = s"
  "reads (boost_view B) v (JArray js) \<longleftrightarrow>
     bj_is_array B v \<and> list_all2 (reads (boost_view B)) (bj_as_array B v) js"
  "reads (boost_view B) v (JObject fs) \<Longrightarrow> bj_is_object B v"
  by (auto simp: reads_simps boost_view_def split: if_splits)

lemma qt_reads_kinds:
  "reads (qt_view Q) v (JString s) \<longleftrightarrow> qv_isString Q v \<and> item_text Q v = s"
  "reads (qt_view Q) v (JBool b) \<longleftrightarrow> qv_isBool Q v \<and> qv_toBool Q v = b"
  "reads (qt_view Q) v (JInt n) \<longleftrightarrow> qv_isDouble Q v \<and> qv_toDouble Q v = Finite (of_int n)"
  "reads (qt_view Q) v (JArray js) \<longleftrightarrow>
     qv_isArray Q v \<and> list_all2 (reads (qt_view Q)) (qv_toArray Q v) js"
  "reads (qt_view Q) v (JObject fs) \<Longrightarrow> qv_isObject Q v"
  by (auto simp: reads_simps qt_view_def split: if_splits double.splits)

lemma boost_carries_request:
  assumes "reads (boost_view B) v (request_json i r)" and "wire_request r"
  shows "bj_is_object B v \<and>
    has_string B (bj_as_object B v) ''request_id'' (uuid_value i) \<and>
    (\<exists>data. has_object B (bj_as_object B v) ''data'' data \<and> carries_request B data r)"
proof -
  note member = boost_member [OF assms(1) [unfolded request_json_def]]
  from member [of "''request_id''"] have id: "bj_is_object B v"
    "has_string B (bj_as_object B v) ''request_id'' (uuid_value i)"
    by (auto simp: has_string_def boost_reads_kinds)
  from member [of "''data''"] obtain w where w: "bj_find B (bj_as_object B v) ''data'' = Some w"
    and d: "reads (boost_view B) w (JObject
        [(''client_version'', JString (client_version r)), (''platform'', JString (platform r)),
         (''capabilities'', JArray (map JString (cap_value (req_capabilities r))))])"
    by auto
  note field = boost_member [OF d]
  let ?data = "bj_as_object B w"
  have data: "has_object B (bj_as_object B v) ''data'' ?data"
    using w boost_reads_kinds(3) [OF d] by (simp add: has_object_def)
  have strings: "has_string B ?data ''client_version'' (client_version r)"
    "has_string B ?data ''platform'' (platform r)"
    using field [of "''client_version''"] field [of "''platform''"]
    by (auto simp: has_string_def boost_reads_kinds)
  from field [of "''capabilities''"] obtain arr where
    arr: "has_array B ?data ''capabilities'' arr" "list_all (bj_is_string B) arr"
      "map (bj_as_string B) arr = cap_value (req_capabilities r)"
    using boost_strings by (auto simp: has_array_def boost_reads_kinds)
  have "carries_request B ?data r"
    using strings arr assms(2) caps.rebuilt [of "req_capabilities r"]
    by (auto simp: carries_request_def wire_request_def plain_bounded_def wire_set_def
        CapabilitySet_of_def)
  with id data show ?thesis by blast
qed

lemma qt_root_member:
  assumes "reads (qt_view Q) (qv_of_object Q ob) (JObject fs)" and "qt_builders Q"
    and "map_of fs k = Some j"
  shows "reads (qt_view Q) (qo_value Q ob (q_literal Q k)) j"
proof -
  have "list_all (\<lambda>(k, j). \<exists>w. qo_members Q ob k = Some w \<and> reads (qt_view Q) w j) fs"
    using assms(1,2) by (simp add: reads_simps(5) qt_builders_def)
  with map_of_SomeD [OF assms(3)] show ?thesis
    by (auto simp: list_all_iff qo_members_def split: if_splits)
qed

lemma qt_shows_response:
  assumes "reads (qt_view Q) (qv_of_object Q ob) (response_json i r)" and "qt_builders Q"
    and "wire_response r"
  shows "shows_string Q ob ''request_id'' (uuid_value i) \<and> shows_true Q ob ''ok'' \<and>
    (\<exists>data. shows_object Q ob ''data'' data \<and> shows_response Q data r)"
proof -
  note member = qt_root_member [OF assms(1) [unfolded response_json_def] assms(2)]
  have id: "shows_string Q ob ''request_id'' (uuid_value i)" "shows_true Q ob ''ok''"
    using member [of "''request_id''"] member [of "''ok''"]
    by (simp_all add: shows_defs qt_reads_kinds)
  let ?w = "qo_value Q ob (q_literal Q ''data'')"
  have d: "reads (qt_view Q) ?w (JObject
      [(''server_version'', JString (server_version r)),
       (''server_time'', JInt (sint (server_time r))),
       (''max_json'', JInt (uint (max_json r))), (''max_text'', JInt (uint (max_text r))),
       (''heartbeat_idle'', JInt (uint (heartbeat_idle r))),
       (''timeout'', JInt (uint (timeout r))),
       (''capabilities'', JArray (map JString (cap_value (resp_capabilities r))))])"
    using member [of "''data''"] by simp
  let ?data = "qv_toObject Q ?w"
  have data: "shows_object Q ob ''data'' ?data"
    using qt_reads_kinds(5) [OF d] by (simp add: shows_object_def)
  note field = qt_member [OF d, THEN conjunct2]
  have scalars: "shows_string Q ?data ''server_version'' (server_version r)"
    "shows_number Q ?data ''server_time'' (sint (server_time r))"
    "shows_number Q ?data ''max_json'' (uint (max_json r))"
    "shows_number Q ?data ''max_text'' (uint (max_text r))"
    "shows_number Q ?data ''heartbeat_idle'' (uint (heartbeat_idle r))"
    "shows_number Q ?data ''timeout'' (uint (timeout r))"
    using field [of "''server_version''"] field [of "''server_time''"] field [of "''max_json''"]
      field [of "''max_text''"] field [of "''heartbeat_idle''"] field [of "''timeout''"]
    by (simp_all add: shows_defs qt_reads_kinds)
  from field [of "''capabilities''"] obtain arr where
    arr: "shows_array Q ?data ''capabilities'' arr" "list_all (qv_isString Q) arr"
      "map (item_text Q) arr = cap_value (resp_capabilities r)"
    using qt_strings_read by (auto simp: shows_array_def qt_reads_kinds)
  have "shows_response Q ?data r"
    using scalars arr assms(3) caps.rebuilt [of "resp_capabilities r"]
    by (auto simp: shows_response_def wire_response_def plain_bounded_def wire_set_def
        CapabilitySet_of_def)
  with id data show ?thesis by blast
qed

section \<open>Round trips\<close>

lemma request_arrives:
  assumes "qt_builders Q" and "qt_strings Q" and "qt_to_boost Q B"
    and "wire_request r" and "plain_text (uuid_value i)"
    and "encodeHelloRequest Q i r = Ok text"
  shows "\<exists>w. bj_parse B text = Some w \<and> reads (boost_view B) w (request_json i r)"
  using request_reads [OF assms(1,2,4,5)] request_interchangeable [OF assms(4,5)] assms(3,6)
  by (auto simp: qt_to_boost_def encodeHelloRequest_def)

lemma decodes_request:
  assumes "length json \<le> 65536" and "bj_parse B json = Some v"
    and "reads (boost_view B) v (request_json i r)" and "wire_request r" and "isUuid (uuid_value i)"
  shows "decodeHelloRequest B json id0 = (Ok r, i)"
proof -
  from boost_carries_request [OF assms(3,4)] obtain data where
    d: "bj_is_object B v" "has_string B (bj_as_object B v) ''request_id'' (uuid_value i)"
      "has_object B (bj_as_object B v) ''data'' data" "carries_request B data r"
    by blast
  with assms have "request_envelope_id B json = Some i"
    by (simp add: request_envelope_id_Some kMaxJsonBytes_def)
  from decodeHelloRequest_id [OF this, of id0] show ?thesis
    using d assms by (auto simp: request_root_def has_object_def request_data_Ok kMaxJsonBytes_def)
qed

lemma response_arrives:
  assumes "boost_builders B" and "boost_to_qt B Q" and "wire_response r" and "isUuid (uuid_value i)"
  obtains d where "qd_fromJson Q (encodeHelloResponse B i r) = (d, True)"
    and "\<not> qd_isNull Q d" and "qd_isObject Q d"
    and "reads (qt_view Q) (qv_of_object Q (qd_object Q d)) (response_json i r)"
  using response_reads [OF assms(1)] response_interchangeable [OF assms(3,4)] assms(2)
  unfolding boost_to_qt_def encodeHelloResponse_def by blast

lemma decodes_response:
  assumes "length json \<le> 65536" and "qd_fromJson Q json = (doc, True)"
    and "\<not> qd_isNull Q doc" "qd_isObject Q doc"
    and "reads (qt_view Q) (qv_of_object Q (qd_object Q doc)) (response_json i r)"
    and "qt_builders Q" and "wire_response r" and "isUuid (uuid_value i)"
  shows "decodeHelloResponse Q json id0 = (Ok r, i)"
proof -
  have doc: "response_document Q json = Some (qd_object Q doc)"
    using assms(1-4) by (auto simp: response_document_Some)
  from qt_shows_response [OF assms(5-7)] obtain data where
    d: "shows_string Q (qd_object Q doc) ''request_id'' (uuid_value i)"
      "shows_true Q (qd_object Q doc) ''ok''" "shows_object Q (qd_object Q doc) ''data'' data"
      "shows_response Q data r"
    by blast
  then have "response_envelope_id Q json = Some i"
    using doc assms(8) by (simp add: response_envelope_id_Some)
  with d show ?thesis
    by (auto simp: decodeHelloResponse_document [OF doc] shows_object_def Let_def
        read_response_data_Ok)
qed

text \<open>
  C28 (hello request round trip). A request the client encodes is decoded by the server to
  the same request under the same identifier, whatever the two JSON libraries are, provided
  they read back what they build and interchange documents, and the text fits in 64 KiB.
  It holds for every request within the bounds of the wire with text in UTF-8.
\<close>

theorem hello_request_roundtrip:
  assumes "qt_builders Q" and "qt_strings Q" and "qt_to_boost Q B"
    and "wire_request r" and "isUuid (uuid_value i)"
    and "encodeHelloRequest Q i r = Ok text" and "length text \<le> 65536"
  shows "decodeHelloRequest B text id0 = (Ok r, i)"
proof -
  have "\<exists>w. bj_parse B text = Some w \<and> reads (boost_view B) w (request_json i r)"
    using request_arrives [OF assms(1-4) isUuid_plain [OF assms(5)] assms(6)] .
  then obtain w where "bj_parse B text = Some w" "reads (boost_view B) w (request_json i r)"
    by blast
  then show ?thesis by (rule decodes_request [OF assms(7) _ _ assms(4,5)])
qed

definition sample_id :: RequestId where
  "sample_id = UuidId ''6ba7b810-9dad-41d1-80b4-00c04fd430c8''"

definition sample_request :: HelloRequest where
  "sample_request = \<lparr>client_version = ''1.0'', platform = ''windows'',
     req_capabilities = CapabilitySet_of [''text_v1'', ''file_v1'', ''text_v1'']\<rparr>"

definition sample_response :: HelloResponse where
  "sample_response = HelloResponse_default\<lparr>server_time := 1700000000,
     resp_capabilities := CapabilitySet_of [kCapabilityTextV1]\<rparr>"

lemma sample_set: "wire_set (CapabilitySet_of [''text_v1'', ''file_v1'', ''text_v1''])"
  "wire_set (CapabilitySet_of [''text_v1''])"
proof -
  have "list_all plain_text (cap_value (CapabilitySet_of vs)) \<longleftrightarrow> list_all plain_text vs"
    "list_all (bounded_text n) (cap_value (CapabilitySet_of vs)) \<longleftrightarrow> list_all (bounded_text n) vs" for vs n
    by (simp_all add: list_all_iff)
  moreover have "plain_text ''text_v1''" "plain_text ''file_v1''"
    by (rule plain_text_ascii, simp add: ascii_def)+
  moreover have "length (cap_value (CapabilitySet_of [''text_v1'', ''file_v1'', ''text_v1''])) = 2"
    "length (cap_value (CapabilitySet_of [''text_v1''])) = 1"
    by code_simp+
  ultimately show "wire_set (CapabilitySet_of [''text_v1'', ''file_v1'', ''text_v1''])"
    "wire_set (CapabilitySet_of [''text_v1''])"
    by (simp_all add: wire_set_def wire_capabilities_def bounded_text_def)
qed

lemma sample_valid: "wire_request sample_request" "wire_response sample_response"
  "isUuid (uuid_value sample_id)"
proof -
  have "plain_text ''1.0''" "plain_text ''windows''"
    by (rule plain_text_ascii, simp add: ascii_def)+
  then show "wire_request sample_request" "wire_response sample_response"
    using sample_set
    by (simp_all add: wire_request_def wire_response_def sample_request_def sample_response_def
        HelloResponse_default_def kServerVersion_def kCapabilityTextV1_def plain_bounded_def
        bounded_text_def kMaxSafeInteger_def)
  show "isUuid (uuid_value sample_id)" by code_simp
qed

lemma sample_request_text:
  "encodeHelloRequest doc_qt sample_id sample_request = Ok
     (''{\"request_id\":\"6ba7b810-9dad-41d1-80b4-00c04fd430c8\",'' @
      ''\"data\":{\"client_version\":\"1.0\",\"platform\":\"windows\",'' @
      ''\"capabilities\":[\"file_v1\",\"text_v1\"]}}'')"
  by code_simp

theorem hello_request_roundtrip_witness:
  "decodeHelloRequest doc_boost
     (''{\"request_id\":\"6ba7b810-9dad-41d1-80b4-00c04fd430c8\",'' @
      ''\"data\":{\"client_version\":\"1.0\",\"platform\":\"windows\",'' @
      ''\"capabilities\":[\"file_v1\",\"text_v1\"]}}'') UuidId_default =
   (Ok sample_request, sample_id)"
  by (rule hello_request_roundtrip [OF doc_laws(2-4) sample_valid(1,3) sample_request_text]) simp

text \<open>
  C29 (hello response round trip). A response the server encodes is decoded by the client to
  the same response under the same identifier, for any two libraries that keep the laws:
  the numbers survive the way through \<^verbatim>\<open>double\<close>, and the capabilities are the same set.
\<close>

theorem hello_response_roundtrip:
  assumes "boost_builders B" and "qt_builders Q" and "boost_to_qt B Q"
    and "wire_response r" and "isUuid (uuid_value i)"
    and "length (encodeHelloResponse B i r) \<le> 65536"
  shows "decodeHelloResponse Q (encodeHelloResponse B i r) id0 = (Ok r, i)"
proof -
  obtain d where "qd_fromJson Q (encodeHelloResponse B i r) = (d, True)"
      "\<not> qd_isNull Q d" "qd_isObject Q d"
      "reads (qt_view Q) (qv_of_object Q (qd_object Q d)) (response_json i r)"
    using response_arrives [OF assms(1,3-5)] .
  then show ?thesis by (rule decodes_response [OF assms(6) _ _ _ _ assms(2,4,5)])
qed

lemma sample_response_text:
  "encodeHelloResponse doc_boost sample_id sample_response =
     ''{\"request_id\":\"6ba7b810-9dad-41d1-80b4-00c04fd430c8\",\"ok\":true,'' @
     ''\"data\":{\"server_version\":\"1.0\",\"server_time\":1700000000,\"max_json\":65536,'' @
     ''\"max_text\":4096,\"heartbeat_idle\":20000,\"timeout\":60000,'' @
     ''\"capabilities\":[\"text_v1\"]}}''"
  by (simp add: encodeHelloResponse_def doc_boost_def response_root_def response_data_def
      sample_response_def sample_id_def HelloResponse_default_def CapabilitySet_of_def
      CapabilitySet_default_def cap_insert_def kCapabilityTextV1_def kServerVersion_def
      kMaxJsonBytes_def kMaxTextBytes_def kHeartbeatIdleMs_def kSessionTimeoutMs_def
      print_string_def print_int_def backslash_def to_string.simps digit_char_def) code_simp

theorem hello_response_roundtrip_witness:
  "decodeHelloResponse doc_qt (encodeHelloResponse doc_boost sample_id sample_response)
     UuidId_default = (Ok sample_response, sample_id)"
  by (rule hello_response_roundtrip [OF doc_laws(1,2,5) sample_valid(2,3)])
    (simp add: sample_response_text)

text \<open>
  C30 (the client encodes what it is given). Encoding a request succeeds for every input, so
  no local check keeps a bad request from the wire: a request whose identifier is text but
  no version 4 UUID, such as a default-constructed one, is encoded, and the server answers
  it with \<open>invalid_request_id\<close> without storing an identifier.
\<close>

theorem encodeHelloRequest_unchecked:
  assumes "qt_builders Q" and "qt_strings Q" and "qt_to_boost Q B"
    and "wire_request r" and "plain_text (uuid_value i)" and "\<not> isUuid (uuid_value i)"
  shows "\<exists>text. encodeHelloRequest Q i r = Ok text \<and>
    (length text \<le> 65536 \<longrightarrow>
      (\<exists>e. decodeHelloRequest B text id0 = (Err e, id0) \<and> code e = ''invalid_request_id''))"
proof -
  define sent where "sent = qd_toJson_compact Q (qd_of_object Q (request_root_object Q i r))"
  have enc: "encodeHelloRequest Q i r = Ok sent"
    by (simp add: encodeHelloRequest_def sent_def)
  from request_arrives [OF assms(1-5) enc] obtain w where
    w: "bj_parse B sent = Some w" "reads (boost_view B) w (request_json i r)" by blast
  from boost_carries_request [OF w(2) assms(4)] have
    d: "bj_is_object B w" "has_string B (bj_as_object B w) ''request_id'' (uuid_value i)"
    by blast+
  have "request_envelope_id B sent = None"
    using w(1) d assms(6)
    by (auto simp: request_envelope_id_def request_root_def has_string_def UuidId_parse_def)
  from decodeHelloRequest_no_id [OF this, of id0] show ?thesis
    using enc w(1) d(1) by (auto simp: kMaxJsonBytes_def)
qed

theorem encodeHelloRequest_unchecked_witness:
  "\<exists>text. encodeHelloRequest doc_qt UuidId_default sample_request = Ok text \<and>
    (length text \<le> 65536 \<longrightarrow>
      (\<exists>e. decodeHelloRequest doc_boost text sample_id = (Err e, sample_id) \<and>
        code e = ''invalid_request_id''))"
proof (rule encodeHelloRequest_unchecked [OF doc_laws(2-4) sample_valid(1)])
  show "plain_text (uuid_value (UuidId_default :: RequestId))"
    by (rule plain_text_ascii) (simp add: UuidId_default_def ascii_def)
  show "\<not> isUuid (uuid_value (UuidId_default :: RequestId))"
    by (simp add: UuidId_default_def isUuid_def)
qed

end
