(* ===== verification/Tls_Handshake.thy ===== *)
theory Tls_Handshake
  imports Chathub_Prelude
begin

text \<open>
  \<^verbatim>\<open>chat-server/src/tls_handshake.cpp\<close>: one server-side TLS handshake with a timeout of five
  seconds. Two completion callbacks, of a timer and of \<^verbatim>\<open>async_handshake\<close>, share a state and
  run one at a time on a strand, in either order. The callbacks are functions on the state,
  translated from the lambdas; the I/O library is a step relation: a timer expires or is
  cancelled, the handshake ends with some error code, and completed operations wait in the
  queue of the strand until their callback runs.
\<close>

section \<open>State\<close>

datatype HandshakeStatus = hs_ok | hs_timeout | hs_error

text \<open>\<^verbatim>\<open>asio::error_code\<close>: true in a condition when it is not zero.\<close>

type_synonym error_code = int

text \<open>
  The members of \<^verbatim>\<open>Shared\<close> the callbacks use: the shared pointer to the stream (\<open>None\<close> is
  null, as after a move), whether the handler is not empty, and the two flags.
\<close>

record 's Shared =
  stream :: "'s option"
  has_handler :: bool
  completed :: bool
  timeout_started :: bool

text \<open>
  An asynchronous wait: not yet over, over with its callback in the queue of the strand, or
  called back. The same for the handshake.
\<close>

datatype operation = Pending | Queued error_code | Called

text \<open>
  A connection: the shared state, what the I/O library holds (both operations, the clock and
  the expiry of the timer in milliseconds, whether the socket is open) and the calls of the
  handler so far.
\<close>

record 's connection =
  shared :: "'s Shared"
  timer :: operation
  handshake :: operation
  now :: nat
  expiry :: nat
  socket_open :: bool
  calls :: "(HandshakeStatus \<times> 's option) list"

section \<open>The callbacks\<close>

text \<open>\<^verbatim>\<open>if (state->handler) state->handler(status, stream)\<close>.\<close>

definition call_handler ::
  "HandshakeStatus \<Rightarrow> 's option \<Rightarrow> 's connection \<Rightarrow> 's connection" where
  "call_handler status s c =
     (if has_handler (shared c) then c\<lparr>calls := calls c @ [(status, s)]\<rparr> else c)"

text \<open>
  \<^verbatim>\<open>state->stream->lowest_layer().close(ec)\<close>: \<open>None\<close> stands for the undefined behaviour of a
  null pointer.
\<close>

definition close_stream :: "'s connection \<Rightarrow> 's connection option" where
  "close_stream c =
     (case stream (shared c) of None \<Rightarrow> None | Some _ \<Rightarrow> Some (c\<lparr>socket_open := False\<rparr>))"

text \<open>
  \<^verbatim>\<open>steady_timer::cancel\<close>: a pending wait ends with \<^verbatim>\<open>operation_aborted\<close>; one whose callback
  is already in the queue can no longer be cancelled.
\<close>

definition operation_aborted :: error_code where
  "operation_aborted = 995"

definition cancel_timer :: "'s connection \<Rightarrow> 's connection" where
  "cancel_timer c = (if timer c = Pending then c\<lparr>timer := Queued operation_aborted\<rparr> else c)"

definition timer_callback :: "error_code \<Rightarrow> 's connection \<Rightarrow> 's connection option" where
  "timer_callback ec c =
     (if ec \<noteq> 0 \<or> completed (shared c) then Some c
      else close_stream (c\<lparr>shared := (shared c)\<lparr>timeout_started := True\<rparr>\<rparr>))"

text \<open>
  On success the pointer is moved to a local variable, which is passed to the handler or,
  without a handler, destroyed at the end of the callback: the last owner closes the socket.
\<close>

definition handshake_callback :: "error_code \<Rightarrow> 's connection \<Rightarrow> 's connection option" where
  "handshake_callback ec c =
     (if completed (shared c) then Some c
      else let c = c\<lparr>shared := (shared c)\<lparr>completed := True\<rparr>\<rparr>; c = cancel_timer c
      in if timeout_started (shared c) then Some (call_handler hs_timeout None c)
      else if ec \<noteq> 0 then
        (case close_stream c of None \<Rightarrow> None | Some c \<Rightarrow> Some (call_handler hs_error None c))
      else let local = stream (shared c); c = c\<lparr>shared := (shared c)\<lparr>stream := None\<rparr>\<rparr>
      in if has_handler (shared c) then Some (call_handler hs_ok local c)
         else Some (c\<lparr>socket_open := False\<rparr>))"

text \<open>
  \<^verbatim>\<open>asyncServerHandshake\<close>: builds the shared state around the stream over the connected
  socket, starts the timer of 5 seconds and the handshake.
\<close>

definition handshake_timeout_ms :: nat where
  "handshake_timeout_ms = 5 * 1000"

definition asyncServerHandshake :: "'s \<Rightarrow> bool \<Rightarrow> nat \<Rightarrow> 's connection" where
  "asyncServerHandshake s handler t0 =
     \<lparr>shared = \<lparr>stream = Some s, has_handler = handler, completed = False,
                timeout_started = False\<rparr>,
      timer = Pending, handshake = Pending, now = t0, expiry = t0 + handshake_timeout_ms,
      socket_open = True, calls = []\<rparr>"

section \<open>The I/O library as a step relation\<close>

text \<open>
  \<open>event\<close>: an operation ends, or the strand runs a queued callback. The wait ends without an
  error only when the timer has expired; the handshake may end with any code at any time,
  also without an error after the socket has been closed (its last bytes may have been
  read before). Time passes in \<open>tick\<close> steps.
\<close>

inductive event :: "'s connection \<Rightarrow> 's connection \<Rightarrow> bool" where
  expire: "timer c = Pending \<Longrightarrow> expiry c \<le> now c \<Longrightarrow> event c (c\<lparr>timer := Queued 0\<rparr>)"
| run_timer: "timer c = Queued ec \<Longrightarrow> timer_callback ec (c\<lparr>timer := Called\<rparr>) = Some c' \<Longrightarrow>
    event c c'"
| finish: "handshake c = Pending \<Longrightarrow> event c (c\<lparr>handshake := Queued ec\<rparr>)"
| run_handshake: "handshake c = Queued ec \<Longrightarrow>
    handshake_callback ec (c\<lparr>handshake := Called\<rparr>) = Some c' \<Longrightarrow> event c c'"

inductive step :: "'s connection \<Rightarrow> 's connection \<Rightarrow> bool" where
  by_event: "event c c' \<Longrightarrow> step c c'"
| tick: "step c (c\<lparr>now := now c + d\<rparr>)"

inductive_cases eventE: "event c c'"
inductive_cases stepE: "step c c'"

definition quiescent :: "'s connection \<Rightarrow> bool" where
  "quiescent c \<longleftrightarrow> timer c = Called \<and> handshake c = Called"

section \<open>Systems that come to rest\<close>

text \<open>
  The interface between a step relation and its claims: an invariant that every step keeps,
  and a rank that bounds the events still to come.
\<close>

locale settling_system =
  fixes step :: "'c \<Rightarrow> 'c \<Rightarrow> bool" and event :: "'c \<Rightarrow> 'c \<Rightarrow> bool"
    and inv :: "'c \<Rightarrow> bool" and rank :: "'c \<Rightarrow> nat" and final :: "'c \<Rightarrow> bool"
  assumes inv_step: "inv c \<Longrightarrow> step c c' \<Longrightarrow> inv c'"
    and event_step: "event c c' \<Longrightarrow> step c c'"
    and rank_event: "inv c \<Longrightarrow> event c c' \<Longrightarrow> rank c' < rank c"
    and progress: "inv c \<Longrightarrow> \<not> final c \<Longrightarrow> \<exists>c'. event c c'"
begin

lemma inv_reached: "step\<^sup>*\<^sup>* c c' \<Longrightarrow> inv c \<Longrightarrow> inv c'"
  by (induction rule: rtranclp_induct) (auto intro: inv_step)

lemma events_bounded: "inv c \<Longrightarrow> (event ^^ n) c c' \<Longrightarrow> n + rank c' \<le> rank c"
proof (induction n arbitrary: c')
  case (Suc n)
  from Suc.prems(2) obtain d where d: "(event ^^ n) c d" "event d c'" by auto
  have "event\<^sup>*\<^sup>* c d" using d(1) by (rule relpowp_imp_rtranclp)
  then have "step\<^sup>*\<^sup>* c d" using event_step by (metis mono_rtranclp)
  then have "inv d" using Suc.prems(1) by (rule inv_reached)
  with d rank_event [of d c'] Suc.IH [OF Suc.prems(1) d(1)] show ?case by simp
qed simp

lemma settles: "inv c \<Longrightarrow> \<exists>c'. event\<^sup>*\<^sup>* c c' \<and> final c'"
proof (induction "rank c" arbitrary: c rule: less_induct)
  case less
  show ?case
  proof (cases "final c")
    case False
    with less.prems progress obtain d where d: "event c d" by blast
    with less.prems have "inv d" "rank d < rank c"
      using inv_step event_step rank_event by blast+
    from less.hyps [OF this(2,1)] d show ?thesis
      by (meson converse_rtranclp_into_rtranclp)
  qed auto
qed

end

section \<open>The invariant of a handshake\<close>

text \<open>
  \<open>reported s c call\<close>: the end of the handshake is reported as \<open>call\<close>, and the socket is
  in the state that this report promises.
\<close>

fun reported :: "'s \<Rightarrow> 's connection \<Rightarrow> HandshakeStatus \<Rightarrow> 's option \<Rightarrow> bool" where
  "reported s c hs_ok given \<longleftrightarrow>
     given = Some s \<and> \<not> timeout_started (shared c) \<and> socket_open c = has_handler (shared c)"
| "reported s c hs_timeout given \<longleftrightarrow>
     given = None \<and> timeout_started (shared c) \<and> \<not> socket_open c \<and> expiry c \<le> now c"
| "reported s c hs_error given \<longleftrightarrow>
     given = None \<and> \<not> timeout_started (shared c) \<and> \<not> socket_open c"

definition running :: "'s \<Rightarrow> 's connection \<Rightarrow> bool" where
  "running s c \<longleftrightarrow>
     \<not> completed (shared c) \<and> stream (shared c) = Some s \<and> calls c = [] \<and> handshake c \<noteq> Called \<and>
     (timeout_started (shared c) \<longleftrightarrow> timer c = Called) \<and>
     socket_open c = (\<not> timeout_started (shared c)) \<and>
     (timer c = Pending \<or> timer c = Queued 0 \<and> expiry c \<le> now c \<or>
      timer c = Called \<and> expiry c \<le> now c)"

definition ended :: "'s \<Rightarrow> 's connection \<Rightarrow> bool" where
  "ended s c \<longleftrightarrow>
     completed (shared c) \<and> handshake c = Called \<and> timer c \<noteq> Pending \<and>
     (\<exists>status given. reported s c status given \<and>
       calls c = (if has_handler (shared c) then [(status, given)] else []))"

definition handshake_inv :: "'s \<Rightarrow> bool \<Rightarrow> nat \<Rightarrow> 's connection \<Rightarrow> bool" where
  "handshake_inv s h t0 c \<longleftrightarrow>
     has_handler (shared c) = h \<and> expiry c = t0 + handshake_timeout_ms \<and>
     (running s c \<or> ended s c)"

text \<open>How many events are still to come at most.\<close>

fun operation_rank :: "operation \<Rightarrow> nat" where
  "operation_rank Pending = 2"
| "operation_rank (Queued _) = 1"
| "operation_rank Called = 0"

definition handshake_rank :: "'s connection \<Rightarrow> nat" where
  "handshake_rank c = operation_rank (timer c) + operation_rank (handshake c)"

lemma inv_init: "handshake_inv s h t0 (asyncServerHandshake s h t0)"
  by (simp add: handshake_inv_def asyncServerHandshake_def running_def)

lemmas callback_defs = timer_callback_def handshake_callback_def close_stream_def
  call_handler_def cancel_timer_def Let_def

lemma reported_now: "reported s c st g \<Longrightarrow> now c \<le> t \<Longrightarrow> reported s (c\<lparr>now := t\<rparr>) st g"
  by (cases st) auto

lemma reported_timer [simp]: "reported s (c\<lparr>timer := tm\<rparr>) st g \<longleftrightarrow> reported s c st g"
  by (cases st) auto

lemma timer_callback_inv:
  assumes "handshake_inv s h t0 c" and "timer c = Queued ec"
    and "timer_callback ec (c\<lparr>timer := Called\<rparr>) = Some c'"
  shows "handshake_inv s h t0 c'"
proof (cases "running s c")
  case True
  with assms(2,3) have "c' = c\<lparr>timer := Called, shared := (shared c)\<lparr>timeout_started := True\<rparr>,
      socket_open := False\<rparr>" and "expiry c \<le> now c"
    by (auto simp: running_def callback_defs)
  with True assms(1) show ?thesis by (simp add: handshake_inv_def running_def)
next
  case False
  with assms(1) have e: "ended s c" by (simp add: handshake_inv_def)
  with assms(3) have "c' = c\<lparr>timer := Called\<rparr>" by (simp add: ended_def timer_callback_def)
  with e assms(1) show ?thesis by (simp add: handshake_inv_def ended_def)
qed

lemma cancel_timer_fields [simp]:
  "shared (cancel_timer c) = shared c" "handshake (cancel_timer c) = handshake c"
  "now (cancel_timer c) = now c" "expiry (cancel_timer c) = expiry c"
  "socket_open (cancel_timer c) = socket_open c" "calls (cancel_timer c) = calls c"
  "timer (cancel_timer c) \<noteq> Pending"
  by (simp_all add: cancel_timer_def)

lemma call_handler_fields [simp]:
  "shared (call_handler st g c) = shared c" "handshake (call_handler st g c) = handshake c"
  "timer (call_handler st g c) = timer c" "now (call_handler st g c) = now c"
  "expiry (call_handler st g c) = expiry c" "socket_open (call_handler st g c) = socket_open c"
  "calls (call_handler st g c) = calls c @ (if has_handler (shared c) then [(st, g)] else [])"
  by (simp_all add: call_handler_def)

lemma reported_fields:
  "reported s c st g \<longleftrightarrow>
     (case st of
        hs_ok \<Rightarrow> g = Some s \<and> \<not> timeout_started (shared c) \<and> socket_open c = has_handler (shared c)
      | hs_timeout \<Rightarrow> g = None \<and> timeout_started (shared c) \<and> \<not> socket_open c \<and> expiry c \<le> now c
      | hs_error \<Rightarrow> g = None \<and> \<not> timeout_started (shared c) \<and> \<not> socket_open c)"
  by (cases st) simp_all

text \<open>What a handshake callback does that finds the handshake still running.\<close>

lemma running_handshake_callback:
  assumes "running s c" and "handshake_callback ec (c\<lparr>handshake := Called\<rparr>) = Some c'"
    and "status = (if timeout_started (shared c) then hs_timeout else if ec \<noteq> 0 then hs_error else hs_ok)"
    and "given = (if status = hs_ok then Some s else None)"
  shows "completed (shared c') \<and> handshake c' = Called \<and> timer c' \<noteq> Pending"
    and "has_handler (shared c') = has_handler (shared c) \<and> expiry c' = expiry c"
    and "reported s c' status given"
    and "calls c' = (if has_handler (shared c) then [(status, given)] else [])"
proof -
  from assms(1) have r: "\<not> completed (shared c)" "stream (shared c) = Some s" "calls c = []"
      "socket_open c = (\<not> timeout_started (shared c))"
      "timeout_started (shared c) \<Longrightarrow> expiry c \<le> now c"
    by (auto simp: running_def)
  consider (timeout) "timeout_started (shared c)" | (error) "\<not> timeout_started (shared c)" "ec \<noteq> 0"
    | (given) "\<not> timeout_started (shared c)" "ec = 0" "has_handler (shared c)"
    | (dropped) "\<not> timeout_started (shared c)" "ec = 0" "\<not> has_handler (shared c)"
    by blast
  then have "(completed (shared c') \<and> handshake c' = Called \<and> timer c' \<noteq> Pending) \<and>
    (has_handler (shared c') = has_handler (shared c) \<and> expiry c' = expiry c) \<and>
    reported s c' status given \<and>
    calls c' = (if has_handler (shared c) then [(status, given)] else [])"
    using assms(2) r unfolding assms(3,4)
    by cases (auto simp: handshake_callback_def close_stream_def Let_def reported_fields)
  then show "completed (shared c') \<and> handshake c' = Called \<and> timer c' \<noteq> Pending"
    and "has_handler (shared c') = has_handler (shared c) \<and> expiry c' = expiry c"
    and "reported s c' status given"
    and "calls c' = (if has_handler (shared c) then [(status, given)] else [])"
    by blast+
qed

lemma handshake_callback_inv:
  assumes "handshake_inv s h t0 c" and "handshake c = Queued ec"
    and "handshake_callback ec (c\<lparr>handshake := Called\<rparr>) = Some c'"
  shows "handshake_inv s h t0 c'"
proof -
  have "running s c" using assms(1,2) by (auto simp: handshake_inv_def ended_def)
  note c' = running_handshake_callback [OF this assms(3) refl refl]
  then have "ended s c'" unfolding ended_def by metis
  with c'(2) assms(1) show ?thesis unfolding handshake_inv_def by simp
qed

lemma expire_inv:
  "handshake_inv s h t0 c \<Longrightarrow> timer c = Pending \<Longrightarrow> expiry c \<le> now c \<Longrightarrow>
     handshake_inv s h t0 (c\<lparr>timer := Queued 0\<rparr>)"
  by (auto simp: handshake_inv_def running_def ended_def)

lemma finish_inv:
  "handshake_inv s h t0 c \<Longrightarrow> handshake c = Pending \<Longrightarrow>
     handshake_inv s h t0 (c\<lparr>handshake := Queued ec\<rparr>)"
  by (auto simp: handshake_inv_def running_def ended_def)

lemma tick_inv: "handshake_inv s h t0 c \<Longrightarrow> handshake_inv s h t0 (c\<lparr>now := now c + d\<rparr>)"
  unfolding handshake_inv_def ended_def running_def
  by (auto intro!: exI reported_now)

lemma step_inv: "handshake_inv s h t0 c \<Longrightarrow> step c c' \<Longrightarrow> handshake_inv s h t0 c'"
  by (erule stepE, erule eventE)
    (auto intro: expire_inv finish_inv tick_inv timer_callback_inv handshake_callback_inv)

lemma callbacks_defined:
  assumes "handshake_inv s h t0 c"
  shows "timer c = Queued ec \<Longrightarrow> timer_callback ec (c\<lparr>timer := Called\<rparr>) \<noteq> None"
    and "handshake c = Queued ec \<Longrightarrow> handshake_callback ec (c\<lparr>handshake := Called\<rparr>) \<noteq> None"
  using assms
  by (auto simp: handshake_inv_def running_def ended_def timer_callback_def close_stream_def
      handshake_callback_def Let_def)

lemma timer_callback_operations:
  "timer_callback ec c = Some c' \<Longrightarrow> timer c' = timer c \<and> handshake c' = handshake c"
  by (auto simp: timer_callback_def close_stream_def split: if_splits option.splits)

lemma handshake_callback_operations:
  "handshake_callback ec c = Some c' \<Longrightarrow>
     handshake c' = handshake c \<and> operation_rank (timer c') \<le> operation_rank (timer c)"
  by (auto simp: handshake_callback_def close_stream_def call_handler_def cancel_timer_def Let_def
      split: if_splits option.splits)

lemma event_rank: "event c c' \<Longrightarrow> handshake_rank c' < handshake_rank c"
  by (erule eventE)
    (auto simp: handshake_rank_def dest: timer_callback_operations handshake_callback_operations)

lemma event_possible:
  assumes "handshake_inv s h t0 c" and "\<not> quiescent c"
  shows "\<exists>c'. event c c'"
proof (cases "handshake c")
  case Pending
  then show ?thesis by (blast intro: finish)
next
  case (Queued ec)
  with callbacks_defined(2) [OF assms(1) Queued] show ?thesis by (blast intro: run_handshake)
next
  case Called
  with assms obtain ec where "timer c = Queued ec"
    by (cases "timer c") (auto simp: quiescent_def handshake_inv_def running_def ended_def)
  with callbacks_defined(1) [OF assms(1) this] show ?thesis by (blast intro: run_timer)
qed

interpretation hs: settling_system step event "handshake_inv s h t0" handshake_rank quiescent
  by unfold_locales (auto intro: step_inv by_event event_rank dest: event_possible)

section \<open>Properties\<close>

text \<open>
  C3 (the handler is called at most once, with what the contract promises). In every state a
  handshake can reach, by any interleaving of expiry, cancellation, completion and the two
  callbacks, the handler has been called at most once and never if it is empty. If it was
  called with \<open>ok\<close> it got the stream and the socket is open; with \<open>error\<close> or \<open>timeout\<close> it
  got null and the socket is closed, and a timeout is only reported after five seconds.
\<close>

theorem handshake_reports_once:
  assumes "step\<^sup>*\<^sup>* (asyncServerHandshake s h t0) c"
  shows "length (calls c) \<le> (if h then 1 else 0) \<and>
    list_all (\<lambda>(status, given). case status of
        hs_ok \<Rightarrow> given = Some s \<and> socket_open c
      | hs_error \<Rightarrow> given = None \<and> \<not> socket_open c
      | hs_timeout \<Rightarrow> given = None \<and> \<not> socket_open c \<and> t0 + 5000 \<le> now c) (calls c)"
proof -
  have "handshake_inv s h t0 c"
    using assms inv_init by (rule hs.inv_reached)
  then have h: "has_handler (shared c) = h" "expiry c = t0 + 5000"
    and "running s c \<or> ended s c"
    by (simp_all add: handshake_inv_def handshake_timeout_ms_def)
  then consider "calls c = []" | status given where "reported s c status given"
      "calls c = (if h then [(status, given)] else [])"
    by (auto simp: running_def ended_def)
  then show ?thesis
  proof cases
    case (2 status given)
    with h show ?thesis by (cases h; cases status) auto
  qed simp
qed

text \<open>
  C33 (no callback touches the stream after it was given away). In every reachable state,
  running a queued callback is defined: no null pointer is dereferenced, also when the timer
  expired just before the handshake ended and its callback runs after the pointer was moved
  to the handler.
\<close>

theorem handshake_callbacks_safe:
  assumes "step\<^sup>*\<^sup>* (asyncServerHandshake s h t0) c"
  shows "(case timer c of Queued ec \<Rightarrow> timer_callback ec (c\<lparr>timer := Called\<rparr>) \<noteq> None | _ \<Rightarrow> True) \<and>
    (case handshake c of Queued ec \<Rightarrow> handshake_callback ec (c\<lparr>handshake := Called\<rparr>) \<noteq> None | _ \<Rightarrow> True)"
proof -
  have "handshake_inv s h t0 c"
    using assms inv_init by (rule hs.inv_reached)
  from callbacks_defined [OF this] show ?thesis by (simp split: operation.split)
qed

text \<open>
  C10 (every handshake is reported). From every reachable state at most four more events can
  happen, the next one is always possible until both callbacks have run, and when they have,
  the flow is complete and the handler, if there is one, has been called exactly once.
\<close>

theorem handshake_always_reports:
  assumes "step\<^sup>*\<^sup>* (asyncServerHandshake s h t0) c"
  shows "(\<forall>n c'. (event ^^ n) c c' \<longrightarrow> n \<le> 4) \<and>
    (quiescent c \<or> (\<exists>c'. event c c')) \<and>
    (\<exists>c'. event\<^sup>*\<^sup>* c c' \<and> quiescent c') \<and>
    (quiescent c \<longrightarrow> completed (shared c) \<and> length (calls c) = (if h then 1 else 0))"
proof -
  have i: "handshake_inv s h t0 c"
    using assms inv_init by (rule hs.inv_reached)
  have "operation_rank p \<le> 2" for p by (cases p) simp_all
  from this [of "timer c"] this [of "handshake c"] have "handshake_rank c \<le> 4"
    by (simp add: handshake_rank_def)
  then have "\<forall>n c'. (event ^^ n) c c' \<longrightarrow> n \<le> 4"
    using hs.events_bounded [OF i] by fastforce
  moreover have "quiescent c \<longrightarrow> completed (shared c) \<and> length (calls c) = (if h then 1 else 0)"
    using i by (auto simp: quiescent_def handshake_inv_def running_def ended_def)
  ultimately show ?thesis
    using hs.settles [OF i] event_possible [OF i] by blast
qed

lemma completed_step:
  assumes "completed (shared c)" and "step c c'"
  shows "completed (shared c') \<and> calls c' = calls c \<and> socket_open c' = socket_open c"
  using assms(2,1)
  by (auto elim!: stepE eventE simp: timer_callback_def handshake_callback_def)

lemma completed_steps:
  "step\<^sup>*\<^sup>* c c' \<Longrightarrow> completed (shared c) \<Longrightarrow>
     completed (shared c') \<and> calls c' = calls c \<and> socket_open c' = socket_open c"
  by (induction rule: rtranclp_induct) (auto dest: completed_step)

text \<open>
  C9 (the first callback decides, once and for all). When the handshake callback runs, the
  handler is told \<open>timeout\<close> if the callback of the expired timer ran before it, whatever the
  handshake itself ended with; otherwise \<open>error\<close> or \<open>ok\<close> by the error code. Nothing that
  happens afterwards, such as a late timer callback, calls the handler again, closes a
  socket that was handed over or opens one that was closed.
\<close>

theorem handshake_outcome_final:
  assumes "step\<^sup>*\<^sup>* (asyncServerHandshake s True t0) c" and "handshake c = Queued ec"
    and "handshake_callback ec (c\<lparr>handshake := Called\<rparr>) = Some c'" and "step\<^sup>*\<^sup>* c' c''"
  shows "calls c'' =
      [if timer c = Called then (hs_timeout, None)
       else if ec \<noteq> 0 then (hs_error, None) else (hs_ok, Some s)] \<and>
    socket_open c'' = (timer c \<noteq> Called \<and> ec = 0)"
proof -
  have "handshake_inv s True t0 c"
    using assms(1) inv_init by (rule hs.inv_reached)
  with assms(2) have r: "running s c" "has_handler (shared c)"
    by (auto simp: handshake_inv_def ended_def)
  note c' = running_handshake_callback [OF r(1) assms(3) refl refl]
  have "timeout_started (shared c) \<longleftrightarrow> timer c = Called"
    using r(1) by (simp add: running_def)
  with c' r(2) have "calls c' = [if timer c = Called then (hs_timeout, None)
       else if ec \<noteq> 0 then (hs_error, None) else (hs_ok, Some s)]"
    "socket_open c' = (timer c \<noteq> Called \<and> ec = 0)"
    by (auto simp: reported_fields split: if_splits)
  with completed_steps [OF assms(4)] c'(1) show ?thesis by simp
qed

section \<open>Witnesses\<close>

text \<open>
  A run in which the handshake ends without an error after the timer has expired, and the
  callback of the timer runs first.
\<close>

definition late_state :: "nat connection" where
  "late_state = (asyncServerHandshake 7 True 0)
     \<lparr>now := 5000, timer := Called, handshake := Queued 0, socket_open := False,
      shared := \<lparr>stream = Some 7, has_handler = True, completed = False, timeout_started = True\<rparr>\<rparr>"

lemma late_reached: "step\<^sup>*\<^sup>* (asyncServerHandshake 7 True 0) late_state"
proof -
  let ?c0 = "asyncServerHandshake 7 True 0 :: nat connection"
  have "step ?c0 (?c0\<lparr>now := 5000\<rparr>)"
    using tick [of ?c0 5000] by (simp add: asyncServerHandshake_def)
  moreover have "step (?c0\<lparr>now := 5000\<rparr>) (?c0\<lparr>now := 5000, timer := Queued 0\<rparr>)"
    by (rule by_event, rule expire [of "?c0\<lparr>now := 5000\<rparr>", simplified])
      (simp_all add: asyncServerHandshake_def handshake_timeout_ms_def)
  moreover have "step (?c0\<lparr>now := 5000, timer := Queued 0\<rparr>)
      (?c0\<lparr>now := 5000, timer := Queued 0, handshake := Queued 0\<rparr>)"
    by (rule by_event, rule finish [of "?c0\<lparr>now := 5000, timer := Queued 0\<rparr>" 0, simplified])
      (simp add: asyncServerHandshake_def)
  moreover have "step (?c0\<lparr>now := 5000, timer := Queued 0, handshake := Queued 0\<rparr>) late_state"
    by (rule by_event, rule run_timer [of _ 0])
      (simp_all add: asyncServerHandshake_def late_state_def timer_callback_def close_stream_def)
  ultimately show ?thesis by (meson converse_rtranclp_into_rtranclp rtranclp.rtrancl_refl)
qed

lemma late_callback:
  "handshake_callback 0 (late_state\<lparr>handshake := Called\<rparr>) =
     Some (late_state\<lparr>handshake := Called, calls := [(hs_timeout, None)],
       shared := (shared late_state)\<lparr>completed := True\<rparr>\<rparr>)"
  by (simp add: late_state_def handshake_callback_def cancel_timer_def call_handler_def
      asyncServerHandshake_def Let_def)

theorem handshake_reports_once_witness:
  "length (calls late_state) \<le> 1 \<and> calls late_state = []"
  using handshake_reports_once [OF late_reached]
  by (simp add: late_state_def asyncServerHandshake_def)

theorem handshake_callbacks_safe_witness:
  "handshake_callback 0 (late_state\<lparr>handshake := Called\<rparr>) \<noteq> None"
  using handshake_callbacks_safe [OF late_reached]
  by (simp add: late_state_def asyncServerHandshake_def)

theorem handshake_always_reports_witness:
  "\<exists>c'. event\<^sup>*\<^sup>* late_state c' \<and> quiescent c'"
  using handshake_always_reports [OF late_reached] by blast

theorem handshake_outcome_final_witness:
  "\<exists>c'. handshake_callback 0 (late_state\<lparr>handshake := Called\<rparr>) = Some c' \<and>
    calls c' = [(hs_timeout, None)] \<and> \<not> socket_open c'"
  using handshake_outcome_final [OF late_reached _ late_callback rtranclp.rtrancl_refl]
    late_callback
  by (simp add: late_state_def asyncServerHandshake_def)

end
