(* ===== verification/Ipv4.thy ===== *)
theory Ipv4
  imports Chathub_Prelude
begin

text \<open>
  \<^verbatim>\<open>isIpv4Literal\<close> of \<^verbatim>\<open>tools/pki/src/dev_ca.cpp\<close>: the strict check of dotted IPv4 text in
  front of the issuing of certificates, against its specification: four numbers below 256
  as \<^const>\<open>to_string\<close> prints them, with dots between.
\<close>

section \<open>The check\<close>

text \<open>\<^verbatim>\<open>rest.find('.')\<close>: \<open>None\<close> is \<^verbatim>\<open>npos\<close>; and \<^verbatim>\<open>rest.substr(0, dot)\<close>.\<close>

fun find_char :: "char \<Rightarrow> string \<Rightarrow> nat option" where
  "find_char d [] = None"
| "find_char d (c # cs) = (if c = d then Some 0 else map_option Suc (find_char d cs))"

definition substr_upto :: "string \<Rightarrow> nat option \<Rightarrow> string" where
  "substr_upto s n = (case n of None \<Rightarrow> s | Some k \<Rightarrow> take k s)"

text \<open>
  The inner loop: the value of the digits, \<open>None\<close> where it returns false. At most three
  characters are left at this point, so \<^verbatim>\<open>int\<close> does not overflow.
\<close>

fun octet_loop :: "string \<Rightarrow> nat \<Rightarrow> nat option" where
  "octet_loop [] v = Some v"
| "octet_loop (c # cs) v = (if \<not> is_digit c then None else octet_loop cs (v * 10 + digit_value c))"

definition octet_ok :: "string \<Rightarrow> bool" where
  "octet_ok octet =
     (if octet = [] \<or> 3 < length octet then False
      else if 1 < length octet \<and> hd octet = CHR ''0'' then False
      else case octet_loop octet 0 of
        None \<Rightarrow> False
      | Some v \<Rightarrow> if 255 < v then False else True)"

text \<open>The outer loop with its counter of octets; it consumes at least the dot it found.\<close>

lemma find_char_less: "find_char d s = Some k \<Longrightarrow> k < length s"
  by (induction s arbitrary: k) (auto split: if_splits)

function ipv4_loop :: "string \<Rightarrow> nat \<Rightarrow> bool" where
  "ipv4_loop rest octets =
     (let dot = find_char CHR ''.'' rest; octet = substr_upto rest dot
      in if \<not> octet_ok octet then False
      else case dot of
        None \<Rightarrow> octets + 1 = 4
      | Some k \<Rightarrow> ipv4_loop (drop (k + 1) rest) (octets + 1))"
  by pat_completeness auto
termination
  by (relation "measure (\<lambda>(rest, octets). length rest)") (auto dest: find_char_less [OF sym])

declare ipv4_loop.simps [simp del]

definition isIpv4Literal :: "string \<Rightarrow> bool" where
  "isIpv4Literal txt = ipv4_loop txt 0"

section \<open>What it accepts\<close>

lemma octet_loop_value:
  "octet_loop ds v = (if list_all is_digit ds then Some (foldl (\<lambda>n c. n * 10 + digit_value c) v ds)
     else None)"
  by (induction ds arbitrary: v) simp_all

lemma octet_loop_digits: "octet_loop ds 0 = (if list_all is_digit ds then Some (digits_value ds) else None)"
  by (simp add: octet_loop_value digits_value_def)

lemma length_to_string: "n < 256 \<Longrightarrow> length (to_string n) \<le> 3"
  by (subst to_string.simps, subst to_string.simps, subst to_string.simps) simp

lemma octet_ok_iff: "octet_ok s \<longleftrightarrow> (\<exists>n < 256. s = to_string n)"
proof
  assume ok: "octet_ok s"
  then have "canonical_decimal s" and v: "digits_value s \<le> 255"
    by (auto simp: octet_ok_def octet_loop_digits canonical_decimal_def split: if_splits)
  from to_string_digits_value [OF this(1)] v show "\<exists>n < 256. s = to_string n"
    by (intro exI [of _ "digits_value s"]) simp
next
  assume "\<exists>n < 256. s = to_string n"
  then obtain n where n: "n < 256" "s = to_string n" by blast
  with canonical_to_string [of n] length_to_string [of n] show "octet_ok s"
    by (auto simp: octet_ok_def octet_loop_digits canonical_decimal_def)
qed

definition ipv4_text :: "nat list \<Rightarrow> string" where
  "ipv4_text ns = concat (map (\<lambda>n. to_string n @ ''.'') (butlast ns)) @ to_string (last ns)"

lemma ipv4_text_simps [simp]:
  "ipv4_text [n] = to_string n"
  "ipv4_text (n # m # ns) = to_string n @ CHR ''.'' # ipv4_text (m # ns)"
  by (simp_all add: ipv4_text_def)

lemma find_char_append:
  "d \<notin> set s \<Longrightarrow> find_char d (s @ t) = map_option (\<lambda>k. length s + k) (find_char d t)"
  by (cases "find_char d t"; induction s) auto

lemma find_char_None: "find_char d s = None \<longleftrightarrow> d \<notin> set s"
  by (induction s) auto

lemma find_char_Some: "find_char d s = Some k \<Longrightarrow> s = take k s @ d # drop (k + 1) s \<and> d \<notin> set (take k s)"
  by (induction s arbitrary: k) (auto split: if_splits)

lemma dot_not_in_to_string [simp]: "CHR ''.'' \<notin> set (to_string n)"
proof -
  have "\<not> is_digit CHR ''.''" by code_simp
  then show ?thesis using to_string_digits [of n] by (auto simp: list_all_iff)
qed

lemma ipv4_loop_text:
  "list_all (\<lambda>n. n < 256) (n # ns) \<Longrightarrow> ipv4_loop (ipv4_text (n # ns)) k \<longleftrightarrow> k + length (n # ns) = 4"
proof (induction ns arbitrary: n k)
  case Nil
  then have "octet_ok (to_string n)" by (auto simp: octet_ok_iff)
  then show ?case
    by (subst ipv4_loop.simps)
      (simp add: find_char_None [THEN iffD2] substr_upto_def)
next
  case (Cons m ns)
  then have "octet_ok (to_string n)" by (auto simp: octet_ok_iff)
  with Cons show ?case
    by (subst ipv4_loop.simps) (simp add: find_char_append substr_upto_def)
qed

lemma ipv4_loop_sound:
  "ipv4_loop s k \<Longrightarrow> \<exists>n ns. list_all (\<lambda>n. n < 256) (n # ns) \<and> s = ipv4_text (n # ns)"
proof (induction s k rule: ipv4_loop.induct)
  case (1 s k)
  show ?case
  proof (cases "find_char CHR ''.'' s")
    case None
    with "1.prems" obtain n where "n < 256" "s = to_string n"
      by (subst (asm) ipv4_loop.simps) (auto simp: substr_upto_def octet_ok_iff split: if_splits)
    then show ?thesis by (intro exI [of _ n] exI [of _ "[]"]) simp
  next
    case (Some i)
    with "1.prems" have ok: "octet_ok (take i s)" and loop: "ipv4_loop (drop (i + 1) s) (k + 1)"
      by (subst (asm) ipv4_loop.simps, simp add: substr_upto_def Let_def split: if_splits)+
    from ok obtain n where n: "n < 256" "take i s = to_string n" by (auto simp: octet_ok_iff)
    from "1.IH" [OF refl refl _ Some loop] ok Some obtain m ns where
      m: "list_all (\<lambda>n. n < 256) (m # ns)" "drop (i + 1) s = ipv4_text (m # ns)"
      by (auto simp: substr_upto_def)
    have "s = ipv4_text (n # m # ns)"
      using find_char_Some [OF Some] n(2) m(2) by simp
    with n m show ?thesis by (intro exI [of _ n] exI [of _ "m # ns"]) simp
  qed
qed

lemma length_4_iff: "length xs = 4 \<longleftrightarrow> (\<exists>a b c d. xs = [a, b, c, d])"
  by (auto simp: numeral_eq_Suc length_Suc_conv)

lemma isIpv4Literal_text:
  "isIpv4Literal s \<longleftrightarrow> (\<exists>ns. length ns = 4 \<and> list_all (\<lambda>n. n < 256) ns \<and> s = ipv4_text ns)"
proof
  assume ok: "isIpv4Literal s"
  then obtain n ns where ns: "list_all (\<lambda>n. n < 256) (n # ns)" "s = ipv4_text (n # ns)"
    unfolding isIpv4Literal_def using ipv4_loop_sound by blast
  with ok have "length (n # ns) = 4" by (simp add: isIpv4Literal_def ipv4_loop_text)
  with ns show "\<exists>ns. length ns = 4 \<and> list_all (\<lambda>n. n < 256) ns \<and> s = ipv4_text ns" by blast
next
  assume "\<exists>ns. length ns = 4 \<and> list_all (\<lambda>n. n < 256) ns \<and> s = ipv4_text ns"
  then obtain a b c d where "list_all (\<lambda>n. n < 256) [a, b, c, d]" "s = ipv4_text [a, b, c, d]"
    unfolding length_4_iff by blast
  then show "isIpv4Literal s"
    unfolding isIpv4Literal_def using ipv4_loop_text [of a "[b, c, d]" 0] by simp
qed

text \<open>
  C34 (the IPv4 check is exact). \<^const>\<open>isIpv4Literal\<close> accepts exactly the texts of four
  numbers from 0 to 255 in shortest decimal form, separated by single dots: no leading
  zeros, signs, spaces, missing or additional parts; and two different quadruples have
  different texts.
\<close>

theorem isIpv4Literal_exact:
  "isIpv4Literal s \<longleftrightarrow> (\<exists>a b c d. a < 256 \<and> b < 256 \<and> c < 256 \<and> d < 256 \<and>
     s = to_string a @ ''.'' @ to_string b @ ''.'' @ to_string c @ ''.'' @ to_string d)"
proof
  assume "isIpv4Literal s"
  then obtain ns where ns: "length ns = 4" "list_all (\<lambda>n. n < 256) ns" "s = ipv4_text ns"
    unfolding isIpv4Literal_text by blast
  then obtain a b c d where "ns = [a, b, c, d]"
    unfolding length_4_iff by blast
  with ns show "\<exists>a b c d. a < 256 \<and> b < 256 \<and> c < 256 \<and> d < 256 \<and>
     s = to_string a @ ''.'' @ to_string b @ ''.'' @ to_string c @ ''.'' @ to_string d"
    by (intro exI [of _ a] exI [of _ b] exI [of _ c] exI [of _ d]) simp
next
  assume "\<exists>a b c d. a < 256 \<and> b < 256 \<and> c < 256 \<and> d < 256 \<and>
     s = to_string a @ ''.'' @ to_string b @ ''.'' @ to_string c @ ''.'' @ to_string d"
  then obtain a b c d where "list_all (\<lambda>n. n < 256) [a, b, c, d]" "s = ipv4_text [a, b, c, d]"
    by auto
  then show "isIpv4Literal s"
    unfolding isIpv4Literal_text by (intro exI [of _ "[a, b, c, d]"]) simp
qed

end
