(* ===== verification/Openssl_Api.thy ===== *)
theory Openssl_Api
  imports Ipv4 "HOL-Library.State_Monad"
begin

text \<open>
  The part of OpenSSL the certificate tool calls. It is not part of the repository: a record
  of operations over opaque types is a parameter of every definition that uses it. Calls
  that allocate, draw random numbers, read the clock or change an object run in a state
  monad over a world \<open>'w\<close> and may fail; a call that changes an object returns the changed
  object. What the tool relies on is \<open>ssl_issuing\<close>: how a successful call changes the
  contents of a certificate, which \<open>profile\<close> lists.
\<close>

section \<open>Operations\<close>

datatype nid = NID_basic_constraints | NID_key_usage | NID_subject_key_identifier
  | NID_ext_key_usage | NID_subject_alt_name | NID_authority_key_identifier

text \<open>
  \<open>'k\<close> is \<^verbatim>\<open>EVP_PKEY\<close>, \<open>'c\<close> \<^verbatim>\<open>X509\<close>, \<open>'e\<close> \<^verbatim>\<open>X509_EXTENSION\<close>, \<open>'b\<close> \<^verbatim>\<open>BIGNUM\<close>, \<open>'i\<close>
  \<^verbatim>\<open>ASN1_INTEGER\<close>, \<open>'m\<close> \<^verbatim>\<open>BIO\<close>, \<open>'n\<close> \<^verbatim>\<open>X509_NAME\<close>. Null results are \<open>None\<close>; digests are named
  by the string of their constructor function. The \<^verbatim>\<open>*_free\<close> functions have no result and
  are called by the destructors.
\<close>

record ('w, 'k, 'c, 'e, 'b, 'i, 'm, 'n) openssl =
  EVP_EC_gen :: "string \<Rightarrow> ('w, 'k option) state"
  X509_new :: "('w, 'c option) state"
  X509_set_version :: "'c \<Rightarrow> int \<Rightarrow> ('w, int \<times> 'c) state"
  BN_new :: "('w, 'b option) state"
  BN_rand_top_one :: "'b \<Rightarrow> int \<Rightarrow> ('w, int \<times> 'b) state"
  BN_to_ASN1_INTEGER :: "'b \<Rightarrow> ('w, 'i option) state"
  X509_set_serialNumber :: "'c \<Rightarrow> 'i \<Rightarrow> ('w, int \<times> 'c) state"
  gmtime_adj_notBefore :: "'c \<Rightarrow> int \<Rightarrow> ('w, bool \<times> 'c) state"
  gmtime_adj_notAfter :: "'c \<Rightarrow> int \<Rightarrow> ('w, bool \<times> 'c) state"
  X509_get_subject_name :: "'c \<Rightarrow> 'n"
  subject_add_entry_by_txt :: "'c \<Rightarrow> string \<Rightarrow> string \<Rightarrow> ('w, int \<times> 'c) state"
  X509_set_issuer_name :: "'c \<Rightarrow> 'n \<Rightarrow> ('w, int \<times> 'c) state"
  X509_set_pubkey :: "'c \<Rightarrow> 'k \<Rightarrow> ('w, int \<times> 'c) state"
  X509V3_EXT_conf_nid :: "'c \<Rightarrow> 'c \<Rightarrow> nid \<Rightarrow> string \<Rightarrow> ('w, 'e option) state"
  X509_add_ext :: "'c \<Rightarrow> 'e \<Rightarrow> ('w, int \<times> 'c) state"
  X509_sign :: "'c \<Rightarrow> 'k \<Rightarrow> string \<Rightarrow> ('w, int \<times> 'c) state"
  BIO_new_mem :: "('w, 'm option) state"
  PEM_write_bio_X509 :: "'m \<Rightarrow> 'c \<Rightarrow> ('w, int \<times> 'm) state"
  PEM_write_bio_PrivateKey :: "'m \<Rightarrow> 'k \<Rightarrow> ('w, int \<times> 'm) state"
  BIO_get_mem_data :: "'m \<Rightarrow> string option"
  X509_digest :: "'c \<Rightarrow> string \<Rightarrow> ('w, int \<times> bytes) state"
  BIO_new_mem_buf :: "string \<Rightarrow> 'm option"
  PEM_read_bio_X509 :: "'m \<Rightarrow> 'c option"
  PEM_read_bio_PrivateKey :: "'m \<Rightarrow> 'k option"
  X509_get_pubkey :: "'c \<Rightarrow> 'k option"
  X509_verify :: "'c \<Rightarrow> 'k \<Rightarrow> int"
  X509_check_private_key :: "'c \<Rightarrow> 'k \<Rightarrow> int"

section \<open>What a certificate contains\<close>

text \<open>
  The contents the tool sets: version, serial number, validity in seconds, names as lists of
  entries, public key, extensions in order, and the key and digest of the signature.
\<close>

record 'k profile =
  version :: int
  serial :: nat
  not_before :: int
  not_after :: int
  subject_name :: "(string \<times> string) list"
  issuer_name :: "(string \<times> string) list"
  public_key :: "'k option"
  extensions :: "(nid \<times> string) list"
  signature :: "('k \<times> string) option"

definition blank_profile :: "'k profile" where
  "blank_profile = \<lparr>version = 0, serial = 0, not_before = 0, not_after = 0, subject_name = [],
     issuer_name = [], public_key = None, extensions = [], signature = None\<rparr>"

text \<open>
  How OpenSSL interprets its objects: the profile of a certificate, the entries of a name,
  the value of a number, the meaning of an extension, and the clock of the world.
\<close>

record ('w, 'k, 'c, 'e, 'b, 'i, 'n) ssl_meaning =
  profile_of :: "'c \<Rightarrow> 'k profile"
  entries_of :: "'n \<Rightarrow> (string \<times> string) list"
  number_of :: "'b \<Rightarrow> nat"
  integer_of :: "'i \<Rightarrow> nat"
  extension_of :: "'e \<Rightarrow> nid \<times> string"
  clock_of :: "'w \<Rightarrow> int"

text \<open>
  A certificate that is not signed yet: the signature of a signed one is invalid once the
  certificate is changed, so the laws of the setters are about unsigned ones only.
\<close>

abbreviation unsigned where
  "unsigned M c \<equiv> signature (profile_of M c) = None"

text \<open>
  The texts the tool configures extensions with. Each is the one text of its extension that
  it uses, so the extension made from it determines the text.
\<close>

definition config_text :: "nid \<Rightarrow> string \<Rightarrow> bool" where
  "config_text n v =
     (case n of
        NID_basic_constraints \<Rightarrow> v = ''critical,CA:TRUE'' \<or> v = ''critical,CA:FALSE''
      | NID_key_usage \<Rightarrow> v = ''critical,keyCertSign,cRLSign'' \<or> v = ''critical,digitalSignature''
      | NID_subject_key_identifier \<Rightarrow> v = ''hash''
      | NID_ext_key_usage \<Rightarrow> v = ''serverAuth''
      | NID_subject_alt_name \<Rightarrow> take 3 v = ''IP:'' \<and> isIpv4Literal (drop 3 v)
      | NID_authority_key_identifier \<Rightarrow> v = ''keyid:always'')"

text \<open>
  The documented effect of every call that succeeds. \<open>BN_rand_top_one\<close> draws a number of
  exactly the given number of bits; the two calls of \<^verbatim>\<open>X509_gmtime_adj\<close> set a time relative
  to the clock, which does not run backwards meanwhile.
\<close>

definition law_new where
  "law_new L M \<longleftrightarrow>
     (\<forall>w c w'. run_state (X509_new L) w = (Some c, w') \<longrightarrow> profile_of M c = blank_profile)"

definition law_version where
  "law_version L M \<longleftrightarrow>
     (\<forall>c v w c' w'. unsigned M c \<longrightarrow> run_state (X509_set_version L c v) w = ((1, c'), w') \<longrightarrow>
        profile_of M c' = (profile_of M c)\<lparr>version := v\<rparr>)"

definition law_rand where
  "law_rand L M \<longleftrightarrow>
     (\<forall>b n w b' w'. run_state (BN_rand_top_one L b n) w = ((1, b'), w') \<longrightarrow>
        2 ^ (nat n - 1) \<le> number_of M b' \<and> number_of M b' < 2 ^ nat n)"

definition law_integer where
  "law_integer L M \<longleftrightarrow>
     (\<forall>b w i w'. run_state (BN_to_ASN1_INTEGER L b) w = (Some i, w') \<longrightarrow>
        integer_of M i = number_of M b)"

definition law_serial where
  "law_serial L M \<longleftrightarrow>
     (\<forall>c i w c' w'. unsigned M c \<longrightarrow> run_state (X509_set_serialNumber L c i) w = ((1, c'), w') \<longrightarrow>
        profile_of M c' = (profile_of M c)\<lparr>serial := integer_of M i\<rparr>)"

definition law_not_before where
  "law_not_before L M \<longleftrightarrow>
     (\<forall>c d w c' w'. unsigned M c \<longrightarrow> run_state (gmtime_adj_notBefore L c d) w = ((True, c'), w') \<longrightarrow>
        profile_of M c' = (profile_of M c)\<lparr>not_before := clock_of M w + d\<rparr> \<and>
        clock_of M w \<le> clock_of M w')"

definition law_not_after where
  "law_not_after L M \<longleftrightarrow>
     (\<forall>c d w c' w'. unsigned M c \<longrightarrow> run_state (gmtime_adj_notAfter L c d) w = ((True, c'), w') \<longrightarrow>
        profile_of M c' = (profile_of M c)\<lparr>not_after := clock_of M w + d\<rparr>)"

definition law_subject where
  "law_subject L M \<longleftrightarrow>
     (\<forall>c v w c' w'. unsigned M c \<longrightarrow>
        run_state (subject_add_entry_by_txt L c ''CN'' v) w = ((1, c'), w') \<longrightarrow>
        profile_of M c' = (profile_of M c)
          \<lparr>subject_name := subject_name (profile_of M c) @ [(''CN'', v)]\<rparr>)"

definition law_subject_name where
  "law_subject_name L M \<longleftrightarrow>
     (\<forall>c. entries_of M (X509_get_subject_name L c) = subject_name (profile_of M c))"

definition law_issuer where
  "law_issuer L M \<longleftrightarrow>
     (\<forall>c n w c' w'. unsigned M c \<longrightarrow> run_state (X509_set_issuer_name L c n) w = ((1, c'), w') \<longrightarrow>
        profile_of M c' = (profile_of M c)\<lparr>issuer_name := entries_of M n\<rparr>)"

definition law_pubkey where
  "law_pubkey L M \<longleftrightarrow>
     (\<forall>c k w r c' w'. unsigned M c \<longrightarrow> run_state (X509_set_pubkey L c k) w = ((r, c'), w') \<longrightarrow> r \<noteq> 0 \<longrightarrow>
        profile_of M c' = (profile_of M c)\<lparr>public_key := Some k\<rparr>)"

definition law_ext where
  "law_ext L M \<longleftrightarrow>
     (\<forall>ca c n v w e w'. config_text n v \<longrightarrow>
        run_state (X509V3_EXT_conf_nid L ca c n v) w = (Some e, w') \<longrightarrow>
        extension_of M e = (n, v))"

definition law_add_ext where
  "law_add_ext L M \<longleftrightarrow>
     (\<forall>c e w c' w'. unsigned M c \<longrightarrow> run_state (X509_add_ext L c e) w = ((1, c'), w') \<longrightarrow>
        profile_of M c' = (profile_of M c)\<lparr>extensions := extensions (profile_of M c) @ [extension_of M e]\<rparr>)"

definition law_sign where
  "law_sign L M \<longleftrightarrow>
     (\<forall>c k d w r c' w'. run_state (X509_sign L c k d) w = ((r, c'), w') \<longrightarrow> r \<noteq> 0 \<longrightarrow>
        profile_of M c' = (profile_of M c)\<lparr>signature := Some (k, d)\<rparr>)"

definition law_digest where
  "law_digest L \<longleftrightarrow>
     (\<forall>c w md w'. run_state (X509_digest L c ''sha256'') w = ((1, md), w') \<longrightarrow> length md = 32)"

definition ssl_issuing ::
  "('w, 'k, 'c, 'e, 'b, 'i, 'm, 'n) openssl \<Rightarrow> ('w, 'k, 'c, 'e, 'b, 'i, 'n) ssl_meaning \<Rightarrow> bool" where
  "ssl_issuing L M \<longleftrightarrow>
     law_new L M \<and> law_version L M \<and> law_rand L M \<and> law_integer L M \<and>
     law_serial L M \<and> law_not_before L M \<and> law_not_after L M \<and> law_subject L M \<and>
     law_subject_name L M \<and> law_issuer L M \<and> law_pubkey L M \<and> law_ext L M \<and>
     law_add_ext L M \<and> law_sign L M \<and> law_digest L"

lemmas ssl_laws = law_new_def law_version_def law_rand_def law_integer_def law_serial_def law_not_before_def law_not_after_def
  law_subject_def law_subject_name_def law_issuer_def law_pubkey_def law_ext_def law_add_ext_def law_sign_def law_digest_def

text \<open>The laws one by one.\<close>

lemma ssl_new:
  "ssl_issuing L M \<Longrightarrow> run_state (X509_new L) w = (Some c, w') \<Longrightarrow> profile_of M c = blank_profile"
  unfolding ssl_issuing_def law_new_def by blast

lemma ssl_version:
  "ssl_issuing L M \<Longrightarrow> unsigned M c \<Longrightarrow> run_state (X509_set_version L c v) w = ((1, c'), w') \<Longrightarrow>
     profile_of M c' = (profile_of M c)\<lparr>version := v\<rparr>"
  unfolding ssl_issuing_def law_version_def by blast

lemma ssl_rand:
  "ssl_issuing L M \<Longrightarrow> run_state (BN_rand_top_one L b n) w = ((1, b'), w') \<Longrightarrow>
     2 ^ (nat n - 1) \<le> number_of M b' \<and> number_of M b' < 2 ^ nat n"
  unfolding ssl_issuing_def law_rand_def by blast

lemma ssl_integer:
  "ssl_issuing L M \<Longrightarrow> run_state (BN_to_ASN1_INTEGER L b) w = (Some i, w') \<Longrightarrow>
     integer_of M i = number_of M b"
  unfolding ssl_issuing_def law_integer_def by blast

lemma ssl_serial:
  "ssl_issuing L M \<Longrightarrow> unsigned M c \<Longrightarrow> run_state (X509_set_serialNumber L c i) w = ((1, c'), w') \<Longrightarrow>
     profile_of M c' = (profile_of M c)\<lparr>serial := integer_of M i\<rparr>"
  unfolding ssl_issuing_def law_serial_def by blast

lemma ssl_not_before:
  "ssl_issuing L M \<Longrightarrow> unsigned M c \<Longrightarrow> run_state (gmtime_adj_notBefore L c d) w = ((True, c'), w') \<Longrightarrow>
     profile_of M c' = (profile_of M c)\<lparr>not_before := clock_of M w + d\<rparr> \<and> clock_of M w \<le> clock_of M w'"
  unfolding ssl_issuing_def law_not_before_def by blast

lemma ssl_not_after:
  "ssl_issuing L M \<Longrightarrow> unsigned M c \<Longrightarrow> run_state (gmtime_adj_notAfter L c d) w = ((True, c'), w') \<Longrightarrow>
     profile_of M c' = (profile_of M c)\<lparr>not_after := clock_of M w + d\<rparr>"
  unfolding ssl_issuing_def law_not_after_def by blast

lemma ssl_subject:
  "ssl_issuing L M \<Longrightarrow> unsigned M c \<Longrightarrow>
     run_state (subject_add_entry_by_txt L c ''CN'' v) w = ((1, c'), w') \<Longrightarrow>
     profile_of M c' =
       (profile_of M c)\<lparr>subject_name := subject_name (profile_of M c) @ [(''CN'', v)]\<rparr>"
  unfolding ssl_issuing_def law_subject_def by blast

lemma ssl_subject_name:
  "ssl_issuing L M \<Longrightarrow> entries_of M (X509_get_subject_name L c) = subject_name (profile_of M c)"
  unfolding ssl_issuing_def law_subject_name_def by blast

lemma ssl_issuer:
  "ssl_issuing L M \<Longrightarrow> unsigned M c \<Longrightarrow> run_state (X509_set_issuer_name L c n) w = ((1, c'), w') \<Longrightarrow>
     profile_of M c' = (profile_of M c)\<lparr>issuer_name := entries_of M n\<rparr>"
  unfolding ssl_issuing_def law_issuer_def by blast

lemma ssl_pubkey:
  "ssl_issuing L M \<Longrightarrow> unsigned M c \<Longrightarrow> run_state (X509_set_pubkey L c k) w = ((r, c'), w') \<Longrightarrow> r \<noteq> 0 \<Longrightarrow>
     profile_of M c' = (profile_of M c)\<lparr>public_key := Some k\<rparr>"
  unfolding ssl_issuing_def law_pubkey_def by blast

lemma ssl_ext:
  "ssl_issuing L M \<Longrightarrow> config_text n v \<Longrightarrow>
     run_state (X509V3_EXT_conf_nid L ca c n v) w = (Some e, w') \<Longrightarrow>
     extension_of M e = (n, v)"
  unfolding ssl_issuing_def law_ext_def by blast

lemma ssl_add_ext:
  "ssl_issuing L M \<Longrightarrow> unsigned M c \<Longrightarrow> run_state (X509_add_ext L c e) w = ((1, c'), w') \<Longrightarrow>
     profile_of M c' =
       (profile_of M c)\<lparr>extensions := extensions (profile_of M c) @ [extension_of M e]\<rparr>"
  unfolding ssl_issuing_def law_add_ext_def by blast

lemma ssl_sign:
  "ssl_issuing L M \<Longrightarrow> run_state (X509_sign L c k d) w = ((r, c'), w') \<Longrightarrow> r \<noteq> 0 \<Longrightarrow>
     profile_of M c' = (profile_of M c)\<lparr>signature := Some (k, d)\<rparr>"
  unfolding ssl_issuing_def law_sign_def by blast

lemma ssl_digest:
  "ssl_issuing L M \<Longrightarrow> run_state (X509_digest L c ''sha256'') w = ((1, md), w') \<Longrightarrow> length md = 32"
  unfolding ssl_issuing_def law_digest_def by blast

end
