(* ===== verification/Dev_Ca.thy ===== *)
theory Dev_Ca
  imports Openssl_Api
begin

text \<open>
  \<^verbatim>\<open>tools/pki/src/dev_ca.cpp\<close>, the issuing half: a self-signed root certificate and a server
  certificate for one IPv4 address, over an implementation \<open>L\<close> of OpenSSL. Every function is
  a program of the state monad; an early return of the source ends the program there.
\<close>

section \<open>Values\<close>

definition kDefaultServerIpv4 :: string where "kDefaultServerIpv4 = ''127.0.0.1''"

definition kCaValidityDays :: int where "kCaValidityDays = 3650"

definition kServerValidityDays :: int where "kServerValidityDays = 365"

record IssueDevCa =
  ca_cert_pem :: string
  ca_key_pem :: string
  server_cert_pem :: string
  server_key_pem :: string
  ca_fingerprint_sha256 :: string

section \<open>Building a certificate\<close>

definition addExt where
  "addExt L cert issuer subject nid txt = do {
     ext \<leftarrow> X509V3_EXT_conf_nid L issuer subject nid txt;
     case ext of None \<Rightarrow> State_Monad.return (False, cert)
     | Some ext \<Rightarrow> do {
         (ok, cert) \<leftarrow> X509_add_ext L cert ext;
         State_Monad.return (ok = 1, cert)
       }
   }"

definition setSerial where
  "setSerial L cert = do {
     bn \<leftarrow> BN_new L;
     case bn of None \<Rightarrow> State_Monad.return (False, cert)
     | Some bn \<Rightarrow> do {
         (drawn, bn) \<leftarrow> BN_rand_top_one L bn 128;
         if drawn \<noteq> 1 then State_Monad.return (False, cert)
         else do {
           ser \<leftarrow> BN_to_ASN1_INTEGER L bn;
           case ser of None \<Rightarrow> State_Monad.return (False, cert)
           | Some ser \<Rightarrow> do {
               (ok, cert) \<leftarrow> X509_set_serialNumber L cert ser;
               State_Monad.return (ok = 1, cert)
             }
         }
       }
   }"

text \<open>Version 3 is encoded as 2 (\<^verbatim>\<open>X509_VERSION_3\<close>).\<close>

definition X509_VERSION_3 :: int where
  "X509_VERSION_3 = 2"

definition initCert where
  "initCert L cert key cn days = do {
     (ok, cert) \<leftarrow> X509_set_version L cert X509_VERSION_3;
     if ok \<noteq> 1 then State_Monad.return (False, cert)
     else do {
       (done, cert) \<leftarrow> setSerial L cert;
       if \<not> done then State_Monad.return (False, cert)
       else do {
         (done, cert) \<leftarrow> gmtime_adj_notBefore L cert 0;
         if \<not> done then State_Monad.return (False, cert)
         else do {
           (done, cert) \<leftarrow> gmtime_adj_notAfter L cert (days * 86400);
           if \<not> done then State_Monad.return (False, cert)
           else do {
             (ok, cert) \<leftarrow> subject_add_entry_by_txt L cert ''CN'' cn;
             if ok \<noteq> 1 then State_Monad.return (False, cert)
             else do {
               (ok, cert) \<leftarrow> X509_set_pubkey L cert key;
               State_Monad.return (ok \<noteq> 0, cert)
             }
           }
         }
       }
     }
   }"

text \<open>
  The chain \<^verbatim>\<open>!addExt(...) || !addExt(...) || ...\<close>: the extensions in turn until one fails. The
  issuer is the certificate itself for the root, else the certificate of the root.
\<close>

fun add_extensions where
  "add_extensions L cert ca [] = State_Monad.return (True, cert)"
| "add_extensions L cert ca ((nid, txt) # exts) = do {
     (done, cert) \<leftarrow> addExt L cert (case ca of None \<Rightarrow> cert | Some ca \<Rightarrow> ca) cert nid txt;
     if \<not> done then State_Monad.return (False, cert) else add_extensions L cert ca exts
   }"

definition root_extensions :: "(nid \<times> string) list" where
  "root_extensions =
     [(NID_basic_constraints, ''critical,CA:TRUE''),
      (NID_key_usage, ''critical,keyCertSign,cRLSign''),
      (NID_subject_key_identifier, ''hash'')]"

definition leaf_extensions :: "string \<Rightarrow> (nid \<times> string) list" where
  "leaf_extensions san =
     [(NID_basic_constraints, ''critical,CA:FALSE''),
      (NID_key_usage, ''critical,digitalSignature''),
      (NID_ext_key_usage, ''serverAuth''),
      (NID_subject_alt_name, san),
      (NID_authority_key_identifier, ''keyid:always'')]"

section \<open>PEM text and fingerprint\<close>

definition bioToString where
  "bioToString L bio =
     (case BIO_get_mem_data L bio of None \<Rightarrow> [] | Some txt \<Rightarrow> if 0 < length txt then txt else [])"

definition x509ToPem where
  "x509ToPem L cert = do {
     bio \<leftarrow> BIO_new_mem L;
     case bio of None \<Rightarrow> State_Monad.return []
     | Some bio \<Rightarrow> do {
         (ok, bio) \<leftarrow> PEM_write_bio_X509 L bio cert;
         if ok \<noteq> 1 then State_Monad.return [] else State_Monad.return (bioToString L bio)
       }
   }"

definition pkeyToPem where
  "pkeyToPem L key = do {
     bio \<leftarrow> BIO_new_mem L;
     case bio of None \<Rightarrow> State_Monad.return []
     | Some bio \<Rightarrow> do {
         (ok, bio) \<leftarrow> PEM_write_bio_PrivateKey L bio key;
         if ok \<noteq> 1 then State_Monad.return [] else State_Monad.return (bioToString L bio)
       }
   }"

definition hex_digits :: string where
  "hex_digits = ''0123456789abcdef''"

definition hex_of_byte :: "byte \<Rightarrow> string" where
  "hex_of_byte b = [hex_digits ! unat (drop_bit 4 b), hex_digits ! unat (b AND 0x0F)]"

definition hex_of_bytes :: "bytes \<Rightarrow> string" where
  "hex_of_bytes md = concat (map hex_of_byte md)"

definition fingerPrint where
  "fingerPrint L cert = do {
     (ok, md) \<leftarrow> X509_digest L cert ''sha256'';
     if ok \<noteq> 1 then State_Monad.return [] else State_Monad.return (hex_of_bytes md)
   }"

section \<open>Issuing\<close>

text \<open>The root certificate: initialised, its own issuer, extensions, signed by its key.\<close>

definition issue_root where
  "issue_root L ca ca_key = do {
     (done, ca) \<leftarrow> initCert L ca ca_key ''ChatHub Dev Root CA'' kCaValidityDays;
     if \<not> done then State_Monad.return None
     else do {
       (ok, ca) \<leftarrow> X509_set_issuer_name L ca (X509_get_subject_name L ca);
       if ok \<noteq> 1 then State_Monad.return None
       else do {
         (done, ca) \<leftarrow> add_extensions L ca None root_extensions;
         if \<not> done then State_Monad.return None
         else do {
           (len, ca) \<leftarrow> X509_sign L ca ca_key ''sha256'';
           State_Monad.return (if len = 0 then None else Some ca)
         }
       }
     }
   }"

text \<open>The server certificate: the root's subject as issuer, signed by the root's key.\<close>

definition issue_leaf where
  "issue_leaf L leaf leaf_key ca ca_key ip san = do {
     (done, leaf) \<leftarrow> initCert L leaf leaf_key ip kServerValidityDays;
     if \<not> done then State_Monad.return None
     else do {
       (ok, leaf) \<leftarrow> X509_set_issuer_name L leaf (X509_get_subject_name L ca);
       if ok \<noteq> 1 then State_Monad.return None
       else do {
         (done, leaf) \<leftarrow> add_extensions L leaf (Some ca) (leaf_extensions san);
         if \<not> done then State_Monad.return None
         else do {
           (len, leaf) \<leftarrow> X509_sign L leaf ca_key ''sha256'';
           State_Monad.return (if len = 0 then None else Some leaf)
         }
       }
     }
   }"

text \<open>The texts of the result; an empty one means that a conversion failed.\<close>

definition collect_output where
  "collect_output L ca ca_key leaf leaf_key = do {
     ca_pem \<leftarrow> x509ToPem L ca;
     ca_key_txt \<leftarrow> pkeyToPem L ca_key;
     leaf_pem \<leftarrow> x509ToPem L leaf;
     leaf_key_txt \<leftarrow> pkeyToPem L leaf_key;
     fp \<leftarrow> fingerPrint L ca;
     State_Monad.return
       (if ca_pem = [] \<or> ca_key_txt = [] \<or> leaf_pem = [] \<or> leaf_key_txt = [] \<or> fp = [] then None
        else Some \<lparr>ca_cert_pem = ca_pem, ca_key_pem = ca_key_txt, server_cert_pem = leaf_pem,
          server_key_pem = leaf_key_txt, ca_fingerprint_sha256 = fp\<rparr>)
   }"

definition issueDevCa where
  "issueDevCa L ipv4 =
     (if \<not> isIpv4Literal ipv4 then State_Monad.return None
      else let ip = ipv4; san = ''IP:'' @ ip in do {
        ca_key \<leftarrow> EVP_EC_gen L ''P-256'';
        leaf_key \<leftarrow> EVP_EC_gen L ''P-256'';
        ca \<leftarrow> X509_new L;
        leaf \<leftarrow> X509_new L;
        case (ca_key, leaf_key, ca, leaf) of
          (Some ca_key, Some leaf_key, Some ca, Some leaf) \<Rightarrow> do {
            ca \<leftarrow> issue_root L ca ca_key;
            case ca of None \<Rightarrow> State_Monad.return None
            | Some ca \<Rightarrow> do {
                leaf \<leftarrow> issue_leaf L leaf leaf_key ca ca_key ip san;
                case leaf of None \<Rightarrow> State_Monad.return None
                | Some leaf \<Rightarrow> collect_output L ca ca_key leaf leaf_key
              }
          }
        | _ \<Rightarrow> State_Monad.return None
      })"

section \<open>What a successful run has done\<close>

lemma addExt_effect:
  assumes "ssl_issuing L M" and "unsigned M c" and "config_text n v"
    and "run_state (addExt L c i s n v) w = ((True, c'), w')"
  shows "profile_of M c' = (profile_of M c)\<lparr>extensions := extensions (profile_of M c) @ [(n, v)]\<rparr>"
  using assms(4)
  by (auto simp: addExt_def split: prod.splits option.splits
      dest!: ssl_ext [OF assms(1,3)] ssl_add_ext [OF assms(1,2)])

lemma setSerial_effect:
  assumes "ssl_issuing L M" and "unsigned M c"
    and "run_state (setSerial L c) w = ((True, c'), w')"
  shows "\<exists>s. 2 ^ 127 \<le> s \<and> s < 2 ^ 128 \<and> profile_of M c' = (profile_of M c)\<lparr>serial := s\<rparr>"
  using assms(3)
  by (auto simp: setSerial_def split: prod.splits option.splits if_splits
      dest!: ssl_rand [OF assms(1)] ssl_integer [OF assms(1)] ssl_serial [OF assms(1,2)])

lemma add_extensions_effect:
  assumes "ssl_issuing L M"
  shows "run_state (add_extensions L c ca exts) w = ((True, c'), w') \<Longrightarrow> unsigned M c \<Longrightarrow>
    list_all (\<lambda>(n, v). config_text n v) exts \<Longrightarrow>
    profile_of M c' = (profile_of M c)\<lparr>extensions := extensions (profile_of M c) @ exts\<rparr>"
proof (induction exts arbitrary: c w)
  case (Cons e exts)
  obtain n v where e: "e = (n, v)" by (cases e)
  from Cons.prems obtain d t where
    d: "run_state (addExt L c (case ca of None \<Rightarrow> c | Some ca \<Rightarrow> ca) c n v) w = ((True, d), t)"
    and r: "run_state (add_extensions L d ca exts) t = ((True, c'), w')"
    by (auto simp: e split: prod.splits if_splits)
  have "config_text n v" using Cons.prems(3) by (simp add: e)
  from addExt_effect [OF assms Cons.prems(2) this d] Cons.IH [OF r] Cons.prems(2,3)
  show ?case by (simp add: e)
qed simp

lemma extensions_configured:
  "list_all (\<lambda>(n, v). config_text n v) root_extensions"
  "isIpv4Literal ip \<Longrightarrow> list_all (\<lambda>(n, v). config_text n v) (leaf_extensions (''IP:'' @ ip))"
  by (simp_all add: root_extensions_def leaf_extensions_def config_text_def)

text \<open>The contents \<^verbatim>\<open>initCert\<close> gives a new certificate.\<close>

definition initialised where
  "initialised p k cn days \<longleftrightarrow>
     version p = 2 \<and> 2 ^ 127 \<le> serial p \<and> serial p < 2 ^ 128 \<and>
     days * 86400 \<le> not_after p - not_before p \<and>
     subject_name p = [(''CN'', cn)] \<and> public_key p = Some k"

lemma initCert_effect:
  assumes L: "ssl_issuing L M" and run: "run_state (initCert L c k cn days) w = ((True, c'), w')"
    and new: "profile_of M c = blank_profile"
  shows "initialised (profile_of M c') k cn days \<and> extensions (profile_of M c') = [] \<and> unsigned M c'"
proof -
  from run obtain c1 w1 c2 w2 c3 w3 c4 w4 c5 w5 r where
    "run_state (X509_set_version L c X509_VERSION_3) w = ((1, c1), w1)"
    "run_state (setSerial L c1) w1 = ((True, c2), w2)"
    "run_state (gmtime_adj_notBefore L c2 0) w2 = ((True, c3), w3)"
    "run_state (gmtime_adj_notAfter L c3 (days * 86400)) w3 = ((True, c4), w4)"
    "run_state (subject_add_entry_by_txt L c4 ''CN'' cn) w4 = ((1, c5), w5)"
    "run_state (X509_set_pubkey L c5 k) w5 = ((r, c'), w')" "r \<noteq> 0"
    by (auto simp: initCert_def split: prod.splits if_splits)
  note steps = this(1,2,3,4,5,6,7)
  note blank = new blank_profile_def X509_VERSION_3_def
  have v: "profile_of M c1 = blank_profile\<lparr>version := 2\<rparr>"
    using ssl_version [OF L _ steps(1)] by (simp add: blank)
  obtain s where s: "2 ^ 127 \<le> s" "s < 2 ^ 128" "profile_of M c2 = (profile_of M c1)\<lparr>serial := s\<rparr>"
    using setSerial_effect [OF L _ steps(2)] v by (auto simp: blank)
  from ssl_not_before [OF L _ steps(3)] ssl_not_after [OF L _ steps(4)]
    ssl_subject [OF L _ steps(5)] ssl_pubkey [OF L _ steps(6,7)]
  show ?thesis
    using s by (simp add: v blank initialised_def)
qed

text \<open>The contents of the two certificates, as documented.\<close>

definition root_contents where
  "root_contents p k \<longleftrightarrow>
     initialised p k ''ChatHub Dev Root CA'' 3650 \<and> issuer_name p = subject_name p \<and>
     extensions p = root_extensions \<and> signature p = Some (k, ''sha256'')"

definition leaf_contents where
  "leaf_contents p k ip root root_key \<longleftrightarrow>
     initialised p k ip 365 \<and> issuer_name p = subject_name root \<and>
     extensions p = leaf_extensions (''IP:'' @ ip) \<and> signature p = Some (root_key, ''sha256'')"

lemma issue_root_effect:
  assumes L: "ssl_issuing L M" and run: "run_state (issue_root L c k) w = (Some ca, w')"
    and new: "profile_of M c = blank_profile"
  shows "root_contents (profile_of M ca) k"
proof -
  from run obtain c1 w1 c2 w2 c3 w3 r where
    "run_state (initCert L c k ''ChatHub Dev Root CA'' kCaValidityDays) w = ((True, c1), w1)"
    "run_state (X509_set_issuer_name L c1 (X509_get_subject_name L c1)) w1 = ((1, c2), w2)"
    "run_state (add_extensions L c2 None root_extensions) w2 = ((True, c3), w3)"
    "run_state (X509_sign L c3 k ''sha256'') w3 = ((r, ca), w')" "r \<noteq> 0"
    by (auto simp: issue_root_def split: prod.splits if_splits)
  note steps = this
  from initCert_effect [OF L steps(1) new] ssl_issuer [OF L _ steps(2)]
    add_extensions_effect [OF L steps(3) _ extensions_configured(1)] ssl_sign [OF L steps(4,5)]
  show ?thesis
    by (simp add: root_contents_def initialised_def ssl_subject_name [OF L] kCaValidityDays_def)
qed

lemma issue_leaf_effect:
  assumes L: "ssl_issuing L M"
    and ip: "isIpv4Literal ip"
    and run: "run_state (issue_leaf L c k ca ca_key ip (''IP:'' @ ip)) w = (Some leaf, w')"
    and new: "profile_of M c = blank_profile"
  shows "leaf_contents (profile_of M leaf) k ip (profile_of M ca) ca_key"
proof -
  from run obtain c1 w1 c2 w2 c3 w3 r where
    "run_state (initCert L c k ip kServerValidityDays) w = ((True, c1), w1)"
    "run_state (X509_set_issuer_name L c1 (X509_get_subject_name L ca)) w1 = ((1, c2), w2)"
    "run_state (add_extensions L c2 (Some ca) (leaf_extensions (''IP:'' @ ip))) w2 = ((True, c3), w3)"
    "run_state (X509_sign L c3 ca_key ''sha256'') w3 = ((r, leaf), w')" "r \<noteq> 0"
    by (auto simp: issue_leaf_def split: prod.splits if_splits)
  note steps = this
  from initCert_effect [OF L steps(1) new] ssl_issuer [OF L _ steps(2)]
    add_extensions_effect [OF L steps(3) _ extensions_configured(2) [OF ip]] ssl_sign [OF L steps(4,5)]
  show ?thesis
    by (simp add: leaf_contents_def initialised_def ssl_subject_name [OF L] kServerValidityDays_def)
qed

text \<open>
  \<open>pem_of L c txt\<close>: some run of \<^verbatim>\<open>x509ToPem\<close> on \<open>c\<close> gave the non-empty \<open>txt\<close>. The same for keys.
\<close>

definition pem_of where
  "pem_of L c txt \<longleftrightarrow> txt \<noteq> [] \<and> (\<exists>w w'. run_state (x509ToPem L c) w = (txt, w'))"

definition key_pem_of where
  "key_pem_of L k txt \<longleftrightarrow> txt \<noteq> [] \<and> (\<exists>w w'. run_state (pkeyToPem L k) w = (txt, w'))"

definition fingerprint_of where
  "fingerprint_of L c txt \<longleftrightarrow> txt \<noteq> [] \<and> (\<exists>w w'. run_state (fingerPrint L c) w = (txt, w'))"

lemma pem_ofI: "run_state (x509ToPem L c) w = (txt, w') \<Longrightarrow> txt \<noteq> [] \<Longrightarrow> pem_of L c txt"
  unfolding pem_of_def by blast

lemma key_pem_ofI: "run_state (pkeyToPem L k) w = (txt, w') \<Longrightarrow> txt \<noteq> [] \<Longrightarrow> key_pem_of L k txt"
  unfolding key_pem_of_def by blast

lemma fingerprint_ofI:
  "run_state (fingerPrint L c) w = (txt, w') \<Longrightarrow> txt \<noteq> [] \<Longrightarrow> fingerprint_of L c txt"
  unfolding fingerprint_of_def by blast

lemma collect_output_effect:
  assumes "run_state (collect_output L ca ca_key leaf leaf_key) w = (Some out, w')"
  shows "pem_of L ca (ca_cert_pem out) \<and> key_pem_of L ca_key (ca_key_pem out) \<and>
    pem_of L leaf (server_cert_pem out) \<and> key_pem_of L leaf_key (server_key_pem out) \<and>
    fingerprint_of L ca (ca_fingerprint_sha256 out)"
  using assms
  by (auto simp: collect_output_def intro: pem_ofI key_pem_ofI fingerprint_ofI
      split: prod.splits if_splits)

lemma issueDevCa_steps:
  assumes "run_state (issueDevCa L ip) w = (Some out, w')"
  obtains ca_key leaf_key c0 l0 ca leaf w1 w2 w3 w4 w5 w6 where
    "isIpv4Literal ip"
    "run_state (EVP_EC_gen L ''P-256'') w = (Some ca_key, w1)"
    "run_state (EVP_EC_gen L ''P-256'') w1 = (Some leaf_key, w2)"
    "run_state (X509_new L) w2 = (Some c0, w3)" "run_state (X509_new L) w3 = (Some l0, w4)"
    "run_state (issue_root L c0 ca_key) w4 = (Some ca, w5)"
    "run_state (issue_leaf L l0 leaf_key ca ca_key ip (''IP:'' @ ip)) w5 = (Some leaf, w6)"
    "run_state (collect_output L ca ca_key leaf leaf_key) w6 = (Some out, w')"
  using assms
  by (auto simp: issueDevCa_def Let_def split: prod.splits if_splits option.splits)

lemma issueDevCa_effect:
  assumes L: "ssl_issuing L M" and run: "run_state (issueDevCa L ip) w = (Some out, w')"
  obtains ca ca_key leaf leaf_key where
    "isIpv4Literal ip" and
    "root_contents (profile_of M ca) ca_key" and
    "leaf_contents (profile_of M leaf) leaf_key ip (profile_of M ca) ca_key" and
    "pem_of L ca (ca_cert_pem out)" and "key_pem_of L ca_key (ca_key_pem out)" and
    "pem_of L leaf (server_cert_pem out)" and "key_pem_of L leaf_key (server_key_pem out)" and
    "fingerprint_of L ca (ca_fingerprint_sha256 out)"
proof -
  from run obtain ca_key leaf_key c0 l0 ca leaf w1 w2 w3 w4 w5 w6 where s: "isIpv4Literal ip"
    "run_state (X509_new L) w2 = (Some c0, w3)" "run_state (X509_new L) w3 = (Some l0, w4)"
    "run_state (issue_root L c0 ca_key) w4 = (Some ca, w5)"
    "run_state (issue_leaf L l0 leaf_key ca ca_key ip (''IP:'' @ ip)) w5 = (Some leaf, w6)"
    "run_state (collect_output L ca ca_key leaf leaf_key) w6 = (Some out, w')"
    by (rule issueDevCa_steps)
  from collect_output_effect [OF s(6)] issue_root_effect [OF L s(4) ssl_new [OF L s(2)]]
    issue_leaf_effect [OF L s(1,5) ssl_new [OF L s(3)]] s(1)
  show ?thesis by (auto intro: that)
qed

section \<open>Fingerprints\<close>

lemma hex_digits_lower: "n < 16 \<Longrightarrow> is_lower_hex (hex_digits ! n)"
proof -
  have "list_all (\<lambda>n. is_lower_hex (hex_digits ! n)) [0..<16]" by code_simp
  then show "n < 16 \<Longrightarrow> ?thesis" by (simp add: list_all_iff)
qed

lemma hex_digits_inj: "m < 16 \<Longrightarrow> n < 16 \<Longrightarrow> hex_digits ! m = hex_digits ! n \<longleftrightarrow> m = n"
proof -
  have "distinct hex_digits" "length hex_digits = 16" by (simp_all add: hex_digits_def)
  then show "m < 16 \<Longrightarrow> n < 16 \<Longrightarrow> ?thesis" by (simp add: nth_eq_iff_index_eq)
qed

lemma nibbles: "unat (drop_bit 4 (b :: byte)) = unat b div 16" "unat (b AND 0x0F) = unat b mod 16"
proof -
  show "unat (drop_bit 4 b) = unat b div 16"
    using unsigned_less [of b, where 'a = nat]
    by (simp only: unsigned_drop_bit_eq) (simp add: drop_bit_eq_div take_bit_eq_mod)
  have "b AND 0x0F = take_bit 4 b" by (simp add: take_bit_eq_mask mask_eq_exp_minus_1)
  then show "unat (b AND 0x0F) = unat b mod 16"
    by (simp only: unsigned_take_bit_eq) (simp add: take_bit_eq_mod)
qed

lemma hex_of_byte_digits:
  "hex_of_byte b = [hex_digits ! (unat b div 16), hex_digits ! (unat b mod 16)]"
  by (simp add: hex_of_byte_def nibbles)

lemma byte_div_16: "unat (b :: byte) div 16 < 16"
  using unsigned_less [of b, where 'a = nat] by (simp add: less_mult_imp_div_less)

lemma hex_of_byte_inj: "hex_of_byte b = hex_of_byte c \<longleftrightarrow> b = c"
proof
  assume "hex_of_byte b = hex_of_byte c"
  then have "unat b div 16 = unat c div 16" "unat b mod 16 = unat c mod 16"
    using byte_div_16 [of b] byte_div_16 [of c] by (simp_all add: hex_of_byte_digits hex_digits_inj)
  then have "unat b = unat c" by (metis div_mult_mod_eq)
  then show "b = c" by (simp only: word_unat_eq_iff)
qed simp

text \<open>
  The text of \<open>n\<close> bytes is \<open>2 n\<close> lower-case hexadecimal digits, and different bytes have
  different texts.
\<close>

lemma hex_of_bytes_digits:
  "length (hex_of_bytes md) = 2 * length md \<and> list_all is_lower_hex (hex_of_bytes md) \<and>
   (hex_of_bytes md = hex_of_bytes md' \<longleftrightarrow> md = md')"
proof (intro conjI)
  show "length (hex_of_bytes md) = 2 * length md"
    by (induction md) (simp_all add: hex_of_bytes_def hex_of_byte_digits)
  show "list_all is_lower_hex (hex_of_bytes md)"
    by (induction md) (simp_all add: hex_of_bytes_def hex_of_byte_digits hex_digits_lower byte_div_16)
  show "hex_of_bytes md = hex_of_bytes md' \<longleftrightarrow> md = md'"
  proof (induction md arbitrary: md')
    case Nil
    then show ?case by (cases md') (simp_all add: hex_of_bytes_def hex_of_byte_digits)
  next
    case (Cons b md)
    show ?case
    proof (cases md')
      case (Cons c cs)
      have "hex_of_bytes (b # md) = hex_of_bytes (c # cs) \<longleftrightarrow>
          hex_of_byte b = hex_of_byte c \<and> hex_of_bytes md = hex_of_bytes cs"
        by (simp add: hex_of_bytes_def hex_of_byte_digits)
      with Cons.IH [of cs] Cons show ?thesis by (simp add: hex_of_byte_inj)
    qed (simp add: hex_of_bytes_def hex_of_byte_digits)
  qed
qed

text \<open>A fingerprint is 64 lower-case digits that determine the SHA-256 digest.\<close>

lemma fingerprint_digits:
  assumes "ssl_issuing L M" and "fingerprint_of L c fp"
  shows "length fp = 64 \<and> list_all is_lower_hex fp"
proof -
  from assms(2) obtain w w' where fp: "fp \<noteq> []" "run_state (fingerPrint L c) w = (fp, w')"
    unfolding fingerprint_of_def by blast
  obtain r md t where "run_state (X509_digest L c ''sha256'') w = ((r, md), t)"
    by (metis surj_pair)
  with fp have "run_state (X509_digest L c ''sha256'') w = ((1, md), t)" "fp = hex_of_bytes md"
    by (auto simp: fingerPrint_def split: if_splits)
  with ssl_digest [OF assms(1)] show ?thesis by (auto simp: hex_of_bytes_digits)
qed

section \<open>Properties\<close>

text \<open>
  C7 (the certificate contract). When issuing returns a result, the address is an IPv4
  literal and the result holds the PEM texts of two certificates and their keys. The root is
  a version 3 certificate named ``ChatHub Dev Root CA'', its own issuer, valid for at least
  3650 days, a critical CA with the two signing uses, signed with its own key. The server
  certificate is version 3, named by the address, issued under the root's name, valid for at
  least 365 days, critically no CA, for digital signatures of a server, its only alternative
  name the address, and signed with the root's key. Both use SHA-256 and have serial
  numbers of exactly 128 bits. The fingerprint is that of the root, 64 lower-case hexadecimal
  digits.
\<close>

theorem issueDevCa_contract:
  assumes "ssl_issuing L M" and "run_state (issueDevCa L ip) w = (Some out, w')"
  shows "isIpv4Literal ip \<and> (\<exists>ca ca_key leaf leaf_key.
    pem_of L ca (ca_cert_pem out) \<and> key_pem_of L ca_key (ca_key_pem out) \<and>
    pem_of L leaf (server_cert_pem out) \<and> key_pem_of L leaf_key (server_key_pem out) \<and>
    fingerprint_of L ca (ca_fingerprint_sha256 out) \<and>
    length (ca_fingerprint_sha256 out) = 64 \<and> list_all is_lower_hex (ca_fingerprint_sha256 out) \<and>
    (let p = profile_of M ca in
       version p = 2 \<and> 2 ^ 127 \<le> serial p \<and> serial p < 2 ^ 128 \<and>
       3650 * 86400 \<le> not_after p - not_before p \<and>
       subject_name p = [(''CN'', ''ChatHub Dev Root CA'')] \<and> issuer_name p = subject_name p \<and>
       public_key p = Some ca_key \<and> signature p = Some (ca_key, ''sha256'') \<and>
       extensions p = [(NID_basic_constraints, ''critical,CA:TRUE''),
         (NID_key_usage, ''critical,keyCertSign,cRLSign''), (NID_subject_key_identifier, ''hash'')]) \<and>
    (let p = profile_of M leaf in
       version p = 2 \<and> 2 ^ 127 \<le> serial p \<and> serial p < 2 ^ 128 \<and>
       365 * 86400 \<le> not_after p - not_before p \<and>
       subject_name p = [(''CN'', ip)] \<and> issuer_name p = [(''CN'', ''ChatHub Dev Root CA'')] \<and>
       public_key p = Some leaf_key \<and> signature p = Some (ca_key, ''sha256'') \<and>
       extensions p = [(NID_basic_constraints, ''critical,CA:FALSE''),
         (NID_key_usage, ''critical,digitalSignature''), (NID_ext_key_usage, ''serverAuth''),
         (NID_subject_alt_name, ''IP:'' @ ip), (NID_authority_key_identifier, ''keyid:always'')]))"
proof -
  from assms obtain ca ca_key leaf leaf_key where
    "isIpv4Literal ip" "root_contents (profile_of M ca) ca_key"
    "leaf_contents (profile_of M leaf) leaf_key ip (profile_of M ca) ca_key"
    "pem_of L ca (ca_cert_pem out)" "key_pem_of L ca_key (ca_key_pem out)"
    "pem_of L leaf (server_cert_pem out)" "key_pem_of L leaf_key (server_key_pem out)" and
    fp: "fingerprint_of L ca (ca_fingerprint_sha256 out)"
    by (rule issueDevCa_effect)
  then show ?thesis
    unfolding root_contents_def leaf_contents_def initialised_def root_extensions_def
      leaf_extensions_def Let_def
    by (intro conjI exI [of _ ca] exI [of _ ca_key] exI [of _ leaf] exI [of _ leaf_key])
      (simp_all add: fingerprint_digits [OF assms(1) fp])
qed

end
