(* ===== verification/Dev_Ca_Inspect.thy ===== *)
theory Dev_Ca_Inspect
  imports Dev_Ca
begin

text \<open>
  \<^verbatim>\<open>tools/pki/src/dev_ca.cpp\<close>, the reading half: the facts of a certificate
  (\<^verbatim>\<open>inspectCertPem\<close>) and the checks of signatures and keys. \<open>R\<close> is the part of OpenSSL
  that reads certificates; its results are functions of the object they are read from.
\<close>

section \<open>The reading calls\<close>

text \<open>
  An entry of a subject alternative name: its type and, for an address, its bytes. \<open>'t\<close> is
  \<^verbatim>\<open>ASN1_TIME\<close>, \<open>'d\<close> the broken-down \<^verbatim>\<open>std::tm\<close>, \<open>'a\<close> \<^verbatim>\<open>X509_ALGOR\<close>, \<open>'g\<close> \<^verbatim>\<open>ASN1_OBJECT\<close>.
  An extension that is absent or cannot be decoded is \<open>None\<close>; a key usage is the function
  of \<^verbatim>\<open>ASN1_BIT_STRING_get_bit\<close>, an extended key usage the list of the NIDs of its
  purposes. The calls that fill a character buffer return its text and their result.
\<close>

datatype general_name = GEN_DNS | GEN_IPADD bytes | GEN_other

record ('c, 'k, 'i, 'b, 't, 'd, 'a, 'g) x509_reader =
  X509_check_ca :: "'c \<Rightarrow> int"
  ext_key_usage_bits :: "'c \<Rightarrow> (nat \<Rightarrow> int) option"
  ext_extended_usage :: "'c \<Rightarrow> int list option"
  ext_subject_alt_name :: "'c \<Rightarrow> general_name list option"
  EVP_PKEY_base_id :: "'k \<Rightarrow> int"
  EVP_PKEY_bits :: "'k \<Rightarrow> int"
  EVP_PKEY_get_group_name :: "'k \<Rightarrow> int \<times> string"
  X509_get0_signature :: "'c \<Rightarrow> 'a option"
  X509_ALGOR_get0 :: "'a \<Rightarrow> 'g option"
  OBJ_obj2txt :: "'g \<Rightarrow> int \<times> string"
  X509_get_serialNumber :: "'c \<Rightarrow> 'i option"
  ASN1_INTEGER_to_BN :: "'i \<Rightarrow> 'b option"
  BN_num_bits :: "'b \<Rightarrow> int"
  BN_bn2hex :: "'b \<Rightarrow> string option"
  X509_get0_notBefore :: "'c \<Rightarrow> 't option"
  X509_get0_notAfter :: "'c \<Rightarrow> 't option"
  ASN1_TIME_to_tm :: "'t \<Rightarrow> int \<times> 'd"
  gmtime :: "'d \<Rightarrow> int"

definition NID_server_auth :: int where "NID_server_auth = 129"

definition EVP_PKEY_EC :: int where "EVP_PKEY_EC = 408"

section \<open>Parsing PEM text\<close>

definition INT_MAX :: nat where "INT_MAX = 2147483647"

definition memBio where
  "memBio L txt = (if INT_MAX < length txt then None else BIO_new_mem_buf L txt)"

definition pemToX509 where
  "pemToX509 L pem =
     (case memBio L pem of None \<Rightarrow> None | Some bio \<Rightarrow> PEM_read_bio_X509 L bio)"

definition asn1ToTime where
  "asn1ToTime R when =
     (case when of None \<Rightarrow> 0
      | Some t \<Rightarrow> case ASN1_TIME_to_tm R t of (ok, tm) \<Rightarrow> if ok \<noteq> 1 then 0 else gmtime R tm)"

section \<open>The facts of a certificate\<close>

record CertFacts =
  is_ca :: bool
  key_cert_sign :: bool
  crl_sign :: bool
  digital_signature :: bool
  server_auth :: bool
  has_dns_san :: bool
  has_ipv6_san :: bool
  is_ec :: bool
  ec_bits :: int
  serial_bit_length :: int
  group_name :: string
  serial_hex :: string
  signature_oid :: string
  san_ips :: "string list"
  fact_not_before :: int
  fact_not_after :: int

definition CertFacts_default :: CertFacts where
  "CertFacts_default = \<lparr>is_ca = False, key_cert_sign = False, crl_sign = False,
     digital_signature = False, server_auth = False, has_dns_san = False, has_ipv6_san = False,
     is_ec = False, ec_bits = 0, serial_bit_length = 0, group_name = [], serial_hex = [],
     signature_oid = [], san_ips = [], fact_not_before = 0, fact_not_after = 0\<rparr>"

definition key_usage_facts where
  "key_usage_facts R cert f =
     (case ext_key_usage_bits R cert of None \<Rightarrow> f
      | Some ku \<Rightarrow> f\<lparr>digital_signature := ku 0 = 1, key_cert_sign := ku 5 = 1, crl_sign := ku 6 = 1\<rparr>)"

fun eku_loop :: "int list \<Rightarrow> CertFacts \<Rightarrow> CertFacts" where
  "eku_loop [] f = f"
| "eku_loop (n # ns) f = eku_loop ns (if n = NID_server_auth then f\<lparr>server_auth := True\<rparr> else f)"

definition eku_facts where
  "eku_facts R cert f =
     (case ext_extended_usage R cert of None \<Rightarrow> f | Some eku \<Rightarrow> eku_loop eku f)"

fun san_loop :: "general_name list \<Rightarrow> CertFacts \<Rightarrow> CertFacts" where
  "san_loop [] f = f"
| "san_loop (g # gs) f = san_loop gs
     (case g of
        GEN_DNS \<Rightarrow> f\<lparr>has_dns_san := True\<rparr>
      | GEN_IPADD ip \<Rightarrow>
          if length ip = 4 then
            f\<lparr>san_ips := san_ips f @
              [to_string (unat (ip ! 0)) @ ''.'' @ to_string (unat (ip ! 1)) @ ''.'' @
               to_string (unat (ip ! 2)) @ ''.'' @ to_string (unat (ip ! 3))]\<rparr>
          else if length ip = 16 then f\<lparr>has_ipv6_san := True\<rparr>
          else f
      | GEN_other \<Rightarrow> f)"

definition san_facts where
  "san_facts R cert f =
     (case ext_subject_alt_name R cert of None \<Rightarrow> f | Some names \<Rightarrow> san_loop names f)"

definition pubkey_facts where
  "pubkey_facts L R cert f =
     (case X509_get_pubkey L cert of None \<Rightarrow> f
      | Some pub \<Rightarrow>
          let f = f\<lparr>is_ec := EVP_PKEY_base_id R pub = EVP_PKEY_EC, ec_bits := EVP_PKEY_bits R pub\<rparr>
          in if is_ec f then
            (case EVP_PKEY_get_group_name R pub of (ok, gname) \<Rightarrow>
              if ok = 1 then f\<lparr>group_name := gname\<rparr> else f)
          else f)"

definition signature_facts where
  "signature_facts R cert f =
     (case X509_get0_signature R cert of None \<Rightarrow> f
      | Some alg \<Rightarrow> (case X509_ALGOR_get0 R alg of None \<Rightarrow> f
        | Some obj \<Rightarrow> (case OBJ_obj2txt R obj of (written, buffer) \<Rightarrow>
            if 0 < written \<and> written < 128 then f\<lparr>signature_oid := buffer\<rparr> else f)))"

definition lower_hex_char :: "char \<Rightarrow> char" where
  "lower_hex_char c =
     (if CHR ''A'' \<le> c \<and> c \<le> CHR ''F''
      then char_of (of_char c - of_char CHR ''A'' + of_char CHR ''a'' :: int) else c)"

definition serial_facts where
  "serial_facts R cert f =
     (case X509_get_serialNumber R cert of None \<Rightarrow> f
      | Some ser \<Rightarrow> (case ASN1_INTEGER_to_BN R ser of None \<Rightarrow> f
        | Some bn \<Rightarrow>
            let f = f\<lparr>serial_bit_length := BN_num_bits R bn\<rparr>;
                f = (case BN_bn2hex R bn of None \<Rightarrow> f | Some hex \<Rightarrow> f\<lparr>serial_hex := hex\<rparr>)
            in f\<lparr>serial_hex := map lower_hex_char (serial_hex f)\<rparr>))"

definition inspectCertPem where
  "inspectCertPem L R pem =
     (case pemToX509 L pem of None \<Rightarrow> None
      | Some cert \<Rightarrow>
          let f = CertFacts_default\<lparr>is_ca := X509_check_ca R cert = 1\<rparr>;
              f = key_usage_facts R cert f;
              f = eku_facts R cert f;
              f = san_facts R cert f;
              f = pubkey_facts L R cert f;
              f = signature_facts R cert f;
              f = serial_facts R cert f
          in Some (f\<lparr>fact_not_before := asn1ToTime R (X509_get0_notBefore R cert),
                     fact_not_after := asn1ToTime R (X509_get0_notAfter R cert)\<rparr>))"

section \<open>Signatures and keys\<close>

definition verifySignedBy where
  "verifySignedBy L cert_pem issuer_pem =
     (let cert = pemToX509 L cert_pem; issuer = pemToX509 L issuer_pem
      in case (cert, issuer) of
        (Some cert, Some issuer) \<Rightarrow>
          (case X509_get_pubkey L issuer of None \<Rightarrow> False
           | Some pub \<Rightarrow> X509_verify L cert pub = 1)
      | _ \<Rightarrow> False)"

definition certMatchesKey where
  "certMatchesKey L cert_pem key_pem =
     (let cert = pemToX509 L cert_pem; bio = memBio L key_pem
      in case (cert, bio) of
        (Some cert, Some bio) \<Rightarrow>
          (case PEM_read_bio_PrivateKey L bio of None \<Rightarrow> False
           | Some key \<Rightarrow> X509_check_private_key L cert key = 1)
      | _ \<Rightarrow> False)"

section \<open>The facts field by field\<close>

definition ipv4_of :: "bytes \<Rightarrow> string" where
  "ipv4_of ip = ipv4_text (map unat ip)"

definition is_ipv4_name :: "general_name \<Rightarrow> bool" where
  "is_ipv4_name g = (case g of GEN_IPADD ip \<Rightarrow> length ip = 4 | _ \<Rightarrow> False)"

definition is_ipv6_name :: "general_name \<Rightarrow> bool" where
  "is_ipv6_name g = (case g of GEN_IPADD ip \<Rightarrow> length ip = 16 | _ \<Rightarrow> False)"

definition address_of :: "general_name \<Rightarrow> bytes" where
  "address_of g = (case g of GEN_IPADD ip \<Rightarrow> ip | _ \<Rightarrow> [])"

lemma four_bytes:
  "length ip = 4 \<Longrightarrow> ipv4_of ip =
     to_string (unat (ip ! 0)) @ ''.'' @ to_string (unat (ip ! 1)) @ ''.'' @
     to_string (unat (ip ! 2)) @ ''.'' @ to_string (unat (ip ! 3))"
proof -
  assume "length ip = 4"
  then obtain a b c d where "ip = [a, b, c, d]"
    unfolding length_4_iff by blast
  then show ?thesis by (simp add: ipv4_of_def)
qed

lemma isIpv4Literal_ipv4_of: "length ip = 4 \<Longrightarrow> isIpv4Literal (ipv4_of ip)"
proof -
  assume "length ip = 4"
  then obtain a b c d where ip: "ip = [a, b, c, d]"
    unfolding length_4_iff by blast
  have "unat x < 256" for x :: byte using unsigned_less [of x, where 'a = nat] by simp
  then show ?thesis
    using ipv4_loop_text [of "unat a" "map unat [b, c, d]" 0]
    by (simp add: ip ipv4_of_def isIpv4Literal_def)
qed

lemma san_loop_fields:
  "san_ips (san_loop gs f) = san_ips f @ map (ipv4_of \<circ> address_of) (filter is_ipv4_name gs)"
  "has_dns_san (san_loop gs f) \<longleftrightarrow> has_dns_san f \<or> GEN_DNS \<in> set gs"
  "has_ipv6_san (san_loop gs f) \<longleftrightarrow> has_ipv6_san f \<or> list_ex is_ipv6_name gs"
  by (induction gs arbitrary: f)
    (auto simp: is_ipv4_name_def is_ipv6_name_def address_of_def four_bytes
      split: general_name.splits)

lemma san_loop_other:
  "is_ca (san_loop gs f) = is_ca f" "key_cert_sign (san_loop gs f) = key_cert_sign f"
  "crl_sign (san_loop gs f) = crl_sign f" "digital_signature (san_loop gs f) = digital_signature f"
  "server_auth (san_loop gs f) = server_auth f"
  by (induction gs arbitrary: f) (simp_all split: general_name.splits)

lemma eku_loop_fields:
  "server_auth (eku_loop ns f) \<longleftrightarrow> server_auth f \<or> NID_server_auth \<in> set ns"
  "is_ca (eku_loop ns f) = is_ca f" "key_cert_sign (eku_loop ns f) = key_cert_sign f"
  "crl_sign (eku_loop ns f) = crl_sign f" "digital_signature (eku_loop ns f) = digital_signature f"
  "has_dns_san (eku_loop ns f) = has_dns_san f" "has_ipv6_san (eku_loop ns f) = has_ipv6_san f"
  "san_ips (eku_loop ns f) = san_ips f"
  by (induction ns arbitrary: f) auto

lemma later_facts [simp]:
  "is_ca (pubkey_facts L R c f) = is_ca f" "is_ca (signature_facts R c f) = is_ca f"
  "is_ca (serial_facts R c f) = is_ca f"
  "key_cert_sign (pubkey_facts L R c f) = key_cert_sign f"
  "key_cert_sign (signature_facts R c f) = key_cert_sign f"
  "key_cert_sign (serial_facts R c f) = key_cert_sign f"
  "crl_sign (pubkey_facts L R c f) = crl_sign f" "crl_sign (signature_facts R c f) = crl_sign f"
  "crl_sign (serial_facts R c f) = crl_sign f"
  "digital_signature (pubkey_facts L R c f) = digital_signature f"
  "digital_signature (signature_facts R c f) = digital_signature f"
  "digital_signature (serial_facts R c f) = digital_signature f"
  "server_auth (pubkey_facts L R c f) = server_auth f"
  "server_auth (signature_facts R c f) = server_auth f"
  "server_auth (serial_facts R c f) = server_auth f"
  "has_dns_san (pubkey_facts L R c f) = has_dns_san f"
  "has_dns_san (signature_facts R c f) = has_dns_san f"
  "has_dns_san (serial_facts R c f) = has_dns_san f"
  "has_ipv6_san (pubkey_facts L R c f) = has_ipv6_san f"
  "has_ipv6_san (signature_facts R c f) = has_ipv6_san f"
  "has_ipv6_san (serial_facts R c f) = has_ipv6_san f"
  "san_ips (pubkey_facts L R c f) = san_ips f" "san_ips (signature_facts R c f) = san_ips f"
  "san_ips (serial_facts R c f) = san_ips f"
  by (simp_all add: pubkey_facts_def signature_facts_def serial_facts_def Let_def
      split: option.split prod.split)

lemma key_usage_fields:
  "is_ca (key_usage_facts R c f) = is_ca f" "server_auth (key_usage_facts R c f) = server_auth f"
  "has_dns_san (key_usage_facts R c f) = has_dns_san f"
  "has_ipv6_san (key_usage_facts R c f) = has_ipv6_san f"
  "san_ips (key_usage_facts R c f) = san_ips f"
  by (simp_all add: key_usage_facts_def split: option.split)

lemma serial_hex_lower:
  "serial_hex f = [] \<Longrightarrow> list_all (\<lambda>c. \<not> (CHR ''A'' \<le> c \<and> c \<le> CHR ''F'')) (serial_hex (serial_facts R c f))"
proof -
  have "\<forall>c. \<not> (CHR ''A'' \<le> lower_hex_char c \<and> lower_hex_char c \<le> CHR ''F'')" by code_simp
  then show "serial_hex f = [] \<Longrightarrow> ?thesis"
    by (simp add: serial_facts_def Let_def list_all_iff split: option.split)
qed

abbreviation alternative_names where
  "alternative_names R c \<equiv> (case ext_subject_alt_name R c of None \<Rightarrow> [] | Some gs \<Rightarrow> gs)"

abbreviation purposes where
  "purposes R c \<equiv> (case ext_extended_usage R c of None \<Rightarrow> [] | Some ns \<Rightarrow> ns)"

abbreviation usage_bit where
  "usage_bit R c i \<equiv> (case ext_key_usage_bits R c of None \<Rightarrow> False | Some ku \<Rightarrow> ku i = 1)"

text \<open>The fields of the facts that a contract test looks at, for a certificate that was read.\<close>

lemma inspect_fields:
  assumes "pemToX509 L pem = Some c"
  obtains f where "inspectCertPem L R pem = Some f"
    and "is_ca f = (X509_check_ca R c = 1)" "digital_signature f = usage_bit R c 0"
    and "key_cert_sign f = usage_bit R c 5" "crl_sign f = usage_bit R c 6"
    and "server_auth f = (NID_server_auth \<in> set (purposes R c))"
    and "san_ips f = map (ipv4_of \<circ> address_of) (filter is_ipv4_name (alternative_names R c))"
    and "has_dns_san f = (GEN_DNS \<in> set (alternative_names R c))"
    and "has_ipv6_san f = list_ex is_ipv6_name (alternative_names R c)"
  using assms
  by (simp add: inspectCertPem_def Let_def key_usage_fields san_facts_def eku_facts_def
      san_loop_fields san_loop_other eku_loop_fields CertFacts_default_def key_usage_facts_def
      split: option.splits)

lemma serial_hex_unset:
  "serial_hex (key_usage_facts R c f) = serial_hex f" "serial_hex (eku_loop ns f) = serial_hex f"
  "serial_hex (san_loop gs f) = serial_hex f" "serial_hex (pubkey_facts L R c f) = serial_hex f"
  "serial_hex (signature_facts R c f) = serial_hex f"
proof -
  show "serial_hex (eku_loop ns f) = serial_hex f" by (induction ns arbitrary: f) simp_all
  show "serial_hex (san_loop gs f) = serial_hex f"
    by (induction gs arbitrary: f) (simp_all split: general_name.splits)
qed (simp_all add: key_usage_facts_def pubkey_facts_def signature_facts_def Let_def
    split: option.split prod.split)

lemma inspect_serial_hex:
  assumes "inspectCertPem L R pem = Some f"
  shows "list_all (\<lambda>c. \<not> (CHR ''A'' \<le> c \<and> c \<le> CHR ''F'')) (serial_hex f)"
proof -
  from assms obtain c where "pemToX509 L pem = Some c"
    by (auto simp: inspectCertPem_def split: option.splits)
  moreover define g where "g = signature_facts R c (pubkey_facts L R c (san_facts R c
    (eku_facts R c (key_usage_facts R c (CertFacts_default\<lparr>is_ca := X509_check_ca R c = 1\<rparr>)))))"
  ultimately have "serial_hex f = serial_hex (serial_facts R c g)"
    using assms by (auto simp: inspectCertPem_def Let_def)
  moreover have "serial_hex g = []"
    by (simp add: g_def serial_hex_unset eku_facts_def san_facts_def CertFacts_default_def
        split: option.split)
  ultimately show ?thesis using serial_hex_lower [of g R c] by simp
qed

section \<open>What the tool relies on when reading\<close>

text \<open>
  The documented reading of what was written and configured. A PEM text that a write to a
  fresh memory buffer gave is read as a certificate with the same contents, and as a key
  equivalent to the one written. \<open>same\<close> relates keys with equal public parts. The configured
  extensions are decoded as the OpenSSL manual describes their syntax.
\<close>

definition same_profile where
  "same_profile same p q \<longleftrightarrow>
     version p = version q \<and> serial p = serial q \<and> not_before p = not_before q \<and>
     not_after p = not_after q \<and> subject_name p = subject_name q \<and>
     issuer_name p = issuer_name q \<and> extensions p = extensions q \<and>
     rel_option same (public_key p) (public_key q) \<and>
     rel_option (rel_prod same (=)) (signature p) (signature q)"

definition pem_reading where
  "pem_reading L M same \<longleftrightarrow> equivp same \<and>
     (\<forall>w0 m w1 w c m' w' txt. run_state (BIO_new_mem L) w0 = (Some m, w1) \<longrightarrow>
        run_state (PEM_write_bio_X509 L m c) w = ((1, m'), w') \<longrightarrow>
        BIO_get_mem_data L m' = Some txt \<longrightarrow>
        (\<exists>b c'. BIO_new_mem_buf L txt = Some b \<and> PEM_read_bio_X509 L b = Some c' \<and>
          same_profile same (profile_of M c') (profile_of M c))) \<and>
     (\<forall>w0 m w1 w k m' w' txt. run_state (BIO_new_mem L) w0 = (Some m, w1) \<longrightarrow>
        run_state (PEM_write_bio_PrivateKey L m k) w = ((1, m'), w') \<longrightarrow>
        BIO_get_mem_data L m' = Some txt \<longrightarrow>
        (\<exists>b k'. BIO_new_mem_buf L txt = Some b \<and> PEM_read_bio_PrivateKey L b = Some k' \<and> same k' k))"

definition key_reading where
  "key_reading L M same \<longleftrightarrow>
     (\<forall>c k. public_key (profile_of M c) = Some k \<longrightarrow>
        (\<exists>k'. X509_get_pubkey L c = Some k' \<and> same k' k)) \<and>
     (\<forall>c k d k'. signature (profile_of M c) = Some (k, d) \<longrightarrow> same k' k \<longrightarrow> X509_verify L c k' = 1) \<and>
     (\<forall>c k k'. public_key (profile_of M c) = Some k \<longrightarrow> same k' k \<longrightarrow>
        X509_check_private_key L c k' = 1)"

text \<open>An extension of a certificate by its number, and what reading it gives.\<close>

abbreviation ext_of where
  "ext_of M c n \<equiv> map_of (extensions (profile_of M c)) n"

text \<open>
  The certificates the laws below are about: read from a text, of version 3, no extension
  twice (OpenSSL does not decode a repeated one), each configured with one of the tool's texts.
\<close>

definition well_formed where
  "well_formed L M c \<longleftrightarrow>
     (\<exists>b. PEM_read_bio_X509 L b = Some c) \<and> version (profile_of M c) = 2 \<and>
     distinct (map fst (extensions (profile_of M c))) \<and>
     list_all (\<lambda>(n, v). config_text n v) (extensions (profile_of M c))"

text \<open>
  \<^verbatim>\<open>X509_check_ca\<close> on a certificate with basic constraints: 0 if there is a key usage without
  \<open>keyCertSign\<close>, otherwise 1 if they say CA and 0 if not.
\<close>

definition extension_reading where
  "extension_reading L R M \<longleftrightarrow> (\<forall>c. well_formed L M c \<longrightarrow>
     (\<forall>v. ext_of M c NID_basic_constraints = Some v \<longrightarrow>
        X509_check_ca R c =
          (if ext_of M c NID_key_usage = Some ''critical,digitalSignature'' then 0
           else if v = ''critical,CA:TRUE'' then 1 else 0)) \<and>
     (ext_of M c NID_key_usage = Some ''critical,keyCertSign,cRLSign'' \<longrightarrow>
        ext_key_usage_bits R c = Some (\<lambda>i. if i = 5 \<or> i = 6 then 1 else 0)) \<and>
     (ext_of M c NID_key_usage = Some ''critical,digitalSignature'' \<longrightarrow>
        ext_key_usage_bits R c = Some (\<lambda>i. if i = 0 then 1 else 0)) \<and>
     ext_extended_usage R c =
       (if ext_of M c NID_ext_key_usage = None then None else Some [NID_server_auth]) \<and>
     (\<forall>ip. length ip = 4 \<longrightarrow> ext_of M c NID_subject_alt_name = Some (''IP:'' @ ipv4_of ip) \<longrightarrow>
        ext_subject_alt_name R c = Some [GEN_IPADD ip]) \<and>
     (ext_of M c NID_subject_alt_name = None \<longrightarrow> ext_subject_alt_name R c = None))"

lemma extension_readingD:
  assumes "extension_reading L R M" and "well_formed L M c"
  shows "ext_of M c NID_basic_constraints = Some v \<Longrightarrow> X509_check_ca R c =
      (if ext_of M c NID_key_usage = Some ''critical,digitalSignature'' then 0
       else if v = ''critical,CA:TRUE'' then 1 else 0)"
    and "ext_of M c NID_key_usage = Some ''critical,keyCertSign,cRLSign'' \<Longrightarrow>
      ext_key_usage_bits R c = Some (\<lambda>i. if i = 5 \<or> i = 6 then 1 else 0)"
    and "ext_of M c NID_key_usage = Some ''critical,digitalSignature'' \<Longrightarrow>
      ext_key_usage_bits R c = Some (\<lambda>i. if i = 0 then 1 else 0)"
    and "ext_extended_usage R c =
      (if ext_of M c NID_ext_key_usage = None then None else Some [NID_server_auth])"
    and "length ip = 4 \<Longrightarrow> ext_of M c NID_subject_alt_name = Some (''IP:'' @ ipv4_of ip) \<Longrightarrow>
      ext_subject_alt_name R c = Some [GEN_IPADD ip]"
    and "ext_of M c NID_subject_alt_name = None \<Longrightarrow> ext_subject_alt_name R c = None"
  using assms(1) [unfolded extension_reading_def, rule_format, OF assms(2)] by blast+

section \<open>Reading back what was issued\<close>

lemma bioToString_some:
  "bioToString L m = txt \<Longrightarrow> txt \<noteq> [] \<Longrightarrow> BIO_get_mem_data L m = Some txt"
  by (auto simp: bioToString_def split: option.splits if_splits)

lemma pem_of_reads:
  assumes "pem_reading L M same" and "pem_of L c txt" and "length txt \<le> INT_MAX"
  obtains c' where "pemToX509 L txt = Some c'"
    and "same_profile same (profile_of M c') (profile_of M c)"
proof -
  from assms(2) obtain w w' where ne: "txt \<noteq> []" and "run_state (x509ToPem L c) w = (txt, w')"
    unfolding pem_of_def by blast
  then obtain m w1 m' where
    run: "run_state (BIO_new_mem L) w = (Some m, w1)"
      "run_state (PEM_write_bio_X509 L m c) w1 = ((1, m'), w')" "bioToString L m' = txt"
    by (auto simp: x509ToPem_def split: prod.splits option.splits if_splits)
  obtain b c' where "BIO_new_mem_buf L txt = Some b" "PEM_read_bio_X509 L b = Some c'"
    "same_profile same (profile_of M c') (profile_of M c)"
    using assms(1) run(1,2) bioToString_some [OF run(3) ne] unfolding pem_reading_def by blast
  with assms(3) show ?thesis by (auto intro: that simp: pemToX509_def memBio_def)
qed

lemma key_pem_of_reads:
  assumes "pem_reading L M same" and "key_pem_of L k txt" and "length txt \<le> INT_MAX"
  obtains b k' where "memBio L txt = Some b" and "PEM_read_bio_PrivateKey L b = Some k'"
    and "same k' k"
proof -
  from assms(2) obtain w w' where ne: "txt \<noteq> []" and "run_state (pkeyToPem L k) w = (txt, w')"
    unfolding key_pem_of_def by blast
  then obtain m w1 m' where
    run: "run_state (BIO_new_mem L) w = (Some m, w1)"
      "run_state (PEM_write_bio_PrivateKey L m k) w1 = ((1, m'), w')" "bioToString L m' = txt"
    by (auto simp: pkeyToPem_def split: prod.splits option.splits if_splits)
  obtain b k' where "BIO_new_mem_buf L txt = Some b" "PEM_read_bio_PrivateKey L b = Some k'"
    "same k' k"
    using assms(1) run(1,2) bioToString_some [OF run(3) ne] unfolding pem_reading_def by blast
  with assms(3) show ?thesis by (auto intro: that simp: memBio_def)
qed

lemma same_profile_keys:
  assumes "same_profile same p q" and "equivp same"
  shows "public_key q = Some k \<Longrightarrow> \<exists>k'. public_key p = Some k' \<and> same k k'"
    and "signature q = Some (k, d) \<Longrightarrow> \<exists>k'. signature p = Some (k', d) \<and> same k k'"
  using assms(1) equivp_symp [OF assms(2)]
  by (auto simp: same_profile_def option_rel_Some2 rel_prod_sel)

lemma verify_issued:
  assumes keys: "key_reading L M same" "equivp same"
    and "pemToX509 L pem = Some c" and "pemToX509 L issuer_pem = Some i"
    and "public_key (profile_of M i) = Some k" and "signature (profile_of M c) = Some (k2, d)"
    and "same k k2"
  shows "verifySignedBy L pem issuer_pem"
proof -
  obtain k' where "X509_get_pubkey L i = Some k'" "same k' k"
    using keys assms(5) unfolding key_reading_def by blast
  moreover from this(2) have "same k' k2" by (rule equivp_transp [OF keys(2) _ assms(7)])
  then have "X509_verify L c k' = 1"
    using keys assms(6) unfolding key_reading_def by blast
  ultimately show ?thesis using assms(3,4) by (simp add: verifySignedBy_def)
qed

lemma matches_issued:
  assumes "key_reading L M same" and "pemToX509 L pem = Some c"
    and "memBio L key_txt = Some b" and "PEM_read_bio_PrivateKey L b = Some k'" and "same k' k"
    and "public_key (profile_of M c) = Some k"
  shows "certMatchesKey L pem key_txt"
proof -
  have "X509_check_private_key L c k' = 1"
    using assms(1,5,6) unfolding key_reading_def by blast
  with assms(2-4) show ?thesis by (simp add: certMatchesKey_def)
qed

section \<open>Properties\<close>

text \<open>
  C37 (the addresses of a certificate). Whatever certificate was read, the reported addresses
  are the 4-byte entries of its alternative names in their order, each an IPv4 literal the
  issuing side would accept; DNS names and 16-byte addresses are reported by their flags
  and never as an address; \<open>server_auth\<close> is set exactly if the purpose is listed; and the
  serial number has no upper-case hexadecimal digit.
\<close>

theorem inspectCertPem_names:
  assumes "inspectCertPem L R pem = Some f"
  shows "list_all isIpv4Literal (san_ips f) \<and>
    list_all (\<lambda>c. \<not> (CHR ''A'' \<le> c \<and> c \<le> CHR ''F'')) (serial_hex f) \<and>
    (\<exists>c. pemToX509 L pem = Some c \<and>
      san_ips f = map (ipv4_of \<circ> address_of) (filter is_ipv4_name (alternative_names R c)) \<and>
      has_dns_san f = (GEN_DNS \<in> set (alternative_names R c)) \<and>
      has_ipv6_san f = list_ex is_ipv6_name (alternative_names R c) \<and>
      server_auth f = (NID_server_auth \<in> set (purposes R c)))"
proof -
  from assms obtain c where c: "pemToX509 L pem = Some c"
    by (auto simp: inspectCertPem_def split: option.splits)
  from inspect_fields [OF c] assms have "san_ips f = map (ipv4_of \<circ> address_of)
      (filter is_ipv4_name (alternative_names R c))"
    "has_dns_san f = (GEN_DNS \<in> set (alternative_names R c))"
    "has_ipv6_san f = list_ex is_ipv6_name (alternative_names R c)"
    "server_auth f = (NID_server_auth \<in> set (purposes R c))"
    by (metis option.inject)+
  moreover from this(1) have "list_all isIpv4Literal (san_ips f)"
    by (auto simp: list_all_iff is_ipv4_name_def address_of_def isIpv4Literal_ipv4_of
        split: general_name.splits)
  ultimately show ?thesis using inspect_serial_hex [OF assms] c by blast
qed

text \<open>
  C38 (a PEM text that does not fit \<^verbatim>\<open>int\<close> is rejected). A text of more than 2147483647 bytes
  is never passed on with a narrowed length: nothing is read from it, and no check that
  involves it succeeds, whatever the library does.
\<close>

theorem oversized_pem_rejected:
  assumes "2147483647 < length pem"
  shows "inspectCertPem L R pem = None \<and> \<not> verifySignedBy L pem other \<and>
    \<not> verifySignedBy L other pem \<and> \<not> certMatchesKey L pem other \<and> \<not> certMatchesKey L other pem"
proof -
  have bio: "memBio L pem = None" using assms by (simp add: memBio_def INT_MAX_def)
  then have "pemToX509 L pem = None" by (simp add: pemToX509_def)
  with bio show ?thesis
    by (simp add: inspectCertPem_def verifySignedBy_def certMatchesKey_def split: option.split)
qed

text \<open>
  C11 (issued certificates verify). The certificates of an issued result verify against the
  root: the root against itself and the server's against the root; and each certificate
  matches the private key issued with it. The texts only have to fit \<^verbatim>\<open>int\<close>.
\<close>

theorem issued_certificates_verify:
  assumes "ssl_issuing L M" and "pem_reading L M same" and "key_reading L M same"
    and "run_state (issueDevCa L ip) w = (Some out, w')"
    and "list_all (\<lambda>txt. length txt \<le> 2147483647)
      [ca_cert_pem out, ca_key_pem out, server_cert_pem out, server_key_pem out]"
  shows "verifySignedBy L (ca_cert_pem out) (ca_cert_pem out) \<and>
    verifySignedBy L (server_cert_pem out) (ca_cert_pem out) \<and>
    certMatchesKey L (ca_cert_pem out) (ca_key_pem out) \<and>
    certMatchesKey L (server_cert_pem out) (server_key_pem out)"
proof -
  from assms(1,4) obtain ca ca_key leaf leaf_key where
    root: "root_contents (profile_of M ca) ca_key" and
    leaf: "leaf_contents (profile_of M leaf) leaf_key ip (profile_of M ca) ca_key" and
    pem: "pem_of L ca (ca_cert_pem out)" "key_pem_of L ca_key (ca_key_pem out)"
      "pem_of L leaf (server_cert_pem out)" "key_pem_of L leaf_key (server_key_pem out)"
    by (rule issueDevCa_effect)
  have len: "length (ca_cert_pem out) \<le> INT_MAX" "length (ca_key_pem out) \<le> INT_MAX"
    "length (server_cert_pem out) \<le> INT_MAX" "length (server_key_pem out) \<le> INT_MAX"
    using assms(5) by (simp_all add: INT_MAX_def)
  have same: "equivp same" using assms(2) by (simp add: pem_reading_def)
  obtain ca' where ca': "pemToX509 L (ca_cert_pem out) = Some ca'"
      "same_profile same (profile_of M ca') (profile_of M ca)"
    using pem_of_reads [OF assms(2) pem(1) len(1)] .
  obtain leaf' where leaf': "pemToX509 L (server_cert_pem out) = Some leaf'"
      "same_profile same (profile_of M leaf') (profile_of M leaf)"
    using pem_of_reads [OF assms(2) pem(3) len(3)] .
  obtain b k where k: "memBio L (ca_key_pem out) = Some b" "PEM_read_bio_PrivateKey L b = Some k"
      "same k ca_key"
    using key_pem_of_reads [OF assms(2) pem(2) len(2)] .
  obtain b2 k2 where k2: "memBio L (server_key_pem out) = Some b2"
      "PEM_read_bio_PrivateKey L b2 = Some k2" "same k2 leaf_key"
    using key_pem_of_reads [OF assms(2) pem(4) len(4)] .
  have keys: "public_key (profile_of M ca) = Some ca_key" "public_key (profile_of M leaf) = Some leaf_key"
    "signature (profile_of M ca) = Some (ca_key, ''sha256'')"
    "signature (profile_of M leaf) = Some (ca_key, ''sha256'')"
    using root leaf by (simp_all add: root_contents_def leaf_contents_def initialised_def)
  note found = same_profile_keys [OF ca'(2) same] same_profile_keys [OF leaf'(2) same]
  obtain c1 c2 l1 l2 where read: "public_key (profile_of M ca') = Some c1" "same ca_key c1"
    "signature (profile_of M ca') = Some (c2, ''sha256'')" "same ca_key c2"
    "public_key (profile_of M leaf') = Some l1" "same leaf_key l1"
    "signature (profile_of M leaf') = Some (l2, ''sha256'')" "same ca_key l2"
    using found(1) [OF keys(1)] found(2) [OF keys(3)] found(3) [OF keys(2)] found(4) [OF keys(4)]
    by blast
  note trans = equivp_transp [OF same] and sym = equivp_symp [OF same]
  show ?thesis
    using verify_issued [OF assms(3) same ca'(1) ca'(1) read(1,3) trans [OF sym [OF read(2)] read(4)]]
      verify_issued [OF assms(3) same leaf'(1) ca'(1) read(1,7) trans [OF sym [OF read(2)] read(8)]]
      matches_issued [OF assms(3) ca'(1) k(1,2) trans [OF k(3) read(2)] read(1)]
      matches_issued [OF assms(3) leaf'(1) k2(1,2) trans [OF k2(3) read(6)] read(5)]
    by blast
qed

lemma ipv4_bytes: "isIpv4Literal s \<Longrightarrow> \<exists>ip. length ip = 4 \<and> s = ipv4_of ip"
proof -
  assume "isIpv4Literal s"
  then obtain ns where ns: "length ns = 4" "list_all (\<lambda>n. n < 256) ns" "s = ipv4_text ns"
    unfolding isIpv4Literal_text by blast
  have "map unat (map (word_of_nat :: nat \<Rightarrow> byte) ns) = ns"
    using ns(2) by (auto intro!: map_idI simp: list_all_iff unat_of_nat)
  with ns show ?thesis
    by (intro exI [of _ "map word_of_nat ns"]) (simp add: ipv4_of_def)
qed

lemma extension_values:
  "map_of root_extensions NID_basic_constraints = Some ''critical,CA:TRUE''"
  "map_of root_extensions NID_key_usage = Some ''critical,keyCertSign,cRLSign''"
  "map_of root_extensions NID_ext_key_usage = None"
  "map_of root_extensions NID_subject_alt_name = None"
  "map_of (leaf_extensions san) NID_basic_constraints = Some ''critical,CA:FALSE''"
  "map_of (leaf_extensions san) NID_key_usage = Some ''critical,digitalSignature''"
  "map_of (leaf_extensions san) NID_ext_key_usage = Some ''serverAuth''"
  "map_of (leaf_extensions san) NID_subject_alt_name = Some san"
  by (simp_all add: root_extensions_def leaf_extensions_def)

lemma issued_well_formed:
  assumes "pemToX509 L pem = Some c" and "version (profile_of M c) = 2"
  shows "extensions (profile_of M c) = root_extensions \<Longrightarrow> well_formed L M c"
    and "extensions (profile_of M c) = leaf_extensions (''IP:'' @ ip) \<Longrightarrow> isIpv4Literal ip \<Longrightarrow>
      well_formed L M c"
proof -
  have "\<exists>b. PEM_read_bio_X509 L b = Some c"
    using assms(1) by (auto simp: pemToX509_def split: option.splits)
  moreover have "distinct (map fst root_extensions)" "distinct (map fst (leaf_extensions san))" for san
    by (simp_all add: root_extensions_def leaf_extensions_def)
  ultimately show "extensions (profile_of M c) = root_extensions \<Longrightarrow> well_formed L M c"
    and "extensions (profile_of M c) = leaf_extensions (''IP:'' @ ip) \<Longrightarrow> isIpv4Literal ip \<Longrightarrow>
      well_formed L M c"
    using assms(2) extensions_configured by (simp_all add: well_formed_def)
qed

lemma inspect_root:
  assumes "extension_reading L R M" and "pemToX509 L pem = Some c"
    and "extensions (profile_of M c) = root_extensions" and "version (profile_of M c) = 2"
  shows "\<exists>f. inspectCertPem L R pem = Some f \<and> is_ca f \<and> key_cert_sign f \<and> crl_sign f \<and>
    \<not> digital_signature f \<and> \<not> server_auth f \<and> san_ips f = [] \<and> \<not> has_dns_san f \<and> \<not> has_ipv6_san f"
proof -
  have "X509_check_ca R c = 1" "ext_key_usage_bits R c = Some (\<lambda>i. if i = 5 \<or> i = 6 then 1 else 0)"
    "ext_extended_usage R c = None" "ext_subject_alt_name R c = None"
    using extension_readingD [OF assms(1) issued_well_formed(1) [OF assms(2,4,3)]]
    by (simp_all add: assms(3) extension_values)
  with inspect_fields [OF assms(2), of R] show ?thesis by fastforce
qed

lemma inspect_leaf:
  assumes "extension_reading L R M" and "pemToX509 L pem = Some c"
    and "extensions (profile_of M c) = leaf_extensions (''IP:'' @ ip)" and "isIpv4Literal ip"
    and "version (profile_of M c) = 2"
  shows "\<exists>f. inspectCertPem L R pem = Some f \<and> \<not> is_ca f \<and> \<not> key_cert_sign f \<and> \<not> crl_sign f \<and>
    digital_signature f \<and> server_auth f \<and> san_ips f = [ip] \<and> \<not> has_dns_san f \<and> \<not> has_ipv6_san f"
proof -
  obtain bs where bs: "length bs = 4" "ip = ipv4_of bs" using ipv4_bytes [OF assms(4)] by blast
  have "X509_check_ca R c = 0" "ext_key_usage_bits R c = Some (\<lambda>i. if i = 0 then 1 else 0)"
    "ext_extended_usage R c = Some [NID_server_auth]"
    "ext_subject_alt_name R c = Some [GEN_IPADD bs]"
    using extension_readingD [OF assms(1) issued_well_formed(2) [OF assms(2,5,3,4)]] bs
    by (simp_all add: assms(3) extension_values)
  with inspect_fields [OF assms(2), of R] bs show ?thesis
    by (fastforce simp: is_ipv4_name_def is_ipv6_name_def address_of_def)
qed

text \<open>
  C8 (issued certificates pass their own inspection). Reading back an issued result gives the
  documented facts: the root is a CA that signs certificates and revocation lists, for no
  address and no server; the server certificate is no CA, signs, authenticates a server, and
  names the requested address and nothing else.
\<close>

theorem issued_certificates_inspect:
  assumes "ssl_issuing L M" and "pem_reading L M same" and "extension_reading L R M"
    and "run_state (issueDevCa L ip) w = (Some out, w')"
    and "length (ca_cert_pem out) \<le> 2147483647" and "length (server_cert_pem out) \<le> 2147483647"
  shows "(\<exists>f. inspectCertPem L R (ca_cert_pem out) = Some f \<and> is_ca f \<and> key_cert_sign f \<and>
      crl_sign f \<and> \<not> digital_signature f \<and> \<not> server_auth f \<and> san_ips f = [] \<and>
      \<not> has_dns_san f \<and> \<not> has_ipv6_san f) \<and>
    (\<exists>f. inspectCertPem L R (server_cert_pem out) = Some f \<and> \<not> is_ca f \<and> \<not> key_cert_sign f \<and>
      \<not> crl_sign f \<and> digital_signature f \<and> server_auth f \<and> san_ips f = [ip] \<and>
      \<not> has_dns_san f \<and> \<not> has_ipv6_san f)"
proof -
  from assms(1,4) obtain ca ca_key leaf leaf_key where ip: "isIpv4Literal ip" and
    root: "root_contents (profile_of M ca) ca_key" and
    leaf: "leaf_contents (profile_of M leaf) leaf_key ip (profile_of M ca) ca_key" and
    pem: "pem_of L ca (ca_cert_pem out)" "pem_of L leaf (server_cert_pem out)"
    by (rule issueDevCa_effect)
  have len: "length (ca_cert_pem out) \<le> INT_MAX" "length (server_cert_pem out) \<le> INT_MAX"
    using assms(5,6) by (simp_all add: INT_MAX_def)
  obtain ca' where ca': "pemToX509 L (ca_cert_pem out) = Some ca'"
      "same_profile same (profile_of M ca') (profile_of M ca)"
    using pem_of_reads [OF assms(2) pem(1) len(1)] .
  obtain leaf' where leaf': "pemToX509 L (server_cert_pem out) = Some leaf'"
      "same_profile same (profile_of M leaf') (profile_of M leaf)"
    using pem_of_reads [OF assms(2) pem(2) len(2)] .
  have "extensions (profile_of M ca') = root_extensions"
    "extensions (profile_of M leaf') = leaf_extensions (''IP:'' @ ip)"
    "version (profile_of M ca') = 2" "version (profile_of M leaf') = 2"
    using root leaf ca'(2) leaf'(2)
    by (simp_all add: root_contents_def leaf_contents_def initialised_def same_profile_def)
  from inspect_root [OF assms(3) ca'(1) this(1,3)] inspect_leaf [OF assms(3) leaf'(1) this(2) ip this(4)]
  show ?thesis by blast
qed

end
