(* ===== verification/Dev_Ca_Files.thy ===== *)
theory Dev_Ca_Files
  imports Dev_Ca
begin

text \<open>
  \<^verbatim>\<open>writeDevCaFiles\<close> of \<^verbatim>\<open>tools/pki/src/dev_ca.cpp\<close> and the command of
  \<^verbatim>\<open>tools/pki/src/dev_ca_main.cpp\<close>. The disk is a value: its files, and where its operations
  fail. \<^verbatim>\<open>std::filesystem\<close> and \<^verbatim>\<open>std::ofstream\<close> are modelled as far as the code uses them.
\<close>

section \<open>The disk\<close>

text \<open>
  Opening with \<^verbatim>\<open>trunc\<close> empties the file; a write may be cut short, and the error shows at
  the latest in the state of the closed stream.
\<close>

record disk =
  files :: "string \<rightharpoonup> string"
  mkdir_fails :: "string \<Rightarrow> bool"
  open_fails :: "string \<Rightarrow> bool"
  bytes_written :: "string \<Rightarrow> string \<Rightarrow> nat"

text \<open>
  \<^verbatim>\<open>path / name\<close>: a separator unless the path is empty or ends with one. The separator is
  that of POSIX; no lemma depends on which character it is.
\<close>

definition path_append :: "string \<Rightarrow> string \<Rightarrow> string" where
  "path_append path name =
     (if path = [] \<or> last path = CHR ''/'' then path @ name else path @ ''/'' @ name)"

definition ofstream_write :: "string \<Rightarrow> string \<Rightarrow> disk \<Rightarrow> bool \<times> disk" where
  "ofstream_write path content d =
     (if open_fails d path then (False, d)
      else let d = d\<lparr>files := (files d)(path \<mapsto> [])\<rparr>;
               n = min (bytes_written d path content) (length content);
               d = d\<lparr>files := (files d)(path \<mapsto> take n content)\<rparr>
      in (n = length content, d))"

section \<open>Writing the four files\<close>

text \<open>The lambda \<^verbatim>\<open>write_file\<close>.\<close>

definition write_file :: "string \<Rightarrow> string \<Rightarrow> string \<Rightarrow> disk \<Rightarrow> bool \<times> disk" where
  "write_file output_path name content d = ofstream_write (path_append output_path name) content d"

text \<open>The chain \<^verbatim>\<open>write_file(...) && ...\<close> stops at the first failure.\<close>

fun write_all :: "string \<Rightarrow> (string \<times> string) list \<Rightarrow> disk \<Rightarrow> bool \<times> disk" where
  "write_all output_path [] d = (True, d)"
| "write_all output_path ((name, content) # rest) d =
     (case write_file output_path name content d of (done, d) \<Rightarrow>
        if \<not> done then (False, d) else write_all output_path rest d)"

definition output_files :: "IssueDevCa \<Rightarrow> (string \<times> string) list" where
  "output_files issued =
     [(''trusted-ca.pem'', ca_cert_pem issued), (''ca-key.pem'', ca_key_pem issued),
      (''server-cert.pem'', server_cert_pem issued), (''server-key.pem'', server_key_pem issued)]"

definition writeDevCaFiles :: "IssueDevCa \<Rightarrow> string \<Rightarrow> disk \<Rightarrow> bool \<times> disk" where
  "writeDevCaFiles issued output_dir d =
     (if mkdir_fails d output_dir then (False, d)
      else write_all output_dir (output_files issued) d)"

section \<open>The command\<close>

text \<open>
  The loop over the arguments after the program name: the address and the directory, \<open>None\<close>
  where the usage is printed and 2 returned. An option needs a value after it.
\<close>

fun parse_args :: "string list \<Rightarrow> string \<Rightarrow> string \<Rightarrow> (string \<times> string) option" where
  "parse_args [] ip out = Some (ip, out)"
| "parse_args [arg] ip out = None"
| "parse_args (arg # v # args) ip out =
     (if arg = ''--ip'' then parse_args args v out
      else if arg = ''--out'' then parse_args args ip v
      else None)"

text \<open>What the command prints: usage and errors on \<^verbatim>\<open>stderr\<close>, the result on \<^verbatim>\<open>stdout\<close>.\<close>

datatype message =
    Usage
  | Issue_failed string
  | Write_failed string
  | Issued string string

fun message_text :: "message \<Rightarrow> string" where
  "message_text Usage =
     ''usage: chathub-dev-ca [--ip 127.0.0.1] [--out dir]'' @ [CHR 0x0A]"
| "message_text (Issue_failed ip) =
     ''error: invalid or failed CA issue for IP '' @ [CHR 0x27] @ ip @ [CHR 0x27, CHR 0x0A]"
| "message_text (Write_failed out) =
     ''error: cannot write PEM files to '' @ [CHR 0x27] @ out @ [CHR 0x27, CHR 0x0A]"
| "message_text (Issued fingerprint out) =
     ''CA fingerprint (SHA-256): '' @ fingerprint @ [CHR 0x0A] @
     ''wrote trusted-ca.pem, ca-key.pem, server-cert.pem, server-key.pem to '' @ out @ [CHR 0x0A]"

definition dev_ca_main where
  "dev_ca_main L args w d =
     (case parse_args args kDefaultServerIpv4 ''run-data/pki'' of
        None \<Rightarrow> (2 :: int, [Usage], w, d)
      | Some (ip, out) \<Rightarrow>
      (case run_state (issueDevCa L ip) w of
        (None, w) \<Rightarrow> (1, [Issue_failed ip], w, d)
      | (Some issued, w) \<Rightarrow>
      (case writeDevCaFiles issued out d of
        (done, d) \<Rightarrow>
          if \<not> done then (1, [Write_failed out], w, d)
          else (0, [Issued (ca_fingerprint_sha256 issued) out], w, d))))"

section \<open>Lemmas\<close>

lemma ofstream_write_other:
  "ofstream_write p c d = (done, d') \<Longrightarrow> q \<noteq> p \<Longrightarrow> files d' q = files d q"
  by (auto simp: ofstream_write_def Let_def split: if_splits)

lemma ofstream_write_done:
  "ofstream_write p c d = (True, d') \<Longrightarrow>
     files d' p = Some c \<and> mkdir_fails d' = mkdir_fails d \<and> open_fails d' = open_fails d \<and>
     bytes_written d' = bytes_written d"
  by (auto simp: ofstream_write_def Let_def split: if_splits)

lemma ofstream_write_succeeds:
  "fst (ofstream_write p c d) \<longleftrightarrow> \<not> open_fails d p \<and> length c \<le> bytes_written d p c"
  by (auto simp: ofstream_write_def Let_def min_def)

lemma path_append_inj: "path_append p a = path_append p b \<longleftrightarrow> a = b"
  by (simp add: path_append_def)

text \<open>Files that are not named keep their content, whether the chain succeeds or not.\<close>

lemma write_all_other:
  "write_all p fs d = (done, d') \<Longrightarrow> q \<notin> path_append p ` fst ` set fs \<Longrightarrow> files d' q = files d q"
proof (induction fs arbitrary: d)
  case (Cons f fs)
  obtain n c where f: "f = (n, c)" by (cases f)
  obtain b e where e: "write_file p n c d = (b, e)" by (cases "write_file p n c d")
  have "files e q = files d q"
    using ofstream_write_other [OF e [unfolded write_file_def]] Cons.prems(2) f by auto
  moreover have "files d' q = files e q"
    using Cons.IH [of e] Cons.prems e f by (cases b) auto
  ultimately show ?case by simp
qed simp

lemma write_all_done:
  assumes "distinct (map fst fs)"
  shows "write_all p fs d = (True, d') \<Longrightarrow> (n, c) \<in> set fs \<Longrightarrow> files d' (path_append p n) = Some c"
  using assms
proof (induction fs arbitrary: d)
  case (Cons f fs)
  obtain m b where f: "f = (m, b)" by (cases f)
  from Cons.prems(1) obtain e where e: "ofstream_write (path_append p m) b d = (True, e)"
    and r: "write_all p fs e = (True, d')"
    by (auto simp: f write_file_def split: prod.splits if_splits)
  show ?case
  proof (cases "(n, c) \<in> set fs")
    case True
    with Cons.IH [OF r] Cons.prems(3) show ?thesis by simp
  next
    case False
    with Cons.prems(2) f have nc: "n = m" "c = b" by auto
    have "path_append p m \<notin> path_append p ` fst ` set fs"
      using Cons.prems(3) by (force simp: f path_append_inj)
    from write_all_other [OF r this] ofstream_write_done [OF e] nc show ?thesis by simp
  qed
qed simp

lemma output_names: "map fst (output_files issued) =
    [''trusted-ca.pem'', ''ca-key.pem'', ''server-cert.pem'', ''server-key.pem'']"
  by (simp add: output_files_def)

text \<open>The chain succeeds exactly when every file can be opened and takes its whole content.\<close>

lemma write_all_succeeds:
  "fst (write_all p fs d) \<longleftrightarrow>
     list_all (\<lambda>(n, c). \<not> open_fails d (path_append p n) \<and>
       length c \<le> bytes_written d (path_append p n) c) fs"
proof (induction fs arbitrary: d)
  case (Cons f fs)
  obtain n c where f: "f = (n, c)" by (cases f)
  obtain b e where e: "write_file p n c d = (b, e)" by (cases "write_file p n c d")
  show ?case
  proof (cases b)
    case True
    with e have "ofstream_write (path_append p n) c d = (True, e)" by (simp add: write_file_def)
    from ofstream_write_done [OF this] ofstream_write_succeeds [of "path_append p n" c d] this
    show ?thesis using e True by (simp add: f Cons.IH [of e])
  next
    case False
    with e have "\<not> fst (ofstream_write (path_append p n) c d)" by (simp add: write_file_def)
    with e False show ?thesis by (auto simp: f ofstream_write_succeeds)
  qed
qed simp

section \<open>Properties\<close>

text \<open>
  C35 (the four files). Writing succeeds exactly when the directory can be made and all four
  files can be opened and hold their content. Then \<open>trusted-ca.pem\<close> holds the root's
  certificate, never its key, and the other three files hold what they are named for. On
  success and on failure alike, no other file of the disk changes, and if the directory
  cannot be made nothing changes.
\<close>

theorem writeDevCaFiles_files:
  "(case writeDevCaFiles issued dir d of (ok, d') \<Rightarrow>
      ok = (\<not> mkdir_fails d dir \<and>
        list_all (\<lambda>(n, c). \<not> open_fails d (path_append dir n) \<and>
          length c \<le> bytes_written d (path_append dir n) c) (output_files issued)) \<and>
      (if ok then
         files d' (path_append dir ''trusted-ca.pem'') = Some (ca_cert_pem issued) \<and>
         files d' (path_append dir ''ca-key.pem'') = Some (ca_key_pem issued) \<and>
         files d' (path_append dir ''server-cert.pem'') = Some (server_cert_pem issued) \<and>
         files d' (path_append dir ''server-key.pem'') = Some (server_key_pem issued)
       else True) \<and>
      (if mkdir_fails d dir then d' = d
       else \<forall>q. q \<in> path_append dir ` {''trusted-ca.pem'', ''ca-key.pem'', ''server-cert.pem'',
           ''server-key.pem''} \<or> files d' q = files d q))"
proof (cases "mkdir_fails d dir")
  case False
  obtain ok d' where r: "write_all dir (output_files issued) d = (ok, d')"
    by (cases "write_all dir (output_files issued) d")
  have w: "writeDevCaFiles issued dir d = (ok, d')"
    using False r by (simp add: writeDevCaFiles_def)
  have names: "fst ` set (output_files issued) =
      {''trusted-ca.pem'', ''ca-key.pem'', ''server-cert.pem'', ''server-key.pem''}"
    by (simp add: output_files_def)
  have "distinct (map fst (output_files issued))" by (simp add: output_names)
  note written = write_all_done [OF this, of dir d d']
  have "ok \<longrightarrow> (\<forall>n c. (n, c) \<in> set (output_files issued) \<longrightarrow> files d' (path_append dir n) = Some c)"
    using written r by (cases ok) simp_all
  then have "if ok then
         files d' (path_append dir ''trusted-ca.pem'') = Some (ca_cert_pem issued) \<and>
         files d' (path_append dir ''ca-key.pem'') = Some (ca_key_pem issued) \<and>
         files d' (path_append dir ''server-cert.pem'') = Some (server_cert_pem issued) \<and>
         files d' (path_append dir ''server-key.pem'') = Some (server_key_pem issued)
       else True"
    by (simp add: output_files_def)
  moreover have "ok = list_all (\<lambda>(n, c). \<not> open_fails d (path_append dir n) \<and>
      length c \<le> bytes_written d (path_append dir n) c) (output_files issued)"
    using write_all_succeeds [of dir "output_files issued" d] r by simp
  moreover have "\<forall>q. q \<in> path_append dir ` fst ` set (output_files issued) \<or> files d' q = files d q"
    using write_all_other [OF r] by blast
  ultimately show ?thesis using False by (simp add: w names)
qed (simp add: writeDevCaFiles_def)

text \<open>The arguments the command accepts: options, each with its value, in any order.\<close>

fun option_pairs :: "string list \<Rightarrow> (string \<times> string) list option" where
  "option_pairs [] = Some []"
| "option_pairs [_] = None"
| "option_pairs (a # v # args) =
     (if a \<in> {''--ip'', ''--out''} then map_option (Cons (a, v)) (option_pairs args) else None)"

definition last_value :: "string \<Rightarrow> (string \<times> string) list \<Rightarrow> string \<Rightarrow> string" where
  "last_value key opts def = (case map_of (rev opts) key of None \<Rightarrow> def | Some v \<Rightarrow> v)"

lemma last_value_Cons:
  "last_value key ((a, v) # opts) def = last_value key opts (if a = key then v else def)"
  by (auto simp: last_value_def map_add_def split: option.splits)

lemma parse_args_pairs:
  "parse_args args ip out =
     map_option (\<lambda>opts. (last_value ''--ip'' opts ip, last_value ''--out'' opts out)) (option_pairs args)"
proof (induction args ip out rule: parse_args.induct)
  case (3 arg v args ip out)
  then show ?case
    by (auto simp: option.map_comp o_def last_value_Cons)
qed (simp_all add: last_value_def)

text \<open>
  C36 (the command). The command accepts exactly sequences of \<open>--ip\<close> and \<open>--out\<close> with a value
  each; the last value of an option counts, the defaults are 127.0.0.1 and run-data/pki.
  Otherwise it returns 2 and touches nothing. It returns 0 exactly when a result was issued
  and written, and then has printed its fingerprint; in every other case it returns 1 with
  an error message, and unless writing was reached the disk is unchanged. An address that is
  no IPv4 literal ends in 1 before the library or the disk is touched.
\<close>

theorem dev_ca_main_exit:
  "(case option_pairs args of
      None \<Rightarrow> dev_ca_main L args w d = (2, [Usage], w, d)
    | Some opts \<Rightarrow>
        (let ip = last_value ''--ip'' opts ''127.0.0.1'';
             out = last_value ''--out'' opts ''run-data/pki''
         in case dev_ca_main L args w d of (code, msgs, w', d') \<Rightarrow>
           if \<not> isIpv4Literal ip then (code, msgs, w', d') = (1, [Issue_failed ip], w, d)
           else case run_state (issueDevCa L ip) w of
             (None, v) \<Rightarrow> (code, msgs, w', d') = (1, [Issue_failed ip], v, d)
           | (Some issued, v) \<Rightarrow> w' = v \<and> d' = snd (writeDevCaFiles issued out d) \<and>
               (if fst (writeDevCaFiles issued out d)
                then code = 0 \<and> msgs = [Issued (ca_fingerprint_sha256 issued) out]
                else code = 1 \<and> msgs = [Write_failed out])))"
proof (cases "option_pairs args")
  case None
  then show ?thesis by (simp add: dev_ca_main_def parse_args_pairs)
next
  case (Some opts)
  let ?ip = "last_value ''--ip'' opts ''127.0.0.1''"
  have p: "parse_args args kDefaultServerIpv4 ''run-data/pki'' =
      Some (?ip, last_value ''--out'' opts ''run-data/pki'')"
    by (simp add: parse_args_pairs Some kDefaultServerIpv4_def)
  show ?thesis
  proof (cases "isIpv4Literal ?ip")
    case True
    then show ?thesis
      by (simp add: dev_ca_main_def p Some Let_def split: prod.split option.split)
  next
    case False
    then have "run_state (issueDevCa L ?ip) w = (None, w)" by (simp add: issueDevCa_def)
    then show ?thesis using False by (simp add: dev_ca_main_def p Some Let_def)
  qed
qed

end
