(* ===== verification/Openssl_Instance.thy ===== *)
theory Openssl_Instance
  imports Dev_Ca_Inspect Json_Text
begin

text \<open>
  A concrete implementation of the OpenSSL calls, used to show that the laws the certificate
  tool relies on can hold together and to run the tool on a concrete address. A certificate
  is its profile, a key a number, and PEM text is the compact JSON form of either. The world
  is a counter: it numbers the keys, is the clock, and feeds the random numbers. Nothing
  about the program depends on it.
\<close>

section \<open>Text of certificates\<close>

fun nid_code :: "nid \<Rightarrow> int" where
  "nid_code NID_basic_constraints = 87"
| "nid_code NID_key_usage = 83"
| "nid_code NID_subject_key_identifier = 82"
| "nid_code NID_ext_key_usage = 126"
| "nid_code NID_subject_alt_name = 85"
| "nid_code NID_authority_key_identifier = 90"

definition code_nid :: "int \<Rightarrow> nid" where
  "code_nid n =
     (if n = 87 then NID_basic_constraints else if n = 83 then NID_key_usage
      else if n = 82 then NID_subject_key_identifier else if n = 126 then NID_ext_key_usage
      else if n = 85 then NID_subject_alt_name else NID_authority_key_identifier)"

fun pair_json :: "string \<times> string \<Rightarrow> json" where
  "pair_json (a, b) = JArray [JString a, JString b]"

fun json_pair :: "json \<Rightarrow> string \<times> string" where
  "json_pair (JArray [JString a, JString b]) = (a, b)"
| "json_pair _ = ([], [])"

fun ext_json :: "nid \<times> string \<Rightarrow> json" where
  "ext_json (n, v) = JArray [JInt (nid_code n), JString v]"

fun json_ext :: "json \<Rightarrow> nid \<times> string" where
  "json_ext (JArray [JInt n, JString v]) = (code_nid n, v)"
| "json_ext _ = (NID_basic_constraints, [])"

fun key_json :: "nat option \<Rightarrow> json" where
  "key_json None = JBool False"
| "key_json (Some k) = JInt (int k)"

fun json_key :: "json \<Rightarrow> nat option" where
  "json_key (JInt k) = Some (nat k)"
| "json_key _ = None"

fun sig_json :: "(nat \<times> string) option \<Rightarrow> json" where
  "sig_json None = JBool False"
| "sig_json (Some (k, d)) = JArray [JInt (int k), JString d]"

fun json_sig :: "json \<Rightarrow> (nat \<times> string) option" where
  "json_sig (JArray [JInt k, JString d]) = Some (nat k, d)"
| "json_sig _ = None"

fun json_items :: "json \<Rightarrow> json list" where
  "json_items (JArray js) = js"
| "json_items _ = []"

fun json_int :: "json \<Rightarrow> int" where
  "json_int (JInt n) = n"
| "json_int _ = 0"

definition profile_json :: "nat profile \<Rightarrow> json" where
  "profile_json p = JArray
     [JInt (version p), JInt (int (serial p)), JInt (not_before p), JInt (not_after p),
      JArray (map pair_json (subject_name p)), JArray (map pair_json (issuer_name p)),
      key_json (public_key p), JArray (map ext_json (extensions p)), sig_json (signature p)]"

definition json_profile :: "json \<Rightarrow> nat profile option" where
  "json_profile j =
     (case json_items j of
        [v, s, nb, na, sn, iss, k, es, sg] \<Rightarrow> Some
          \<lparr>version = json_int v, serial = nat (json_int s), not_before = json_int nb,
           not_after = json_int na, subject_name = map json_pair (json_items sn),
           issuer_name = map json_pair (json_items iss), public_key = json_key k,
           extensions = map json_ext (json_items es), signature = json_sig sg\<rparr>
      | _ \<Rightarrow> None)"

lemma json_pair_inverse: "json_pair (pair_json p) = p"
  by (cases p) simp

lemma json_ext_inverse: "json_ext (ext_json e) = e"
proof (cases e)
  case (Pair n v)
  then show ?thesis by (cases n) (simp_all add: code_nid_def)
qed

lemma json_profile_inverse: "json_profile (profile_json p) = Some p"
proof -
  have "json_key (key_json k) = k" for k by (cases k) simp_all
  moreover have "json_sig (sig_json s) = s" for s by (cases s rule: sig_json.cases) simp_all
  ultimately show ?thesis
    by (simp add: json_profile_def profile_json_def o_def json_pair_inverse json_ext_inverse)
qed

section \<open>The calls\<close>

definition demo_ssl ::
  "(nat, nat, nat profile, nid \<times> string, nat, nat, string, (string \<times> string) list) openssl" where
  "demo_ssl =
     \<lparr>EVP_EC_gen = (\<lambda>_. State (\<lambda>w. (Some w, w + 1))),
      X509_new = State (\<lambda>w. (Some blank_profile, w)),
      X509_set_version = (\<lambda>c v. State (\<lambda>w. ((1, c\<lparr>version := v\<rparr>), w))),
      BN_new = State (\<lambda>w. (Some 0, w)),
      BN_rand_top_one = (\<lambda>b n. State (\<lambda>w.
        if n \<le> 0 then ((0, b), w)
        else ((1, 2 ^ (nat n - 1) + w mod 2 ^ (nat n - 1)), w + 1))),
      BN_to_ASN1_INTEGER = (\<lambda>b. State (\<lambda>w. (Some b, w))),
      X509_set_serialNumber = (\<lambda>c i. State (\<lambda>w. ((1, c\<lparr>serial := i\<rparr>), w))),
      gmtime_adj_notBefore = (\<lambda>c d. State (\<lambda>w. ((True, c\<lparr>not_before := int w + d\<rparr>), w + 1))),
      gmtime_adj_notAfter = (\<lambda>c d. State (\<lambda>w. ((True, c\<lparr>not_after := int w + d\<rparr>), w + 1))),
      X509_get_subject_name = subject_name,
      subject_add_entry_by_txt = (\<lambda>c f v. State (\<lambda>w.
        ((1, c\<lparr>subject_name := subject_name c @ [(f, v)]\<rparr>), w))),
      X509_set_issuer_name = (\<lambda>c n. State (\<lambda>w. ((1, c\<lparr>issuer_name := n\<rparr>), w))),
      X509_set_pubkey = (\<lambda>c k. State (\<lambda>w. ((1, c\<lparr>public_key := Some k\<rparr>), w))),
      X509V3_EXT_conf_nid = (\<lambda>ca c n v. State (\<lambda>w. (Some (n, v), w))),
      X509_add_ext = (\<lambda>c e. State (\<lambda>w. ((1, c\<lparr>extensions := extensions c @ [e]\<rparr>), w))),
      X509_sign = (\<lambda>c k d. State (\<lambda>w. ((72, c\<lparr>signature := Some (k, d)\<rparr>), w))),
      BIO_new_mem = State (\<lambda>w. (Some [], w)),
      PEM_write_bio_X509 = (\<lambda>m c. State (\<lambda>w. ((1, m @ print_json (profile_json c)), w))),
      PEM_write_bio_PrivateKey = (\<lambda>m k. State (\<lambda>w. ((1, m @ print_json (JInt (int k))), w))),
      BIO_get_mem_data = Some,
      X509_digest = (\<lambda>c d. State (\<lambda>w. ((1, replicate 32 0xCA), w))),
      BIO_new_mem_buf = Some,
      PEM_read_bio_X509 = (\<lambda>m. case read_json m of None \<Rightarrow> None | Some j \<Rightarrow> json_profile j),
      PEM_read_bio_PrivateKey = (\<lambda>m. case read_json m of None \<Rightarrow> None | Some j \<Rightarrow> json_key j),
      X509_get_pubkey = public_key,
      X509_verify = (\<lambda>c k. case signature c of Some (k', d) \<Rightarrow> if k' = k then 1 else 0 | None \<Rightarrow> 0),
      X509_check_private_key = (\<lambda>c k. if public_key c = Some k then 1 else 0)\<rparr>"

definition demo_meaning ::
  "(nat, nat, nat profile, nid \<times> string, nat, nat, (string \<times> string) list) ssl_meaning" where
  "demo_meaning =
     \<lparr>profile_of = (\<lambda>p. p), entries_of = (\<lambda>n. n), number_of = (\<lambda>b. b), integer_of = (\<lambda>i. i),
      extension_of = (\<lambda>e. e), clock_of = int\<rparr>"

lemma demo_issuing: "ssl_issuing demo_ssl demo_meaning"
proof -
  have "2 ^ (nat n - 1) + w mod 2 ^ (nat n - 1) < (2 :: nat) ^ nat n" if "0 < n" for n :: int and w
  proof -
    have "w mod 2 ^ (nat n - 1) < (2 :: nat) ^ (nat n - 1)" by simp
    moreover have "(2 :: nat) ^ nat n = 2 * 2 ^ (nat n - 1)"
      using that by (simp flip: power_Suc)
    ultimately show ?thesis by linarith
  qed
  then show ?thesis
    by (simp add: ssl_issuing_def ssl_laws demo_ssl_def demo_meaning_def)
qed

lemma demo_pem: "pem_reading demo_ssl demo_meaning (=)"
  unfolding pem_reading_def same_profile_def demo_ssl_def demo_meaning_def
  by (simp add: identity_equivp prod.rel_eq option.rel_eq read_print_json json_profile_inverse
      del: print_json.simps)

lemma demo_keys: "key_reading demo_ssl demo_meaning (=)"
  by (simp add: key_reading_def demo_ssl_def demo_meaning_def)

section \<open>Reading extensions\<close>

definition field :: "string \<Rightarrow> string" where
  "field s = takeWhile (\<lambda>c. c \<noteq> CHR ''.'') s"

definition after_field :: "string \<Rightarrow> string" where
  "after_field s = drop (length (field s) + 1) s"

definition parse_address :: "string \<Rightarrow> bytes" where
  "parse_address s =
     (let a = s; b = after_field a; c = after_field b; d = after_field c
      in map (\<lambda>x. word_of_nat (digits_value (field x))) [a, b, c, d])"

definition demo_reader :: "(nat profile, nat, nat, nat, int, int, unit, unit) x509_reader" where
  "demo_reader =
     \<lparr>X509_check_ca = (\<lambda>c.
        if map_of (extensions c) NID_key_usage = Some ''critical,digitalSignature'' then 0
        else if map_of (extensions c) NID_basic_constraints = Some ''critical,CA:TRUE'' then 1
        else 0),
      ext_key_usage_bits = (\<lambda>c. case map_of (extensions c) NID_key_usage of
        None \<Rightarrow> None
      | Some v \<Rightarrow> Some (if v = ''critical,digitalSignature'' then (\<lambda>i. if i = 0 then 1 else 0)
          else (\<lambda>i. if i = 5 \<or> i = 6 then 1 else 0))),
      ext_extended_usage = (\<lambda>c.
        map_option (\<lambda>_. [NID_server_auth]) (map_of (extensions c) NID_ext_key_usage)),
      ext_subject_alt_name = (\<lambda>c.
        map_option (\<lambda>v. [GEN_IPADD (parse_address (drop 3 v))])
          (map_of (extensions c) NID_subject_alt_name)),
      EVP_PKEY_base_id = (\<lambda>_. 408), EVP_PKEY_bits = (\<lambda>_. 256),
      EVP_PKEY_get_group_name = (\<lambda>_. (1, ''prime256v1'')),
      X509_get0_signature = (\<lambda>_. Some ()), X509_ALGOR_get0 = Some,
      OBJ_obj2txt = (\<lambda>_. (19, ''1.2.840.10045.4.3.2'')),
      X509_get_serialNumber = (\<lambda>c. Some (serial c)), ASN1_INTEGER_to_BN = Some,
      BN_num_bits = (\<lambda>_. 128), BN_bn2hex = (\<lambda>_. Some ''C001''),
      X509_get0_notBefore = (\<lambda>c. Some (not_before c)),
      X509_get0_notAfter = (\<lambda>c. Some (not_after c)),
      ASN1_TIME_to_tm = (\<lambda>t. (1, t)), gmtime = (\<lambda>t. t)\<rparr>"

lemma dots_in_number: "c \<in> set (to_string n) \<Longrightarrow> c \<noteq> CHR ''.''"
  using dot_not_in_to_string by metis

lemma field_simps [simp]:
  "field (to_string n @ CHR ''.'' # s) = to_string n" "field (to_string n) = to_string n"
  "after_field (to_string n @ CHR ''.'' # s) = s"
  using dots_in_number [of _ n]
  by (auto simp: field_def after_field_def takeWhile_append2 takeWhile_eq_all_conv)

lemma parse_address_inverse: "length ip = 4 \<Longrightarrow> parse_address (ipv4_of ip) = ip"
proof -
  assume "length ip = 4"
  then obtain a b c d where "ip = [a, b, c, d]"
    unfolding length_4_iff by blast
  then show ?thesis by (simp add: parse_address_def ipv4_of_def Let_def)
qed

lemma demo_extensions: "extension_reading demo_ssl demo_reader demo_meaning"
  by (auto simp: extension_reading_def demo_reader_def demo_meaning_def parse_address_inverse)

section \<open>A run\<close>

definition demo_root :: "nat profile" where
  "demo_root = \<lparr>version = 2, serial = 2 ^ 127 + 1002, not_before = 1003,
     not_after = 1004 + 3650 * 86400, subject_name = [(''CN'', ''ChatHub Dev Root CA'')],
     issuer_name = [(''CN'', ''ChatHub Dev Root CA'')], public_key = Some 1000,
     extensions = root_extensions, signature = Some (1000, ''sha256'')\<rparr>"

definition demo_leaf :: "nat profile" where
  "demo_leaf = \<lparr>version = 2, serial = 2 ^ 127 + 1005, not_before = 1006,
     not_after = 1007 + 365 * 86400, subject_name = [(''CN'', ''127.0.0.1'')],
     issuer_name = [(''CN'', ''ChatHub Dev Root CA'')], public_key = Some 1001,
     extensions = leaf_extensions ''IP:127.0.0.1'', signature = Some (1000, ''sha256'')\<rparr>"

definition demo_issued :: IssueDevCa where
  "demo_issued =
     \<lparr>ca_cert_pem = print_json (profile_json demo_root), ca_key_pem = ''1000'',
      server_cert_pem = print_json (profile_json demo_leaf), server_key_pem = ''1001'',
      ca_fingerprint_sha256 = concat (replicate 32 ''ca'')\<rparr>"

lemma demo_address: "isIpv4Literal ''127.0.0.1''"
  by code_simp

lemma demo_init:
  "run_state (initCert demo_ssl blank_profile 1000 ''ChatHub Dev Root CA'' kCaValidityDays) 1002 =
     ((True, demo_root\<lparr>issuer_name := [], extensions := [], signature := None\<rparr>), 1005)"
  "run_state (initCert demo_ssl blank_profile 1001 ''127.0.0.1'' kServerValidityDays) 1005 =
     ((True, demo_leaf\<lparr>issuer_name := [], extensions := [], signature := None\<rparr>), 1008)"
  by (simp_all add: initCert_def setSerial_def demo_ssl_def demo_root_def demo_leaf_def
      blank_profile_def kCaValidityDays_def kServerValidityDays_def X509_VERSION_3_def)

lemma demo_certificates:
  "run_state (issue_root demo_ssl blank_profile 1000) 1002 = (Some demo_root, 1005)"
  "run_state (issue_leaf demo_ssl blank_profile 1001 demo_root 1000 ''127.0.0.1'' ''IP:127.0.0.1'') 1005 =
     (Some demo_leaf, 1008)"
  by (simp_all add: issue_root_def issue_leaf_def demo_init)
    (simp_all add: demo_ssl_def demo_root_def demo_leaf_def root_extensions_def leaf_extensions_def
      addExt_def)

lemma demo_key_text: "print_json (JInt 1000) = ''1000''" "print_json (JInt 1001) = ''1001''"
proof -
  have "to_string 1000 = ''1000'' \<and> to_string 1001 = ''1001''"
    by (simp add: to_string.simps digit_char_def; code_simp)
  then show "print_json (JInt 1000) = ''1000''" "print_json (JInt 1001) = ''1001''"
    by (simp_all add: print_int_def)
qed

lemma demo_hex: "hex_of_bytes (replicate 32 0xCA) = concat (replicate 32 ''ca'')"
  by code_simp

lemma print_json_nonempty: "print_json j \<noteq> []"
  using print_json_head [of j] by auto

lemma demo_collect:
  "run_state (collect_output demo_ssl demo_root 1000 demo_leaf 1001) w = (Some demo_issued, w)"
  using demo_key_text demo_hex
  by (simp add: collect_output_def x509ToPem_def pkeyToPem_def fingerPrint_def bioToString_def
      demo_ssl_def demo_issued_def print_json_nonempty del: print_json.simps)

lemma demo_run: "run_state (issueDevCa demo_ssl ''127.0.0.1'') 1000 = (Some demo_issued, 1008)"
  using demo_certificates demo_collect [of 1008]
  by (simp add: issueDevCa_def demo_address Let_def)
    (simp add: demo_ssl_def)

lemma demo_texts_short:
  "length (ca_cert_pem demo_issued) \<le> 2147483647" "length (server_cert_pem demo_issued) \<le> 2147483647"
  "length (ca_key_pem demo_issued) \<le> 2147483647" "length (server_key_pem demo_issued) \<le> 2147483647"
  by (simp_all add: demo_issued_def demo_root_def demo_leaf_def profile_json_def root_extensions_def
      leaf_extensions_def print_string_def print_int_def backslash_def to_string.simps)

section \<open>Witnesses\<close>

theorem issueDevCa_contract_witness:
  "isIpv4Literal ''127.0.0.1'' \<and> (\<exists>ca. pem_of demo_ssl ca (ca_cert_pem demo_issued) \<and>
     subject_name (profile_of demo_meaning ca) = [(''CN'', ''ChatHub Dev Root CA'')])"
  using issueDevCa_contract [OF demo_issuing demo_run] by (auto simp: Let_def)

theorem issued_certificates_verify_witness:
  "verifySignedBy demo_ssl (server_cert_pem demo_issued) (ca_cert_pem demo_issued) \<and>
   certMatchesKey demo_ssl (server_cert_pem demo_issued) (server_key_pem demo_issued)"
  using issued_certificates_verify [OF demo_issuing demo_pem demo_keys demo_run] demo_texts_short
  by simp

theorem issued_certificates_inspect_witness:
  "\<exists>f. inspectCertPem demo_ssl demo_reader (server_cert_pem demo_issued) = Some f \<and>
     \<not> is_ca f \<and> server_auth f \<and> san_ips f = [''127.0.0.1'']"
  using issued_certificates_inspect [OF demo_issuing demo_pem demo_extensions demo_run
      demo_texts_short(1,2)]
  by blast

lemma demo_readable:
  "\<exists>f. inspectCertPem demo_ssl demo_reader (server_cert_pem demo_issued) = Some f"
proof -
  have "pemToX509 demo_ssl (server_cert_pem demo_issued) = Some demo_leaf"
    using demo_texts_short(2) by (simp add: pemToX509_def memBio_def INT_MAX_def demo_ssl_def
      demo_issued_def read_print_json json_profile_inverse del: print_json.simps)
  from inspect_fields [OF this] show ?thesis by blast
qed

theorem inspectCertPem_names_witness:
  "\<exists>f. inspectCertPem demo_ssl demo_reader (server_cert_pem demo_issued) = Some f \<and>
     list_all isIpv4Literal (san_ips f)"
proof -
  from demo_readable obtain f where
    "inspectCertPem demo_ssl demo_reader (server_cert_pem demo_issued) = Some f" by blast
  with inspectCertPem_names [OF this] show ?thesis by blast
qed

theorem oversized_pem_rejected_witness:
  "inspectCertPem demo_ssl demo_reader (replicate 2147483648 CHR ''A'') = None"
  using oversized_pem_rejected [of "replicate 2147483648 CHR ''A''" demo_ssl demo_reader] by simp

end
