(* ===== verification/Tls_Config.thy ===== *)
theory Tls_Config
  imports Chathub_Prelude "HOL-Library.Sublist"
begin

text \<open>
  The TLS configurations of the two sides: \<^verbatim>\<open>TlsContext::load\<close> of
  \<^verbatim>\<open>chat-server/src/tls_context.cpp\<close> over the calls of asio and OpenSSL it makes, and
  \<^verbatim>\<open>TlsClientConfig\<close> of \<^verbatim>\<open>client-qt/src/tls_client.cpp\<close> over those of Qt. The libraries are
  records of operations; what they do to a configuration is stated by the predicates
  \<open>asio_settings\<close> and \<open>qt_settings\<close>.
\<close>

section \<open>The server's context\<close>

datatype tls_option = default_workarounds | no_sslv2 | no_sslv3 | no_tlsv1 | no_tlsv1_1

text \<open>
  \<open>'x\<close> is \<^verbatim>\<open>asio::ssl::context\<close>. The two loading calls report their error code as the text of
  its message, \<open>None\<close> when it is not set.
\<close>

record 'x asio_ssl =
  tls_server_context :: 'x
  set_options :: "'x \<Rightarrow> tls_option list \<Rightarrow> 'x"
  SSL_CTX_set_cipher_list :: "'x \<Rightarrow> string \<Rightarrow> int \<times> 'x"
  use_certificate_chain_file :: "'x \<Rightarrow> string \<Rightarrow> string option \<times> 'x"
  use_private_key_file_pem :: "'x \<Rightarrow> string \<Rightarrow> string option \<times> 'x"
  SSL_CTX_check_private_key :: "'x \<Rightarrow> int"

datatype 'x TlsContext = TlsContext (native: 'x)

definition load_cipher_list :: string where
  "load_cipher_list = ''ECDHE+ECDSA+AESGCM:ECDHE+ECDSA+CHACHA20''"

definition quote :: char where "quote = CHR 0x27"

text \<open>\<^verbatim>\<open>TlsContext::load\<close>: the result and the value of the output parameter \<open>error\<close> after it.\<close>

definition load :: "'x asio_ssl \<Rightarrow> string \<Rightarrow> string \<Rightarrow> string \<Rightarrow> 'x TlsContext option \<times> string" where
  "load A cert_chain private_key error =
     (let error = [];
          context = tls_server_context A;
          context = set_options A context [default_workarounds, no_sslv2, no_sslv3, no_tlsv1, no_tlsv1_1]
      in case SSL_CTX_set_cipher_list A context load_cipher_list of (r, context) \<Rightarrow>
      if r \<noteq> 1 then (None, ''configure TLS 1.2 cipher list (ECDHE+AEAD) failed'')
      else case use_certificate_chain_file A context cert_chain of
        (Some message, context) \<Rightarrow>
          (None, ''load cert chain '' @ [quote] @ cert_chain @ [quote] @ '': '' @ message)
      | (None, context) \<Rightarrow>
      (case use_private_key_file_pem A context private_key of
        (Some message, context) \<Rightarrow>
          (None, ''load private key '' @ [quote] @ private_key @ [quote] @ '': '' @ message)
      | (None, context) \<Rightarrow>
      if SSL_CTX_check_private_key A context \<noteq> 1
      then (None, ''private key does not match certificate'')
      else (Some (TlsContext context), error)))"

section \<open>The client's configuration\<close>

datatype verify_mode = VerifyNone | QueryPeer | VerifyPeer | AutoVerifyPeer

text \<open>
  \<open>'q\<close> is \<^verbatim>\<open>QString\<close>, \<open>'c\<close> \<^verbatim>\<open>QSslCertificate\<close>, \<open>'g\<close> \<^verbatim>\<open>QSslConfiguration\<close>, \<open>'s\<close> \<^verbatim>\<open>QSslSocket\<close>;
  \<open>q_text\<close> builds a \<^verbatim>\<open>QString\<close> of a literal, \<open>q_append\<close> is \<^verbatim>\<open>+\<close>.
\<close>

record ('q, 'c, 'g, 's) qt_tls =
  q_text :: "string \<Rightarrow> 'q"
  q_empty :: 'q
  q_append :: "'q \<Rightarrow> 'q \<Rightarrow> 'q"
  q_contains :: "'q \<Rightarrow> string \<Rightarrow> bool"
  supportsSsl :: bool
  sslLibraryVersionString :: 'q
  certificates_fromPath :: "'q \<Rightarrow> 'c list"
  default_configuration :: 'g
  setCaCertificates :: "'g \<Rightarrow> 'c list \<Rightarrow> 'g"
  setPeerVerifyMode :: "'g \<Rightarrow> verify_mode \<Rightarrow> 'g"
  socket_setSslConfiguration :: "'s \<Rightarrow> 'g \<Rightarrow> 's"
  socket_setPeerVerifyMode :: "'s \<Rightarrow> verify_mode \<Rightarrow> 's"

datatype 'g TlsClientConfig = TlsClientConfig (configuration: 'g)

definition isBackendReady :: "('q, 'c, 'g, 's) qt_tls \<Rightarrow> 'q \<Rightarrow> bool \<times> 'q" where
  "isBackendReady Q error =
     (if \<not> supportsSsl Q then (False, q_text Q ''no TLS backend available'')
      else let version = sslLibraryVersionString Q
      in if \<not> q_contains Q version ''3.5''
      then (False, q_append Q (q_text Q ''unexpected OpenSSL version: '') version)
      else (True, error))"

definition build :: "('q, 'c, 'g, 's) qt_tls \<Rightarrow> 'q \<Rightarrow> 'q \<Rightarrow> 'g TlsClientConfig option \<times> 'q" where
  "build Q ca_file_path error =
     (let error = q_empty Q
      in case isBackendReady Q error of (ready, error) \<Rightarrow>
      if \<not> ready then (None, error)
      else let certs = certificates_fromPath Q ca_file_path
      in if certs = []
      then (None, q_append Q (q_text Q ''no CA certificate loaded from: '') ca_file_path)
      else let config = default_configuration Q;
               config = setCaCertificates Q config certs;
               config = setPeerVerifyMode Q config VerifyPeer
      in (Some (TlsClientConfig config), error))"

definition applyTo :: "('q, 'c, 'g, 's) qt_tls \<Rightarrow> 'g TlsClientConfig \<Rightarrow> 's \<Rightarrow> 's" where
  "applyTo Q config socket =
     (let socket = socket_setSslConfiguration Q socket (configuration config)
      in socket_setPeerVerifyMode Q socket VerifyPeer)"

section \<open>What the libraries promise\<close>

record server_settings =
  options_set :: "tls_option set"
  ciphers :: string
  chain_file :: "string option"
  key_file :: "string option"

text \<open>
  \<open>settings\<close> is what a context is set to: options accumulate, the calls that succeed set
  their field and leave the others.
\<close>

definition asio_settings :: "'x asio_ssl \<Rightarrow> ('x \<Rightarrow> server_settings) \<Rightarrow> bool" where
  "asio_settings A settings \<longleftrightarrow>
     (\<forall>x os. settings (set_options A x os) =
        (settings x)\<lparr>options_set := options_set (settings x) \<union> set os\<rparr>) \<and>
     (\<forall>x s x'. SSL_CTX_set_cipher_list A x s = (1, x') \<longrightarrow>
        settings x' = (settings x)\<lparr>ciphers := s\<rparr>) \<and>
     (\<forall>x f x'. use_certificate_chain_file A x f = (None, x') \<longrightarrow>
        settings x' = (settings x)\<lparr>chain_file := Some f\<rparr>) \<and>
     (\<forall>x f x'. use_private_key_file_pem A x f = (None, x') \<longrightarrow>
        settings x' = (settings x)\<lparr>key_file := Some f\<rparr>)"

text \<open>
  For Qt: the trusted certificates and the mode of a configuration and of a socket, and
  \<^verbatim>\<open>QString::contains\<close> as the search for a substring of the text.
\<close>

definition qt_settings ::
  "('q, 'c, 'g, 's) qt_tls \<Rightarrow> ('q \<Rightarrow> string) \<Rightarrow> ('g \<Rightarrow> 'c list \<times> verify_mode) \<Rightarrow>
     ('s \<Rightarrow> 'c list \<times> verify_mode) \<Rightarrow> bool" where
  "qt_settings Q txt_of trust socket_trust \<longleftrightarrow>
     (\<forall>s. txt_of (q_text Q s) = s) \<and> txt_of (q_empty Q) = [] \<and>
     (\<forall>a b. txt_of (q_append Q a b) = txt_of a @ txt_of b) \<and>
     (\<forall>a s. q_contains Q a s = sublist s (txt_of a)) \<and>
     (\<forall>g cs. trust (setCaCertificates Q g cs) = (cs, snd (trust g))) \<and>
     (\<forall>g m. trust (setPeerVerifyMode Q g m) = (fst (trust g), m)) \<and>
     (\<forall>s g. socket_trust (socket_setSslConfiguration Q s g) = trust g) \<and>
     (\<forall>s m. socket_trust (socket_setPeerVerifyMode Q s m) = (fst (socket_trust s), m))"

section \<open>Properties\<close>

text \<open>
  C39 (loading the server's context). Loading returns a context exactly if it clears the error
  text; otherwise the text says what failed. In a loaded context SSL 2 and 3, TLS 1.0 and 1.1
  are switched off, TLS 1.2 has only ECDHE suites with authenticated encryption, the chain
  and the key are those of the given files, and the key matches the certificate.
\<close>

theorem load_settings:
  assumes "asio_settings A settings"
  shows "(case load A cert key error of
      (None, e) \<Rightarrow> e \<noteq> []
    | (Some c, e) \<Rightarrow> e = [] \<and> SSL_CTX_check_private_key A (native c) = 1 \<and>
        {default_workarounds, no_sslv2, no_sslv3, no_tlsv1, no_tlsv1_1}
          \<subseteq> options_set (settings (native c)) \<and>
        ciphers (settings (native c)) = ''ECDHE+ECDSA+AESGCM:ECDHE+ECDSA+CHACHA20'' \<and>
        chain_file (settings (native c)) = Some cert \<and>
        key_file (settings (native c)) = Some key)"
proof -
  have "SSL_CTX_set_cipher_list A x s = (1, x') \<Longrightarrow> settings x' = (settings x)\<lparr>ciphers := s\<rparr>"
    "use_certificate_chain_file A x f = (None, x') \<Longrightarrow> settings x' = (settings x)\<lparr>chain_file := Some f\<rparr>"
    "use_private_key_file_pem A x f = (None, x') \<Longrightarrow> settings x' = (settings x)\<lparr>key_file := Some f\<rparr>"
    "options_set (settings (set_options A x os)) = options_set (settings x) \<union> set os" for x s x' f os
    using assms by (simp_all add: asio_settings_def)
  then show ?thesis
    by (auto simp: load_def Let_def load_cipher_list_def split: prod.splits option.splits)
qed

text \<open>
  C40 (the client's configuration). Building returns a configuration exactly if it leaves the
  error text empty; then the library has a TLS backend whose version text contains 3.5, the
  trusted certificates are exactly those of the given file, at least one, and the peer is
  verified. Applied to a socket, whatever was set on it before, the socket trusts exactly
  these certificates and verifies the peer.
\<close>

theorem client_build_settings:
  assumes "qt_settings Q txt_of trust socket_trust"
  shows "(case build Q path error of
      (None, e) \<Rightarrow> txt_of e \<noteq> []
    | (Some config, e) \<Rightarrow> txt_of e = [] \<and> supportsSsl Q \<and>
        sublist ''3.5'' (txt_of (sslLibraryVersionString Q)) \<and>
        certificates_fromPath Q path \<noteq> [] \<and>
        trust (configuration config) = (certificates_fromPath Q path, VerifyPeer) \<and>
        (\<forall>socket. socket_trust (applyTo Q config socket) =
           (certificates_fromPath Q path, VerifyPeer)))"
  using assms
  by (simp add: build_def isBackendReady_def applyTo_def qt_settings_def Let_def)

text \<open>
  The check looks for 3.5 anywhere in the version text, so that of OpenSSL 3.3.5, a release of
  the 3.3 series, is accepted.
\<close>

lemma version_check_too_wide:
  assumes "qt_settings Q txt_of trust socket_trust" and "supportsSsl Q"
    and "txt_of (sslLibraryVersionString Q) = ''OpenSSL 3.3.5 30 Sep 2025''"
  shows "isBackendReady Q error = (True, error)"
proof -
  have "''OpenSSL 3.3.5 30 Sep 2025'' = ''OpenSSL 3.'' @ ''3.5'' @ '' 30 Sep 2025''"
    by simp
  then have "sublist ''3.5'' ''OpenSSL 3.3.5 30 Sep 2025''"
    unfolding sublist_def by blast
  with assms show ?thesis by (simp add: isBackendReady_def qt_settings_def)
qed

section \<open>Witnesses\<close>

text \<open>A context that is its settings, with one key that matches; texts as strings.\<close>

definition demo_asio :: "server_settings asio_ssl" where
  "demo_asio =
     \<lparr>tls_server_context = \<lparr>options_set = {}, ciphers = [], chain_file = None, key_file = None\<rparr>,
      set_options = (\<lambda>x os. x\<lparr>options_set := options_set x \<union> set os\<rparr>),
      SSL_CTX_set_cipher_list = (\<lambda>x s. (1, x\<lparr>ciphers := s\<rparr>)),
      use_certificate_chain_file = (\<lambda>x f. (None, x\<lparr>chain_file := Some f\<rparr>)),
      use_private_key_file_pem = (\<lambda>x f. (None, x\<lparr>key_file := Some f\<rparr>)),
      SSL_CTX_check_private_key = (\<lambda>x. if key_file x = Some ''server-key.pem'' then 1 else 0)\<rparr>"

lemma demo_asio_settings: "asio_settings demo_asio (\<lambda>x. x)"
  by (simp add: asio_settings_def demo_asio_def)

lemma demo_load:
  "load demo_asio ''server-cert.pem'' ''server-key.pem'' ''old'' =
     (Some (TlsContext \<lparr>options_set = {default_workarounds, no_sslv2, no_sslv3, no_tlsv1, no_tlsv1_1},
        ciphers = load_cipher_list, chain_file = Some ''server-cert.pem'',
        key_file = Some ''server-key.pem''\<rparr>), [])"
  by (simp add: load_def demo_asio_def)

theorem load_settings_witness:
  "\<exists>c. load demo_asio ''server-cert.pem'' ''server-key.pem'' ''old'' = (Some c, []) \<and>
     no_tlsv1_1 \<in> options_set (native c)"
  using load_settings [OF demo_asio_settings, of "''server-cert.pem''" "''server-key.pem''" "''old''"]
  by (simp add: demo_load)

definition demo_qt :: "(string, nat, nat list \<times> verify_mode, nat list \<times> verify_mode) qt_tls" where
  "demo_qt =
     \<lparr>q_text = (\<lambda>s. s), q_empty = [], q_append = (@), q_contains = (\<lambda>a s. sublist s a),
      supportsSsl = True, sslLibraryVersionString = ''OpenSSL 3.3.5 30 Sep 2025'',
      certificates_fromPath = (\<lambda>p. if p = ''trusted-ca.pem'' then [7] else []),
      default_configuration = ([1, 2], AutoVerifyPeer),
      setCaCertificates = (\<lambda>g cs. (cs, snd g)), setPeerVerifyMode = (\<lambda>g m. (fst g, m)),
      socket_setSslConfiguration = (\<lambda>s g. g), socket_setPeerVerifyMode = (\<lambda>s m. (fst s, m))\<rparr>"

lemma demo_qt_settings: "qt_settings demo_qt (\<lambda>s. s) (\<lambda>g. g) (\<lambda>s. s)"
  by (simp add: qt_settings_def demo_qt_def)

lemma version_check_too_wide_witness:
  "isBackendReady demo_qt ''e'' = (True, ''e'')"
  by (rule version_check_too_wide [OF demo_qt_settings]) (simp_all add: demo_qt_def)

theorem client_build_settings_witness:
  "case build demo_qt ''trusted-ca.pem'' ''old'' of
      (None, e) \<Rightarrow> e \<noteq> []
    | (Some config, e) \<Rightarrow> e = [] \<and> configuration config = ([7], VerifyPeer)"
  using client_build_settings [OF demo_qt_settings, of "''trusted-ca.pem''" "''old''"]
  by (simp add: demo_qt_def split: prod.splits option.splits)

end
