(* ===== verification/Spec2Isabelle.thy ===== *)
theory Spec2Isabelle
  imports Outcomes Ids Protocol Utf8 Frames Hello Server_Codec Client_Codec Hello_Exchange
    Tls_Handshake Ipv4 Dev_Ca Dev_Ca_Inspect Dev_Ca_Files Openssl_Instance Tls_Config
begin

text \<open>
  ChatHub is a chat system in C++20: a Qt client (\<^verbatim>\<open>client-qt/\<close>), a server on Asio
  (\<^verbatim>\<open>chat-server/\<close>), the contracts both share (\<^verbatim>\<open>shared/include/chathub/contracts/\<close>, header
  only) and a tool that issues development certificates (\<^verbatim>\<open>tools/pki/\<close>). This commit has the
  protocol foundation: the parts below exist as source, the sessions that connect them do not.

  \<^bold>\<open>Parts and how they interact.\<close> A connection starts with a TLS handshake: the client trusts
  only the private root certificate the tool issued, the server loads the certificate and key
  the tool wrote and gives every handshake five seconds. Then both sides exchange frames: an
  8-byte header (magic, version, type, body length) and a JSON body in UTF-8. The registry of
  frame types says for each type its direction, the connection states it is allowed in, its
  body limit, and the response of a request. The first exchange is hello: the client names its
  version, platform and capabilities, the server answers with its limits and the intersection
  of the capabilities. Identities and sequence numbers are value types that only a parser or
  a factory builds. Expected failures are \<^verbatim>\<open>Outcome\<close> values with a snake-case code.

  \<^bold>\<open>Theories and sources.\<close>
  \<^item> \<open>Chathub_Prelude\<close>: types, character classes, \<^verbatim>\<open>std::to_string\<close> and \<^verbatim>\<open>std::from_chars\<close>, and
    the locales \<open>parsed_value\<close> and \<open>exact_value\<close> for value types with a parser.
  \<^item> \<open>Outcomes\<close>: \<^verbatim>\<open>outcome.hpp\<close>; \<^verbatim>\<open>Outcome<T>\<close> is the datatype with \<open>Ok\<close> and \<open>Err\<close>.
  \<^item> \<open>Ids\<close>: \<^verbatim>\<open>ids.hpp\<close>; \<^verbatim>\<open>AccountName\<close>, \<^verbatim>\<open>UuidId<Tag>\<close> (the tag is a type parameter),
    \<^verbatim>\<open>DecimalSeq<Tag>\<close> over 64-bit words. Each is an interpretation of a parser locale.
  \<^item> \<open>Protocol\<close>: \<^verbatim>\<open>protocol_descriptor.hpp\<close>; the enumeration with its codes, the table, and
    \<^verbatim>\<open>findProtocol\<close>. A \<^verbatim>\<open>ProtocolType\<close> value may be any byte, as in C++.
  \<^item> \<open>Utf8\<close>, \<open>Frames\<close>: \<^verbatim>\<open>frame.hpp\<close>; \<^verbatim>\<open>isValidUtf8\<close> against the encoding form of Unicode,
    \<^verbatim>\<open>encodeFrame\<close>, and \<^verbatim>\<open>FrameDecoder\<close> with its members as a record and one definition per
    method. The specification of the decoder is \<open>decode_stream\<close>, a function of all bytes
    received; the locale \<open>chunked_input\<close> is what being fed in pieces means.
  \<^item> \<open>Hello\<close>: \<^verbatim>\<open>hello.hpp\<close>; \<^verbatim>\<open>CapabilitySet\<close> over \<^verbatim>\<open>std::set\<close>, an ascending list behind the
    locale \<open>ordered_set\<close>.
  \<^item> \<open>Json_Api\<close>, \<open>Hello_Wire\<close>, \<open>Server_Codec\<close>, \<open>Client_Codec\<close>, \<open>Hello_Exchange\<close>: the two
    \<^verbatim>\<open>hello_codec.cpp\<close>, check by check, with the output parameter as a second result; the
    documents of the wire as the contract both implement.
  \<^item> \<open>Tls_Handshake\<close>: \<^verbatim>\<open>tls_handshake.cpp\<close>; the shared state as a record, each callback as a
    partial function (\<open>None\<close> is a null pointer dereferenced), the I/O library as the inductive
    relation \<open>step\<close>; the locale \<open>settling_system\<close> gives invariants and settling.
  \<^item> \<open>Tls_Config\<close>: \<^verbatim>\<open>tls_context.cpp\<close> and \<^verbatim>\<open>tls_client.cpp\<close>.
  \<^item> \<open>Ipv4\<close>, \<open>Openssl_Api\<close>, \<open>Dev_Ca\<close>, \<open>Dev_Ca_Inspect\<close>, \<open>Dev_Ca_Files\<close>: \<^verbatim>\<open>dev_ca.cpp\<close> and
    \<^verbatim>\<open>dev_ca_main.cpp\<close>; OpenSSL calls run in a state monad and every one may fail.
  \<^item> \<open>Json_Text\<close>, \<open>Openssl_Instance\<close>: concrete libraries for the witnesses only.

  \<^bold>\<open>What the lemmas show.\<close> The decoder refines its specification for any interleaving of
  input and pops, never invents a frame, keeps bounded memory, judges a header before any body
  byte, and stays failed; encoded frames arrive whatever the cuts. The UTF-8 check, the IPv4
  check, and the parsers of the value types accept exactly the documented texts. The registry
  pairs requests with responses and has the documented state gate. The codecs accept exactly
  the documented messages, name the documented error otherwise, and interchange messages; this
  theory composes them with the frames, from end to end. A handshake reports exactly once and
  consistently with the socket, with no step into undefined behaviour. The issued certificates
  have the documented contents, verify, and pass their own inspection; the tool writes
  what its file names say and reports failures; both TLS configurations are what the design
  asks for.

  \<^bold>\<open>Third-party code\<close> is a parameter: records of operations for Boost.JSON, Qt, Asio and
  OpenSSL, with the documented behaviour the code relies on as named hypotheses
  (\<open>boost_builders\<close>, \<open>qt_builders\<close>, \<open>qt_strings\<close>, \<open>boost_to_qt\<close>, \<open>qt_to_boost\<close>,
  \<open>ssl_issuing\<close>, \<open>pem_reading\<close>, \<open>key_reading\<close>, \<open>extension_reading\<close>, \<open>asio_settings\<close>,
  \<open>qt_settings\<close>). Each has an instance, so each can hold. They claim no
  more than the code needs: setters on unsigned certificates, the extension texts the tool
  configures, and decoding for version 3 certificates read from PEM with no extension twice.
  One is about the environment: the
  clock does not run backwards between the two calls that set a validity. Cryptography is
  not modelled beyond which key signed which contents.

  \<^bold>\<open>Bounds and fuel.\<close> All loops of the program are total functions: structural, or with a
  measure (bytes left for \<open>utf8_loop\<close>, \<open>decodeAvailableFrames\<close> and \<open>ipv4_loop\<close>). The only fuel
  is in the reader of \<open>Json_Text\<close>, where the length of the text is enough. The rank of a
  handshake is four: two operations to end, two callbacks to run. Numbers that wrap are words
  (frame lengths, 64-bit sequence numbers, the fields of the hello response); indices and
  sizes the code checks are natural numbers.

  \<^bold>\<open>Not modelled.\<close> Allocation failure and the exceptions it raises; the run-time of the
  libraries; \<^verbatim>\<open>noexcept\<close>, move constructors and deleters, which have no effect on values; the
  separator of Windows paths; tests and build files; sessions, services and storage, which
  have no source at this commit.
\<close>

section \<open>The hello exchange over the wire\<close>

text \<open>
  The repository has the parts of the exchange but not yet the sessions that connect them. The
  composition here is the one the parts are made for: the bytes of one encoded frame reach the
  peer's decoder in any pieces, with pops at any time.
\<close>

definition arrives :: "ProtocolType \<Rightarrow> string \<Rightarrow> decoder_op list \<Rightarrow> bool" where
  "arrives t body ops \<longleftrightarrow> encodeFrame t body = Some (fed_bytes ops)"

lemma arrives_frame:
  assumes "arrives t body ops" and "run_decoder ops FrameDecoder_init = (out, d)"
  shows "out @ decoded_frames d = [\<lparr>frame_kind = t, frame_body = body\<rparr>]" and "\<not> hasFailed d"
  using encoded_frames_arrive [of "[\<lparr>frame_kind = t, frame_body = body\<rparr>]" "[fed_bytes ops]", OF _ _ assms(2)]
    assms(1)
  by (simp_all add: arrives_def)

lemma arrives_length: "arrives t body ops \<Longrightarrow> length body \<le> 65536"
  by (auto simp: arrives_def encodeFrame_Some frame_ok_length)

lemma wire_set_intersect: "wire_set a \<Longrightarrow> wire_set (cap_intersect a b)"
  by (auto simp: wire_set_def wire_capabilities_def cap_value_intersect list_all_iff
      intro: order_trans [OF length_filter_le])

lemma wire_negotiated:
  "wire_request r \<Longrightarrow> wire_response base \<Longrightarrow>
     wire_response (base\<lparr>resp_capabilities := cap_intersect (req_capabilities r) supported\<rparr>)"
  by (simp add: wire_request_def wire_response_def wire_set_intersect)

text \<open>
  C2 (the hello exchange from end to end). The client encodes a request and frames it; cut
  anywhere, it reaches the server's decoder, which yields exactly one frame of type
  \<open>hello_request\<close>, and the codec reads the client's request from its body. The server answers
  with the negotiated capabilities under the same identifier; the answer, framed and cut
  anywhere, yields exactly one frame of type \<open>hello_response\<close>, and the client reads exactly
  the server's answer: its capabilities are those both sides named, and no decoder failed.
\<close>

theorem hello_exchange_end_to_end:
  assumes "qt_builders Q" and "qt_strings Q" and "boost_builders B"
    and "qt_to_boost Q B" and "boost_to_qt B Q"
    and "wire_request r" and "isUuid (uuid_value i)" and "wire_response base"
    and "answer = base\<lparr>resp_capabilities := cap_intersect (req_capabilities r) supported\<rparr>"
    and "encodeHelloRequest Q i r = Ok sent"
    and "arrives (enumerator hello_request) sent to_server"
    and "run_decoder to_server FrameDecoder_init = (at_server, server)"
    and "arrives (enumerator hello_response) (encodeHelloResponse B i answer) to_client"
    and "run_decoder to_client FrameDecoder_init = (at_client, client)"
  shows "(\<exists>f. at_server @ decoded_frames server = [f] \<and> \<not> hasFailed server \<and>
      frame_kind f = enumerator hello_request \<and>
      decodeHelloRequest B (frame_body f) UuidId_default = (Ok r, i)) \<and>
    (\<exists>f. at_client @ decoded_frames client = [f] \<and> \<not> hasFailed client \<and>
      frame_kind f = enumerator hello_response \<and>
      decodeHelloResponse Q (frame_body f) UuidId_default = (Ok answer, i)) \<and>
    (\<forall>v. cap_contains (resp_capabilities answer) v =
      (cap_contains (req_capabilities r) v \<and> cap_contains supported v))"
proof (intro conjI)
  note at_server = arrives_frame [OF assms(11,12)] and at_client = arrives_frame [OF assms(13,14)]
  obtain w where "bj_parse B sent = Some w" "reads (boost_view B) w (request_json i r)"
    using request_arrives [OF assms(1,2,4,6) isUuid_plain [OF assms(7)] assms(10)] by blast
  with at_server show "\<exists>f. at_server @ decoded_frames server = [f] \<and> \<not> hasFailed server \<and>
      frame_kind f = enumerator hello_request \<and>
      decodeHelloRequest B (frame_body f) UuidId_default = (Ok r, i)"
    using decodes_request [OF arrives_length [OF assms(11)] _ _ assms(6,7)] by simp
  have answer: "wire_response answer"
    using wire_negotiated [OF assms(6,8)] assms(9) by simp
  obtain doc where doc: "qd_fromJson Q (encodeHelloResponse B i answer) = (doc, True)"
      "\<not> qd_isNull Q doc" "qd_isObject Q doc"
      "reads (qt_view Q) (qv_of_object Q (qd_object Q doc)) (response_json i answer)"
    using response_arrives [OF assms(3,5) answer assms(7)] .
  from at_client show "\<exists>f. at_client @ decoded_frames client = [f] \<and> \<not> hasFailed client \<and>
      frame_kind f = enumerator hello_response \<and>
      decodeHelloResponse Q (frame_body f) UuidId_default = (Ok answer, i)"
    using decodes_response [OF arrives_length [OF assms(13)] doc assms(1) answer assms(7)] by simp
  show "\<forall>v. cap_contains (resp_capabilities answer) v =
      (cap_contains (req_capabilities r) v \<and> cap_contains supported v)"
    by (simp add: assms(9) cap_contains_def)
qed

text \<open>The two sample messages in two pieces each, with a pop that comes too early.\<close>

definition delivery :: "ProtocolType \<Rightarrow> string \<Rightarrow> decoder_op list" where
  "delivery t body =
     (let wire = frame_bytes t body in [Feed (take 5 wire), Pop, Feed (drop 5 wire), Pop])"

lemma delivery_arrives: "frame_ok t body \<Longrightarrow> arrives t body (delivery t body)"
  by (simp add: arrives_def delivery_def encodeFrame_Some Let_def)

lemma sample_frames:
  assumes "encodeHelloRequest doc_qt sample_id sample_request = Ok sent"
  shows "frame_ok (enumerator hello_request) sent"
    and "frame_ok (enumerator hello_response) (encodeHelloResponse doc_boost sample_id sample_response)"
proof -
  have "map_option d_max_body (findProtocol (enumerator hello_request)) = Some kMaxJsonBody"
    "map_option d_max_body (findProtocol (enumerator hello_response)) = Some kMaxJsonBody"
    by code_simp+
  then have types: "\<exists>desc. findProtocol (enumerator hello_request) = Some desc \<and> d_max_body desc = kMaxJsonBody"
    "\<exists>desc. findProtocol (enumerator hello_response) = Some desc \<and> d_max_body desc = kMaxJsonBody"
    by auto
  have "ascii sent \<and> length sent \<le> 65536"
    using assms unfolding sample_request_text by (auto simp: ascii_def)
  with types(1) show "frame_ok (enumerator hello_request) sent"
    by (auto simp: frame_ok_def kMaxJsonBody_def)
  have "ascii (encodeHelloResponse doc_boost sample_id sample_response) \<and>
      length (encodeHelloResponse doc_boost sample_id sample_response) \<le> 65536"
    unfolding sample_response_text by (simp add: ascii_def)
  with types(2) show "frame_ok (enumerator hello_response)
      (encodeHelloResponse doc_boost sample_id sample_response)"
    by (auto simp: frame_ok_def kMaxJsonBody_def)
qed

lemma sample_negotiated: "sample_response = sample_response
    \<lparr>resp_capabilities := cap_intersect (req_capabilities sample_request) (CapabilitySet_of [kCapabilityTextV1])\<rparr>"
proof -
  have "cap_intersect (req_capabilities sample_request) (CapabilitySet_of [kCapabilityTextV1]) =
      CapabilitySet_of [kCapabilityTextV1]"
    by code_simp
  then show ?thesis by (simp add: sample_response_def)
qed

theorem hello_exchange_end_to_end_witness:
  "\<exists>sent f f' at_server server at_client client.
     run_decoder (delivery (enumerator hello_request) sent) FrameDecoder_init = (at_server, server) \<and>
     run_decoder (delivery (enumerator hello_response)
       (encodeHelloResponse doc_boost sample_id sample_response)) FrameDecoder_init =
       (at_client, client) \<and>
     at_server @ decoded_frames server = [f] \<and> at_client @ decoded_frames client = [f'] \<and>
     decodeHelloRequest doc_boost (frame_body f) UuidId_default = (Ok sample_request, sample_id) \<and>
     decodeHelloResponse doc_qt (frame_body f') UuidId_default = (Ok sample_response, sample_id)"
proof -
  obtain sent where sent: "encodeHelloRequest doc_qt sample_id sample_request = Ok sent"
    using sample_request_text by blast
  note frames = sample_frames [OF sent, THEN delivery_arrives]
  obtain at_server server where
    s: "run_decoder (delivery (enumerator hello_request) sent) FrameDecoder_init = (at_server, server)"
    by fastforce
  obtain at_client client where
    c: "run_decoder (delivery (enumerator hello_response)
       (encodeHelloResponse doc_boost sample_id sample_response)) FrameDecoder_init = (at_client, client)"
    by fastforce
  from hello_exchange_end_to_end [OF doc_laws(2,3,1,4,5) sample_valid(1,3,2) sample_negotiated sent
      frames(1) s frames(2) c]
  show ?thesis using s c by blast
qed

end
